(* ===== verification/Prelude.thy ===== *)
theory Prelude
  imports Complex_Main "HOL-Library.Word" "HOL-Library.Multiset" "HOL-Library.Code_Target_Nat"
    "HOL-Library.List_Lexorder" "HOL-Library.Char_ord"
begin

text \<open>
  Shared vocabulary of the development: the theorem collections, the types that several
  components use (instants, durations, 32-bit message identifiers), fallible results, and the
  two containers that the Go code uses everywhere: a map with a list under each key
  (\<open>m[k] = append(m[k], x)\<close>) and a map of counters (\<open>m[k]++\<close>).  Both are
  association lists in order of first insertion, with distinct keys; Go leaves the iteration
  order of a map open, so a fact about an iteration is stated for every permutation.
\<close>

named_theorems go_str \<open>facts about the Go string library\<close>
named_theorems go_map \<open>facts about the association lists that model Go maps\<close>
named_theorems status_simps \<open>rewriting of run statuses\<close>

type_synonym time = int \<comment> \<open>an instant in nanoseconds; 0 is Go's zero time\<close>
type_synonym duration = int \<comment> \<open>time.Duration: nanoseconds\<close>
type_synonym uid = "32 word" \<comment> \<open>uint32\<close>

definition time_is_zero :: "time \<Rightarrow> bool" where
  "time_is_zero t \<longleftrightarrow> t = 0"

definition second_ns :: duration where
  "second_ns = 1000000000"

definition hour_ns :: duration where
  "hour_ns = 3600 * second_ns"

text \<open>
  A Go \<open>error\<close> value: a text, a package-level sentinel that \<open>errors.Is\<close> recognises, or either of
  them wrapped by \<open>fmt.Errorf\<close> with text in front, around, or with two errors in it.  The nil error is
  \<^const>\<open>None\<close>, or the right summand of a result \<open>err + 'a\<close>.
\<close>

datatype err = Err string | Sentinel string | Wrap string err | Around string err string
  | Both string err string err string

fun err_text :: "err \<Rightarrow> string" where
  "err_text (Err s) = s"
| "err_text (Sentinel s) = s"
| "err_text (Wrap p e) = p @ err_text e"
| "err_text (Around p e s) = p @ err_text e @ s"
| "err_text (Both p e q d s) = p @ err_text e @ q @ err_text d @ s"

fun err_is :: "string \<Rightarrow> err \<Rightarrow> bool" where
  "err_is t (Err s) = False"
| "err_is t (Sentinel s) = (s = t)"
| "err_is t (Wrap p e) = err_is t e"
| "err_is t (Around p e s) = err_is t e"
| "err_is t (Both p e q d s) = (err_is t e \<or> err_is t d)"

lemma find_SomeD: "find P xs = Some x \<Longrightarrow> x \<in> set xs \<and> P x"
  by (induction xs) (auto split: if_splits)

text \<open>Maps of counters.\<close>

type_synonym 'k counter = "('k \<times> nat) list"

fun bump :: "'k \<Rightarrow> 'k counter \<Rightarrow> 'k counter" where
  "bump k [] = [(k, 1)]"
| "bump k ((k', n) # m) = (if k = k' then (k', Suc n) # m else (k', n) # bump k m)"

definition count_of :: "'k counter \<Rightarrow> 'k \<Rightarrow> nat" where
  "count_of m k = (case map_of m k of None \<Rightarrow> 0 | Some n \<Rightarrow> n)"

definition tally :: "'k list \<Rightarrow> 'k counter" where
  "tally ks = fold bump ks []"

lemma keys_bump [go_map]: "fst ` set (bump k m) = insert k (fst ` set m)"
  by (induction k m rule: bump.induct) auto

lemma distinct_bump [go_map]: "distinct (map fst m) \<Longrightarrow> distinct (map fst (bump k m))"
proof (induction k m rule: bump.induct)
  case (2 k k' n m)
  then show ?case using keys_bump [of k m] by (auto simp flip: set_map)
qed simp

lemma count_of_bump [go_map]: "count_of (bump k m) j = (if j = k then Suc (count_of m k) else count_of m j)"
  by (induction k m rule: bump.induct) (auto simp: count_of_def)

lemma sum_bump [go_map]: "sum_list (map snd (bump k m)) = Suc (sum_list (map snd m))"
  by (induction k m rule: bump.induct) auto

lemma distinct_fold_bump: "distinct (map fst m) \<Longrightarrow> distinct (map fst (fold bump ks m))"
  by (induction ks arbitrary: m) (auto simp: distinct_bump)

lemma count_of_fold_bump: "count_of (fold bump ks m) k = count_of m k + count_list ks k"
  by (induction ks arbitrary: m) (auto simp: count_of_bump)

lemma sum_fold_bump: "sum_list (map snd (fold bump ks m)) = sum_list (map snd m) + length ks"
  by (induction ks arbitrary: m) (auto simp: sum_bump)

lemma keys_fold_bump: "fst ` set (fold bump ks m) = fst ` set m \<union> set ks"
  by (induction ks arbitrary: m) (auto simp: keys_bump)

lemma count_of_tally [go_map]: "count_of (tally ks) k = count_list ks k"
  by (simp add: tally_def count_of_fold_bump) (simp add: count_of_def)

lemma distinct_tally [go_map]: "distinct (map fst (tally ks))"
  by (simp add: tally_def distinct_fold_bump)

lemma sum_tally [go_map]: "sum_list (map snd (tally ks)) = length ks"
  by (simp add: tally_def sum_fold_bump)

lemma keys_tally [go_map]: "fst ` set (tally ks) = set ks"
  by (simp add: tally_def keys_fold_bump)

text \<open>Maps of lists.\<close>

fun append_at :: "'k \<Rightarrow> 'v \<Rightarrow> ('k \<times> 'v list) list \<Rightarrow> ('k \<times> 'v list) list" where
  "append_at k x [] = [(k, [x])]"
| "append_at k x ((k', xs) # m) =
     (if k = k' then (k', xs @ [x]) # m else (k', xs) # append_at k x m)"

definition group_by :: "('v \<Rightarrow> 'k) \<Rightarrow> 'v list \<Rightarrow> ('k \<times> 'v list) list" where
  "group_by f xs = fold (\<lambda>x m. append_at (f x) x m) xs []"

definition group_of :: "('k \<times> 'v list) list \<Rightarrow> 'k \<Rightarrow> 'v list" where
  "group_of m k = (case map_of m k of None \<Rightarrow> [] | Some xs \<Rightarrow> xs)"

lemma keys_append_at [go_map]: "fst ` set (append_at k x m) = insert k (fst ` set m)"
  by (induction k x m rule: append_at.induct) auto

lemma distinct_append_at [go_map]:
  "distinct (map fst m) \<Longrightarrow> distinct (map fst (append_at k x m))"
proof (induction k x m rule: append_at.induct)
  case (2 k x k' xs m)
  then show ?case using keys_append_at [of k x m] by (auto simp flip: set_map)
qed simp

lemma group_of_append_at [go_map]:
  "group_of (append_at k x m) j = (if j = k then group_of m k @ [x] else group_of m j)"
  by (induction k x m rule: append_at.induct) (auto simp: group_of_def)

lemma fold_append_at:
  "group_of (fold (\<lambda>x m. append_at (f x) x m) xs m) k = group_of m k @ filter (\<lambda>x. f x = k) xs
   \<and> fst ` set (fold (\<lambda>x m. append_at (f x) x m) xs m) = fst ` set m \<union> f ` set xs
   \<and> (distinct (map fst m) \<longrightarrow> distinct (map fst (fold (\<lambda>x m. append_at (f x) x m) xs m)))"
  by (induction xs arbitrary: m) (auto simp: group_of_append_at keys_append_at distinct_append_at)

lemma group_of_group_by [go_map]: "group_of (group_by f xs) k = filter (\<lambda>x. f x = k) xs"
  using fold_append_at [of f xs "[]" k] by (simp add: group_by_def group_of_def)

lemma keys_group_by [go_map]: "fst ` set (group_by f xs) = f ` set xs"
  using fold_append_at [of f xs "[]"] by (simp add: group_by_def)

lemma distinct_group_by [go_map]: "distinct (map fst (group_by f xs))"
  using fold_append_at [of f xs "[]"] by (simp add: group_by_def)

lemma group_by_entry:
  assumes "(k, ys) \<in> set (group_by f xs)"
  shows "ys = filter (\<lambda>x. f x = k) xs" and "ys \<noteq> []"
proof -
  have "map_of (group_by f xs) k = Some ys"
    using assms by (simp add: distinct_group_by)
  then show ys: "ys = filter (\<lambda>x. f x = k) xs"
    using group_of_group_by [of f xs k] by (simp add: group_of_def)
  have "k \<in> f ` set xs" using assms keys_group_by [of f xs] by force
  with ys show "ys \<noteq> []" by (auto simp: filter_empty_conv)
qed

lemma mset_concat_append_at:
  "mset (concat (map snd (append_at k x m))) = add_mset x (mset (concat (map snd m)))"
  by (induction k x m rule: append_at.induct) auto

lemma mset_concat_group_by [go_map]: "mset (concat (map snd (group_by f xs))) = mset xs"
proof -
  have "mset (concat (map snd (fold (\<lambda>x m. append_at (f x) x m) xs m)))
        = mset xs + mset (concat (map snd m))" for m
    by (induction xs arbitrary: m) (simp_all add: mset_concat_append_at)
  from this [of "[]"] show ?thesis by (simp add: group_by_def)
qed

text \<open>The last value written under a key wins: \<open>for ... { m[k] = v }\<close>.\<close>

definition index_by :: "('v \<Rightarrow> 'k) \<Rightarrow> 'v list \<Rightarrow> 'k \<Rightarrow> 'v option" where
  "index_by f xs = fold (\<lambda>x m. m(f x \<mapsto> x)) xs Map.empty"

lemma fold_update_lookup:
  "fold (\<lambda>x m. m(f x \<mapsto> x)) xs m k =
     (case find (\<lambda>x. f x = k) (rev xs) of None \<Rightarrow> m k | Some x \<Rightarrow> Some x)"
  by (induction xs rule: rev_induct) auto

lemma index_by_Some_iff:
  "index_by f xs k = Some x \<longleftrightarrow> find (\<lambda>x. f x = k) (rev xs) = Some x"
  by (simp add: index_by_def fold_update_lookup split: option.splits)

lemma index_by_SomeD: "index_by f xs k = Some x \<Longrightarrow> x \<in> set xs \<and> f x = k"
  by (auto simp: index_by_Some_iff find_Some_iff) (metis nth_mem set_rev length_rev)

lemma dom_index_by [go_map]: "dom (index_by f xs) = f ` set xs"
proof -
  have "dom (fold (\<lambda>x m. m(f x \<mapsto> x)) xs m) = dom m \<union> f ` set xs" for m
    by (induction xs arbitrary: m) auto
  then show ?thesis by (simp add: index_by_def)
qed

lemma index_by_distinct:
  assumes "distinct (map f xs)" and "x \<in> set xs"
  shows "index_by f xs (f x) = Some x"
proof -
  obtain y where "index_by f xs (f x) = Some y"
    using assms(2) dom_index_by [of f xs] by blast
  moreover from this have "y \<in> set xs \<and> f y = f x" by (rule index_by_SomeD)
  ultimately show ?thesis using assms by (auto simp: distinct_map inj_on_def)
qed

end
