(* ===== verification/GoStrings.thy ===== *)
theory GoStrings
  imports Prelude
begin

text \<open>
  The part of Go's string library that the program uses.  A Go string is a sequence of bytes,
  and so is a HOL \<^typ>\<open>string\<close> (a \<^typ>\<open>char\<close> has eight bits), so \<open>len(s)\<close>, indexing and
  slicing are \<^const>\<open>length\<close>, \<^const>\<open>nth\<close>, \<^const>\<open>take\<close> and \<^const>\<open>drop\<close>.  A \<open>range\<close> loop
  over a string and \<open>utf8.DecodeRuneInString\<close> read runes: \<open>segments\<close> cuts a string into the
  runes that Go's decoder finds, each with its bytes, an invalid byte being one segment with
  the rune U+FFFD.

  Case mapping outside ASCII follows the Unicode tables only for Latin-1, the basic Greek and
  Cyrillic letters and the two letters whose lower case is ASCII (U+0130 and U+212A); other
  runes are left as they are.  Every comparison with an ASCII word, which is what the program
  uses case mapping for, is therefore exact.
\<close>

section \<open>Prefixes, search, slices\<close>

definition has_prefix :: "string \<Rightarrow> string \<Rightarrow> bool" where
  "has_prefix p s \<longleftrightarrow> take (length p) s = p"

definition has_suffix :: "string \<Rightarrow> string \<Rightarrow> bool" where
  "has_suffix p s \<longleftrightarrow> length p \<le> length s \<and> drop (length s - length p) s = p"

fun index_of :: "string \<Rightarrow> string \<Rightarrow> nat option" where
  "index_of p [] = (if p = [] then Some 0 else None)"
| "index_of p (c # cs) = (if has_prefix p (c # cs) then Some 0 else map_option Suc (index_of p cs))"

fun last_index :: "string \<Rightarrow> string \<Rightarrow> nat option" where
  "last_index p [] = (if p = [] then Some 0 else None)"
| "last_index p (c # cs) =
     (case last_index p cs of
        Some k \<Rightarrow> Some (Suc k)
      | None \<Rightarrow> if has_prefix p (c # cs) then Some 0 else None)"

definition contains_str :: "string \<Rightarrow> string \<Rightarrow> bool" where
  "contains_str s p \<longleftrightarrow> index_of p s \<noteq> None"

fun join_with :: "string \<Rightarrow> string list \<Rightarrow> string" where
  "join_with sep [] = []"
| "join_with sep [x] = x"
| "join_with sep (x # y # xs) = x @ sep @ join_with sep (y # xs)"

fun split_char :: "char \<Rightarrow> string \<Rightarrow> string list" where
  "split_char d [] = [[]]"
| "split_char d (c # cs) =
     (if c = d then [] # split_char d cs
      else (case split_char d cs of [] \<Rightarrow> [[c]] | x # xs \<Rightarrow> (c # x) # xs))"

lemma has_prefix_append [go_str]: "has_prefix p (p @ s)"
  by (simp add: has_prefix_def)

lemma has_prefix_iff: "has_prefix p s \<longleftrightarrow> (\<exists>r. s = p @ r)"
  by (auto simp: has_prefix_def) (metis append_take_drop_id)

lemma has_prefix_Nil [simp]: "has_prefix [] s"
  by (simp add: has_prefix_def)

lemma has_prefix_length: "has_prefix p s \<Longrightarrow> length p \<le> length s"
  by (auto simp: has_prefix_iff)

lemma index_of_Some:
  "index_of p s = Some k \<Longrightarrow> k + length p \<le> length s \<and> has_prefix p (drop k s)"
proof (induction s arbitrary: k)
  case (Cons c cs)
  then show ?case
    by (cases k) (auto split: if_splits dest: has_prefix_length)
qed (auto split: if_splits)

lemma index_of_None: "index_of p s = None \<Longrightarrow> \<not> has_prefix p (drop k s)"
proof (induction s arbitrary: k)
  case (Cons c cs)
  then show ?case by (cases k) (auto split: if_splits)
qed (auto simp: has_prefix_def split: if_splits)

lemma last_index_Some:
  "last_index p s = Some k \<Longrightarrow> k + length p \<le> length s \<and> has_prefix p (drop k s)"
proof (induction s arbitrary: k)
  case (Cons c cs)
  then show ?case
    by (cases k) (auto split: if_splits option.splits dest: has_prefix_length)
qed (auto split: if_splits)

lemma last_index_le: "last_index p s = Some k \<Longrightarrow> k \<le> length s"
  using last_index_Some by fastforce

lemma split_char_nonempty [simp]: "split_char d s \<noteq> []"
  by (induction s) (auto split: list.splits)

lemma split_char_no_sep: "x \<in> set (split_char d s) \<Longrightarrow> d \<notin> set x"
proof (induction s arbitrary: x)
  case (Cons c cs)
  then show ?case by (auto split: if_splits list.splits)
qed simp

lemma join_split [go_str]: "join_with [d] (split_char d s) = s"
proof (induction s)
  case (Cons c cs)
  obtain x xs where xs: "split_char d cs = x # xs"
    using split_char_nonempty by (meson neq_Nil_conv)
  then show ?case using Cons.IH by (cases xs) auto
qed simp

section \<open>UTF-8\<close>

definition byte :: "char \<Rightarrow> nat" where
  "byte c = of_char c"

definition rune_error :: nat where
  "rune_error = 0xFFFD"

definition max_rune :: nat where
  "max_rune = 0x10FFFF"

definition is_surrogate :: "nat \<Rightarrow> bool" where
  "is_surrogate r \<longleftrightarrow> 0xD800 \<le> r \<and> r \<le> 0xDFFF"

definition in_range :: "nat \<Rightarrow> nat \<Rightarrow> char \<Rightarrow> bool" where
  "in_range lo hi c \<longleftrightarrow> lo \<le> byte c \<and> byte c \<le> hi"

abbreviation is_cont :: "char \<Rightarrow> bool" where
  "is_cont \<equiv> in_range 0x80 0xBF"

text \<open>\<open>utf8.DecodeRuneInString\<close> on a non-empty string: the rune and the number of bytes read.\<close>

fun decode2 :: "char \<Rightarrow> string \<Rightarrow> nat \<times> nat" where
  "decode2 c0 (c1 # _) =
     (if is_cont c1 then ((byte c0 mod 32) * 64 + byte c1 mod 64, 2) else (rune_error, 1))"
| "decode2 c0 [] = (rune_error, 1)"

fun decode3 :: "nat \<Rightarrow> nat \<Rightarrow> char \<Rightarrow> string \<Rightarrow> nat \<times> nat" where
  "decode3 lo hi c0 (c1 # c2 # _) =
     (if in_range lo hi c1 \<and> is_cont c2
      then ((byte c0 mod 16) * 4096 + (byte c1 mod 64) * 64 + byte c2 mod 64, 3)
      else (rune_error, 1))"
| "decode3 lo hi c0 _ = (rune_error, 1)"

fun decode4 :: "nat \<Rightarrow> nat \<Rightarrow> char \<Rightarrow> string \<Rightarrow> nat \<times> nat" where
  "decode4 lo hi c0 (c1 # c2 # c3 # _) =
     (if in_range lo hi c1 \<and> is_cont c2 \<and> is_cont c3
      then ((byte c0 mod 8) * 262144 + (byte c1 mod 64) * 4096 + (byte c2 mod 64) * 64
            + byte c3 mod 64, 4)
      else (rune_error, 1))"
| "decode4 lo hi c0 _ = (rune_error, 1)"

fun decode_rune :: "string \<Rightarrow> nat \<times> nat" where
  "decode_rune [] = (rune_error, 0)"
| "decode_rune (c # cs) =
     (let b = byte c in
      if b < 0x80 then (b, 1)
      else if b < 0xC2 then (rune_error, 1)
      else if b < 0xE0 then decode2 c cs
      else if b = 0xE0 then decode3 0xA0 0xBF c cs
      else if b = 0xED then decode3 0x80 0x9F c cs
      else if b < 0xF0 then decode3 0x80 0xBF c cs
      else if b = 0xF0 then decode4 0x90 0xBF c cs
      else if b < 0xF4 then decode4 0x80 0xBF c cs
      else if b = 0xF4 then decode4 0x80 0x8F c cs
      else (rune_error, 1))"

text \<open>\<open>utf8.AppendRune\<close>, that is \<open>strings.Builder.WriteRune\<close>.\<close>

definition chr :: "nat \<Rightarrow> char" where
  "chr n = char_of n"

lemma byte_chr [simp]: "n < 256 \<Longrightarrow> byte (chr n) = n"
  by (simp add: byte_def chr_def)

lemma byte_less [simp]: "byte c < 256"
  by (simp add: byte_def)

lemma chr_byte [simp]: "chr (byte c) = c"
  by (simp add: byte_def chr_def)

lemma byte_eq_iff: "byte c = byte d \<longleftrightarrow> c = d"
  by (metis chr_byte)

lemma chr_zero: "chr 48 = CHR ''0''"
  by code_simp

definition encode_rune :: "nat \<Rightarrow> string" where
  "encode_rune r =
     (if r < 0x80 then [chr r]
      else if r < 0x800 then [chr (0xC0 + r div 64), chr (0x80 + r mod 64)]
      else if is_surrogate r \<or> r > max_rune then [chr 0xEF, chr 0xBF, chr 0xBD]
      else if r < 0x10000 then
        [chr (0xE0 + r div 4096), chr (0x80 + r div 64 mod 64), chr (0x80 + r mod 64)]
      else [chr (0xF0 + r div 262144), chr (0x80 + r div 4096 mod 64),
            chr (0x80 + r div 64 mod 64), chr (0x80 + r mod 64)])"

lemma decode2_size: "0 < snd (decode2 c s) \<and> snd (decode2 c s) \<le> Suc (length s)"
  by (cases "(c, s)" rule: decode2.cases) auto

lemma decode3_size: "0 < snd (decode3 lo hi c s) \<and> snd (decode3 lo hi c s) \<le> Suc (length s)"
  by (cases "(lo, hi, c, s)" rule: decode3.cases) auto

lemma decode4_size: "0 < snd (decode4 lo hi c s) \<and> snd (decode4 lo hi c s) \<le> Suc (length s)"
  by (cases "(lo, hi, c, s)" rule: decode4.cases) auto

lemma decode_rune_size:
  "s \<noteq> [] \<Longrightarrow> 0 < snd (decode_rune s) \<and> snd (decode_rune s) \<le> length s"
proof (cases s)
  case (Cons c cs)
  then show ?thesis
    using decode2_size [of c cs] decode3_size [of _ _ c cs] decode4_size [of _ _ c cs]
    by (auto simp: Let_def)
qed simp

function segments :: "string \<Rightarrow> (nat \<times> string) list" where
  "segments s =
     (if s = [] then []
      else let (r, n) = decode_rune s in (r, take n s) # segments (drop n s))"
  by pat_completeness auto
termination
proof (relation "measure length")
  fix s :: string and x r n
  assume "s \<noteq> []" "x = decode_rune s" "(r, n) = x"
  then show "(drop n s, s) \<in> measure length"
    using decode_rune_size [of s] by (metis diff_less in_measure length_drop length_greater_0_conv snd_conv)
qed simp

declare segments.simps [simp del]

lemma segments_Nil [simp]: "segments [] = []"
  by (simp add: segments.simps)

lemma segments_Cons:
  "s \<noteq> [] \<Longrightarrow> segments s =
     (fst (decode_rune s), take (snd (decode_rune s)) s) # segments (drop (snd (decode_rune s)) s)"
  by (subst segments.simps) (simp add: case_prod_beta)

lemma segments_induct [case_names Nil Cons]:
  assumes "P []"
    and "\<And>s. s \<noteq> [] \<Longrightarrow> P (drop (snd (decode_rune s)) s) \<Longrightarrow> P s"
  shows "P s"
proof (induction "length s" arbitrary: s rule: less_induct)
  case less
  show ?case
  proof (cases "s = []")
    case False
    have "length (drop (snd (decode_rune s)) s) < length s"
      using decode_rune_size [OF False] False by simp
    then show ?thesis using less assms(2) False by blast
  qed (simp add: assms(1))
qed

definition runes_of :: "string \<Rightarrow> nat list" where
  "runes_of s = map fst (segments s)"

definition string_of_runes :: "nat list \<Rightarrow> string" where
  "string_of_runes rs = concat (map encode_rune rs)"

lemma concat_segments [go_str]: "concat (map snd (segments s)) = s"
  by (induction s rule: segments_induct) (simp_all add: segments_Cons)

text \<open>The Unicode scalar values, which are what the decoder returns.\<close>

definition scalar :: "nat \<Rightarrow> bool" where
  "scalar r \<longleftrightarrow> r \<le> max_rune \<and> \<not> is_surrogate r"

lemma cont_mod [simp]: "x < 64 \<Longrightarrow> (0x80 + x) mod 64 = x" for x :: nat
  by (subst mod_add_left_eq [symmetric]) simp
lemma lead2_mod [simp]: "x < 32 \<Longrightarrow> (0xC0 + x) mod 32 = x" for x :: nat
  by (subst mod_add_left_eq [symmetric]) simp
lemma lead3_mod [simp]: "x < 16 \<Longrightarrow> (0xE0 + x) mod 16 = x" for x :: nat
  by (subst mod_add_left_eq [symmetric]) simp
lemma lead4_mod [simp]: "x < 8 \<Longrightarrow> (0xF0 + x) mod 8 = x" for x :: nat
  by (subst mod_add_left_eq [symmetric]) simp

text \<open>Decoding undoes encoding on scalar values, and every decoded rune is one.\<close>

lemma decode_encode_abc:
  fixes a b c :: nat
  assumes "a < 16" "b < 64" "c < 64" "a = 0 \<Longrightarrow> 32 \<le> b" "a = 13 \<Longrightarrow> b < 32"
  shows "decode_rune ([chr (0xE0 + a), chr (0x80 + b), chr (0x80 + c)] @ s) = (a * 4096 + b * 64 + c, 3)"
  using assms by (auto simp: in_range_def Let_def)

lemma decode_encode_abcd:
  fixes a b c d :: nat
  assumes "a \<le> 4" "b < 64" "c < 64" "d < 64" "a = 0 \<Longrightarrow> 16 \<le> b" "a = 4 \<Longrightarrow> b < 16"
  shows "decode_rune ([chr (0xF0 + a), chr (0x80 + b), chr (0x80 + c), chr (0x80 + d)] @ s)
         = (a * 262144 + b * 4096 + c * 64 + d, 4)"
  using assms by (auto simp: in_range_def Let_def)

lemma div_64: "r div 4096 = r div 64 div 64" "r div 262144 = r div 64 div 64 div 64" for r :: nat
  by (simp_all add: div_mult2_eq [symmetric])

lemma decode_encode:
  assumes "scalar r"
  shows "decode_rune (encode_rune r @ s) = (r, length (encode_rune r))"
proof -
  define c where "c = r mod 64"
  define q where "q = r div 64"
  have r: "r = q * 64 + c" "c < 64" by (simp_all add: c_def q_def)
  consider (b1) "r < 0x80" | (b2) "0x80 \<le> r" "r < 0x800" | (b3) "0x800 \<le> r" "r < 0x10000"
    | (b4) "0x10000 \<le> r" "r \<le> 0x10FFFF"
    using assms by (fastforce simp: scalar_def max_rune_def)
  then show ?thesis
  proof cases
    case b1
    then show ?thesis by (simp add: encode_rune_def)
  next
    case b2
    then have "q < 32" "2 \<le> q" using r by auto
    then show ?thesis using b2 r
      by (simp add: encode_rune_def in_range_def Let_def flip: c_def q_def)
  next
    case b3
    define a b where "a = q div 64" and "b = q mod 64"
    have q: "q = a * 64 + b" "b < 64" by (simp_all add: a_def b_def)
    have "encode_rune r = [chr (0xE0 + a), chr (0x80 + b), chr (0x80 + c)]"
      using b3 assms by (simp add: encode_rune_def scalar_def max_rune_def div_64 a_def b_def q_def c_def)
    moreover have "a < 16" "a = 0 \<Longrightarrow> 32 \<le> b" "a = 13 \<Longrightarrow> b < 32"
      using b3 r q assms by (auto simp: scalar_def is_surrogate_def)
    ultimately show ?thesis
      using decode_encode_abc [of a b c s] q r by simp
  next
    case b4
    define b e where "b = q mod 64" and "e = q div 64 mod 64"
    define a where "a = q div 64 div 64"
    have q: "q = (a * 64 + e) * 64 + b" "b < 64" "e < 64" by (simp_all add: a_def b_def e_def)
    have "encode_rune r = [chr (0xF0 + a), chr (0x80 + e), chr (0x80 + b), chr (0x80 + c)]"
      using b4 assms
      by (simp add: encode_rune_def scalar_def max_rune_def div_64 a_def b_def e_def q_def c_def)
    moreover have "a \<le> 4" "a = 0 \<Longrightarrow> 16 \<le> e" "a = 4 \<Longrightarrow> e < 16"
      using b4 r q by auto
    ultimately show ?thesis
      using decode_encode_abcd [of a e b c s] q r by simp
  qed
qed

lemma decode2_bound: "byte c < 256 \<Longrightarrow> fst (decode2 c s) < 0x800 \<or> fst (decode2 c s) = rune_error"
proof (cases "(c, s)" rule: decode2.cases)
  case (1 c0 c1 t)
  have "byte c0 mod 32 < 32" "byte c1 mod 64 < 64" by simp_all
  then have "(byte c0 mod 32) * 64 + byte c1 mod 64 < 0x800" by linarith
  with 1 show ?thesis by auto
qed auto

lemma scalar_rune_error [simp]: "scalar rune_error"
  by (simp add: scalar_def rune_error_def max_rune_def is_surrogate_def)

lemma decode3_scalar:
  assumes "lo = 0x80 \<and> hi = 0xBF \<and> byte c \<noteq> 0xED \<or> hi \<le> 0x9F \<and> 0x80 \<le> lo \<or> byte c = 0xE0 \<and> lo = 0xA0 \<and> hi = 0xBF"
    "byte c \<ge> 0xE0" "byte c < 0xF0"
  shows "scalar (fst (decode3 lo hi c s))"
proof (cases "(lo, hi, c, s)" rule: decode3.cases)
  case (1 l h c0 c1 c2 t)
  show ?thesis
  proof (cases "in_range l h c1 \<and> is_cont c2")
    case True
    define a x z where "a = byte c0 - 0xE0" and "x = byte c1 - 0x80" and "z = byte c2 - 0x80"
    have "0x80 \<le> byte c1" "byte c1 \<le> 0xBF" "0x80 \<le> byte c2" "byte c2 \<le> 0xBF"
      using True assms 1 by (auto simp: in_range_def)
    then have b: "byte c0 = 0xE0 + a" "byte c1 = 0x80 + x" "byte c2 = 0x80 + z" "x < 64" "z < 64" "a < 16"
      "a = 13 \<Longrightarrow> x < 32"
      using assms 1 True by (auto simp: a_def x_def z_def in_range_def)
    have "fst (decode3 l h c0 (c1 # c2 # t)) = a * 4096 + x * 64 + z"
      using True b by simp
    moreover have "a * 4096 + x * 64 + z < 0x10000" using b by linarith
    moreover have "\<not> is_surrogate (a * 4096 + x * 64 + z)"
    proof (cases "a = 13")
      case True
      then show ?thesis using b by (simp add: is_surrogate_def)
    next
      case False
      then have "a \<le> 12 \<or> 14 \<le> a" by linarith
      then show ?thesis using b by (auto simp: is_surrogate_def)
    qed
    ultimately show ?thesis using 1 by (simp add: scalar_def max_rune_def)
  qed (use 1 in auto)
qed auto

lemma decode4_scalar:
  assumes "lo \<ge> 0x80" "hi \<le> 0xBF" "byte c = 0xF0 \<and> lo = 0x90 \<or> byte c = 0xF4 \<and> hi = 0x8F \<or> 0xF1 \<le> byte c \<and> byte c < 0xF4"
  shows "scalar (fst (decode4 lo hi c s))"
proof (cases "(lo, hi, c, s)" rule: decode4.cases)
  case (1 l h c0 c1 c2 c3 t)
  show ?thesis
  proof (cases "in_range l h c1 \<and> is_cont c2 \<and> is_cont c3")
    case True
    define a x y z where "a = byte c0 - 0xF0" and "x = byte c1 - 0x80" and "y = byte c2 - 0x80" and "z = byte c3 - 0x80"
    have b: "byte c0 = 0xF0 + a" "byte c1 = 0x80 + x" "byte c2 = 0x80 + y" "byte c3 = 0x80 + z"
      "x < 64" "y < 64" "z < 64" "a \<le> 4" "a = 4 \<Longrightarrow> x < 16" "a = 0 \<Longrightarrow> 16 \<le> x"
      using assms 1 True by (auto simp: a_def x_def y_def z_def in_range_def)
    have "fst (decode4 l h c0 (c1 # c2 # c3 # t)) = a * 262144 + x * 4096 + y * 64 + z"
      using True b by simp
    moreover have "a * 262144 + x * 4096 + y * 64 + z \<le> 0x10FFFF"
    proof (cases "a = 4")
      case False
      then have "a \<le> 3" using b by linarith
      then show ?thesis using b by linarith
    qed (use b in linarith)
    moreover have "\<not> is_surrogate (a * 262144 + x * 4096 + y * 64 + z)"
      using b by (auto simp: is_surrogate_def)
    ultimately show ?thesis using 1 by (simp add: scalar_def max_rune_def)
  qed (use 1 in auto)
qed auto

lemma decode_scalar: "scalar (fst (decode_rune s))"
proof (cases s)
  case (Cons c cs)
  have "byte c < 0x80 \<Longrightarrow> scalar (byte c)" by (simp add: scalar_def max_rune_def is_surrogate_def)
  moreover have "scalar r" if "r < 0x800" for r
    using that by (simp add: scalar_def max_rune_def is_surrogate_def)
  ultimately show ?thesis
    using Cons decode2_bound [of c cs]
    by (auto simp: Let_def decode3_scalar decode4_scalar)
qed simp

lemma encode_rune_not_Nil [simp]: "encode_rune r \<noteq> []"
  by (simp add: encode_rune_def)

lemma segments_encode:
  "scalar r \<Longrightarrow> segments (encode_rune r @ s) = (r, encode_rune r) # segments s"
  by (subst segments_Cons) (simp_all add: decode_encode)

lemma runes_of_encode [go_str]: "scalar r \<Longrightarrow> runes_of (encode_rune r @ s) = r # runes_of s"
  by (simp add: runes_of_def segments_encode)

lemma runes_of_string_append:
  "\<forall>r \<in> set rs. scalar r \<Longrightarrow> runes_of (string_of_runes rs @ s) = rs @ runes_of s"
  by (induction rs) (simp_all add: string_of_runes_def runes_of_encode)

lemma runes_of_Nil [simp]: "runes_of [] = []"
  by (simp add: runes_of_def)

lemma runes_of_string_of_runes [go_str]:
  "\<forall>r \<in> set rs. scalar r \<Longrightarrow> runes_of (string_of_runes rs) = rs"
  using runes_of_string_append [of rs "[]"] by simp

lemma scalar_runes_of: "r \<in> set (runes_of s) \<Longrightarrow> scalar r"
  by (induction s rule: segments_induct)
    (auto simp: runes_of_def segments_Cons decode_scalar)

lemma segments_valid:
  assumes "(r, bs) \<in> set (segments s)"
  shows "scalar r" and "bs \<noteq> []"
proof -
  have "\<forall>p \<in> set (segments s). scalar (fst p) \<and> snd p \<noteq> []"
  proof (induction s rule: segments_induct)
    case (Cons s)
    then have "take (snd (decode_rune s)) s \<noteq> []" using decode_rune_size [of s] by auto
    with Cons show ?case by (simp add: segments_Cons decode_scalar)
  qed simp
  with assms show "scalar r" and "bs \<noteq> []" by fastforce+
qed

text \<open>A segment that is one invalid byte.\<close>

definition is_invalid :: "nat \<times> string \<Rightarrow> bool" where
  "is_invalid p \<longleftrightarrow> fst p = rune_error \<and> length (snd p) = 1"

text \<open>A segment that is not an invalid byte is the encoding of its rune.\<close>

lemma byte_offset: "m \<le> byte c \<Longrightarrow> \<exists>k. byte c = m + k \<and> c = chr (m + k)" for m :: nat
  by (metis chr_byte le_Suc_ex)

lemma decode2_encode:
  assumes "0xC2 \<le> byte c0" "byte c0 < 0xE0" "decode2 c0 s = (r, n)" "n \<noteq> 1"
  shows "take n (c0 # s) = encode_rune r"
proof -
  obtain c1 t where s: "s = c1 # t" and c1: "is_cont c1" and n: "n = 2"
      and r: "r = (byte c0 mod 32) * 64 + byte c1 mod 64"
    using assms(3,4) by (cases s) (auto split: if_splits)
  obtain a where a: "byte c0 = 0xC0 + a" "c0 = chr (0xC0 + a)" using byte_offset [of "0xC0" c0] assms(1) by auto
  obtain b where b: "byte c1 = 0x80 + b" "c1 = chr (0x80 + b)" using byte_offset [of "0x80" c1] c1 by (auto simp: in_range_def)
  have "2 \<le> a" "a < 32" "b < 64" using assms(1,2) a(1) b(1) c1 by (auto simp: in_range_def)
  then have "r = a * 64 + b" "0x80 \<le> r" "r < 0x800" using r a(1) b(1) by simp_all
  then show ?thesis using s n a(2) b(2) \<open>b < 64\<close> by (simp add: encode_rune_def)
qed

lemma decode3_encode:
  assumes "0xE0 \<le> byte c0" "byte c0 < 0xF0" "decode3 lo hi c0 s = (r, n)" "n \<noteq> 1"
    and "0x80 \<le> lo" "hi \<le> 0xBF" "byte c0 = 0xE0 \<Longrightarrow> lo = 0xA0" "byte c0 = 0xED \<Longrightarrow> hi = 0x9F"
  shows "take n (c0 # s) = encode_rune r"
proof -
  obtain c1 c2 t where s: "s = c1 # c2 # t" and c1: "in_range lo hi c1" and c2: "is_cont c2" and n: "n = 3"
      and r: "r = (byte c0 mod 16) * 4096 + (byte c1 mod 64) * 64 + byte c2 mod 64"
    using assms(3,4) by (cases "(lo, hi, c0, s)" rule: decode3.cases) (auto split: if_splits)
  obtain a where a: "byte c0 = 0xE0 + a" "c0 = chr (0xE0 + a)" using byte_offset [of "0xE0" c0] assms(1) by auto
  obtain b where b: "byte c1 = 0x80 + b" "c1 = chr (0x80 + b)"
    using byte_offset [of "0x80" c1] c1 assms(5) by (auto simp: in_range_def)
  obtain d where d: "byte c2 = 0x80 + d" "c2 = chr (0x80 + d)" using byte_offset [of "0x80" c2] c2 by (auto simp: in_range_def)
  have small: "a < 16" "b < 64" "d < 64" using assms(2,6) a(1) b(1) d(1) c1 c2 by (auto simp: in_range_def)
  have edge: "a = 0 \<Longrightarrow> 32 \<le> b" "a = 13 \<Longrightarrow> b < 32" using assms(7,8) a(1) b(1) c1 by (auto simp: in_range_def)
  have r': "r = a * 4096 + b * 64 + d" using r a(1) b(1) d(1) small by simp
  define q where "q = a * 64 + b"
  have "r = q * 64 + d" using r' by (simp add: q_def)
  then have "r div 64 = q" "r mod 64 = d" using small by simp_all
  moreover have "q div 64 = a" "q mod 64 = b" using small by (simp_all add: q_def)
  ultimately have parts: "r div 4096 = a" "r div 64 mod 64 = b" "r mod 64 = d" by (simp_all add: div_64)
  have "0x800 \<le> r" using r' edge(1) by (cases "a = 0") simp_all
  moreover have "r < 0x10000" using r' small by simp
  moreover have "\<not> is_surrogate r"
    using r' edge(2) small unfolding is_surrogate_def by (cases a "13 :: nat" rule: linorder_cases) simp_all
  ultimately show ?thesis using s n a(2) b(2) d(2) by (simp add: encode_rune_def max_rune_def parts)
qed

lemma decode4_encode:
  assumes "0xF0 \<le> byte c0" "byte c0 \<le> 0xF4" "decode4 lo hi c0 s = (r, n)" "n \<noteq> 1"
    and "0x80 \<le> lo" "hi \<le> 0xBF" "byte c0 = 0xF0 \<Longrightarrow> lo = 0x90" "byte c0 = 0xF4 \<Longrightarrow> hi = 0x8F"
  shows "take n (c0 # s) = encode_rune r"
proof -
  obtain c1 c2 c3 t where s: "s = c1 # c2 # c3 # t" and c1: "in_range lo hi c1" and c2: "is_cont c2" "is_cont c3" and n: "n = 4"
      and r: "r = (byte c0 mod 8) * 262144 + (byte c1 mod 64) * 4096 + (byte c2 mod 64) * 64 + byte c3 mod 64"
    using assms(3,4) by (cases "(lo, hi, c0, s)" rule: decode4.cases) (auto split: if_splits)
  obtain a where a: "byte c0 = 0xF0 + a" "c0 = chr (0xF0 + a)" using byte_offset [of "0xF0" c0] assms(1) by auto
  obtain e where e: "byte c1 = 0x80 + e" "c1 = chr (0x80 + e)"
    using byte_offset [of "0x80" c1] c1 assms(5) by (auto simp: in_range_def)
  obtain b where b: "byte c2 = 0x80 + b" "c2 = chr (0x80 + b)" using byte_offset [of "0x80" c2] c2 by (auto simp: in_range_def)
  obtain d where d: "byte c3 = 0x80 + d" "c3 = chr (0x80 + d)" using byte_offset [of "0x80" c3] c2 by (auto simp: in_range_def)
  have small: "a \<le> 4" "e < 64" "b < 64" "d < 64" using assms(2,6) a(1) b(1) d(1) e(1) c1 c2 by (auto simp: in_range_def)
  have edge: "a = 0 \<Longrightarrow> 16 \<le> e" "a = 4 \<Longrightarrow> e < 16" using assms(7,8) a(1) e(1) c1 by (auto simp: in_range_def)
  have r': "r = a * 262144 + e * 4096 + b * 64 + d" using r a(1) b(1) d(1) e(1) small by simp
  define p where "p = a * 64 + e"
  define q where "q = p * 64 + b"
  have "r = q * 64 + d" using r' by (simp add: p_def q_def)
  then have "r div 64 = q" "r mod 64 = d" using small by simp_all
  moreover have "q div 64 = p" "q mod 64 = b" using small by (simp_all add: q_def)
  moreover have "p div 64 = a" "p mod 64 = e" using small by (simp_all add: p_def)
  ultimately have parts: "r div 262144 = a" "r div 4096 mod 64 = e" "r div 64 mod 64 = b" "r mod 64 = d"
    by (simp_all add: div_64)
  have "0x10000 \<le> r" using r' edge(1) by (cases "a = 0") simp_all
  moreover have "r \<le> 0x10FFFF" using r' small edge(2) by (cases "a = 4") simp_all
  ultimately show ?thesis using s n a(2) b(2) d(2) e(2) by (simp add: encode_rune_def max_rune_def is_surrogate_def parts)
qed

lemma encode_decode:
  assumes "s \<noteq> []" "decode_rune s = (r, n)" "\<not> (r = rune_error \<and> n = 1)"
  shows "take n s = encode_rune r"
proof -
  obtain c cs where s: "s = c # cs" using assms(1) by (cases s) auto
  have err2: "decode2 c cs = (r, 1) \<Longrightarrow> r = rune_error" by (cases "(c, cs)" rule: decode2.cases) (auto split: if_splits)
  have err3: "decode3 lo hi c cs = (r, 1) \<Longrightarrow> r = rune_error" for lo hi
    by (cases "(lo, hi, c, cs)" rule: decode3.cases) (auto split: if_splits)
  have err4: "decode4 lo hi c cs = (r, 1) \<Longrightarrow> r = rune_error" for lo hi
    by (cases "(lo, hi, c, cs)" rule: decode4.cases) (auto split: if_splits)
  consider "byte c < 0x80" "r = byte c" "n = 1" | "r = rune_error" "n = 1"
    | "0xC2 \<le> byte c" "byte c < 0xE0" "decode2 c cs = (r, n)"
    | lo hi where "0xE0 \<le> byte c" "byte c < 0xF0" "decode3 lo hi c cs = (r, n)" "0x80 \<le> lo" "hi \<le> 0xBF"
        "byte c = 0xE0 \<longrightarrow> lo = 0xA0" "byte c = 0xED \<longrightarrow> hi = 0x9F"
    | lo hi where "0xF0 \<le> byte c" "byte c \<le> 0xF4" "decode4 lo hi c cs = (r, n)" "0x80 \<le> lo" "hi \<le> 0xBF"
        "byte c = 0xF0 \<longrightarrow> lo = 0x90" "byte c = 0xF4 \<longrightarrow> hi = 0x8F"
    using assms(2) unfolding s
    by (simp add: Let_def not_less split: if_splits)
  then show ?thesis
  proof cases
    case 1
    then show ?thesis by (simp add: s encode_rune_def)
  next
    case 3
    then show ?thesis using assms(3) err2 decode2_encode unfolding s by metis
  next
    case (4 lo hi)
    then have "n \<noteq> 1" using assms(3) err3 [of lo hi] by auto
    then show ?thesis unfolding s by (rule decode3_encode [OF 4(1-3) _ 4(4,5)]) (use 4 in simp_all)
  next
    case (5 lo hi)
    then have "n \<noteq> 1" using assms(3) err4 [of lo hi] by auto
    then show ?thesis unfolding s by (rule decode4_encode [OF 5(1-3) _ 5(4,5)]) (use 5 in simp_all)
  qed (use assms(3) in simp)
qed

lemma segment_encode: "p \<in> set (segments s) \<Longrightarrow> \<not> is_invalid p \<Longrightarrow> snd p = encode_rune (fst p)"
proof (induction s rule: segments_induct)
  case (Cons s)
  obtain r n where d: "decode_rune s = (r, n)" by fastforce
  then have "p = (r, take n s) \<or> p \<in> set (segments (drop n s))" using Cons(1,3) by (simp add: segments_Cons)
  moreover have "length (take n s) = n" using decode_rune_size [OF Cons(1)] d by simp
  moreover have "is_invalid (r, take n s) \<longleftrightarrow> r = rune_error \<and> n = 1"
    using \<open>length (take n s) = n\<close> by (simp add: is_invalid_def)
  ultimately show ?case
    using Cons.IH Cons.prems(2) encode_decode [OF Cons(1) d] by (metis d fst_conv snd_conv)
qed simp

section \<open>Trimming\<close>

function trim_left :: "string list \<Rightarrow> string \<Rightarrow> string" where
  "trim_left encs s =
     (case find (\<lambda>p. p \<noteq> [] \<and> has_prefix p s) encs of
        None \<Rightarrow> s
      | Some p \<Rightarrow> trim_left encs (drop (length p) s))"
  by pat_completeness auto
termination
proof (relation "measure (\<lambda>(encs, s). length s)")
  fix encs s p
  assume "find (\<lambda>p. p \<noteq> [] \<and> has_prefix p s) encs = Some p"
  then have "p \<noteq> []" "has_prefix p s" by (auto simp: find_Some_iff)
  then show "((encs, drop (length p) s), (encs, s)) \<in> measure (\<lambda>(encs, s). length s)"
    using has_prefix_length [of p s] by (cases p) auto
qed simp

declare trim_left.simps [simp del]

definition trimmed_left :: "string list \<Rightarrow> string \<Rightarrow> bool" where
  "trimmed_left encs s \<longleftrightarrow> (\<forall>p \<in> set encs. p \<noteq> [] \<longrightarrow> \<not> has_prefix p s)"

definition trim_right :: "string list \<Rightarrow> string \<Rightarrow> string" where
  "trim_right encs s = rev (trim_left (map rev encs) (rev s))"

definition trimmed_right :: "string list \<Rightarrow> string \<Rightarrow> bool" where
  "trimmed_right encs s \<longleftrightarrow> trimmed_left (map rev encs) (rev s)"

text \<open>The UTF-8 encodings of the runes for which \<open>unicode.IsSpace\<close> holds.\<close>

definition space_encs :: "string list" where
  "space_encs =
     [[CHR 0x09], [CHR 0x0A], [CHR 0x0B], [CHR 0x0C], [CHR 0x0D], [CHR 0x20],
      [CHR 0xC2, CHR 0x85], [CHR 0xC2, CHR 0xA0], [CHR 0xE1, CHR 0x9A, CHR 0x80],
      [CHR 0xE2, CHR 0x80, CHR 0x80], [CHR 0xE2, CHR 0x80, CHR 0x81],
      [CHR 0xE2, CHR 0x80, CHR 0x82], [CHR 0xE2, CHR 0x80, CHR 0x83],
      [CHR 0xE2, CHR 0x80, CHR 0x84], [CHR 0xE2, CHR 0x80, CHR 0x85],
      [CHR 0xE2, CHR 0x80, CHR 0x86], [CHR 0xE2, CHR 0x80, CHR 0x87],
      [CHR 0xE2, CHR 0x80, CHR 0x88], [CHR 0xE2, CHR 0x80, CHR 0x89],
      [CHR 0xE2, CHR 0x80, CHR 0x8A], [CHR 0xE2, CHR 0x80, CHR 0xA8],
      [CHR 0xE2, CHR 0x80, CHR 0xA9], [CHR 0xE2, CHR 0x80, CHR 0xAF],
      [CHR 0xE2, CHR 0x81, CHR 0x9F], [CHR 0xE3, CHR 0x80, CHR 0x80]]"

definition trim_space :: "string \<Rightarrow> string" where
  "trim_space s = trim_right space_encs (trim_left space_encs s)"

definition is_blank :: "string \<Rightarrow> bool" where
  "is_blank s \<longleftrightarrow> trim_space s = []"

lemma trim_left_trimmed: "trimmed_left encs (trim_left encs s)"
proof (induction encs s rule: trim_left.induct)
  case (1 encs s)
  show ?case
  proof (cases "find (\<lambda>p. p \<noteq> [] \<and> has_prefix p s) encs")
    case None
    then have "trim_left encs s = s" by (simp add: trim_left.simps [of encs s])
    with None show ?thesis by (auto simp: trimmed_left_def find_None_iff)
  next
    case (Some p)
    with 1 show ?thesis by (simp add: trim_left.simps [of encs s])
  qed
qed

lemma trim_left_id: "trimmed_left encs s \<Longrightarrow> trim_left encs s = s"
  by (subst trim_left.simps) (auto simp: trimmed_left_def find_Some_iff split: option.splits)

lemma trim_left_suffix: "\<exists>a. s = a @ trim_left encs s"
proof (induction encs s rule: trim_left.induct)
  case (1 encs s)
  show ?case
  proof (cases "find (\<lambda>p. p \<noteq> [] \<and> has_prefix p s) encs")
    case None
    then show ?thesis by (simp add: trim_left.simps [of encs s])
  next
    case (Some p)
    then obtain a where "drop (length p) s = a @ trim_left encs s"
      using 1 by (auto simp: trim_left.simps [of encs s])
    then have "s = (take (length p) s @ a) @ trim_left encs s"
      by (metis append.assoc append_take_drop_id)
    then show ?thesis by blast
  qed
qed

lemma trim_right_trimmed: "trimmed_right encs (trim_right encs s)"
  by (simp add: trimmed_right_def trim_right_def trim_left_trimmed)

lemma trim_right_id: "trimmed_right encs s \<Longrightarrow> trim_right encs s = s"
  by (simp add: trimmed_right_def trim_right_def trim_left_id)

lemma trim_right_prefix: "\<exists>b. s = trim_right encs s @ b"
proof -
  obtain a where "rev s = a @ trim_left (map rev encs) (rev s)" using trim_left_suffix by blast
  then have "s = trim_right encs s @ rev a" by (metis rev_append rev_rev_ident trim_right_def)
  then show ?thesis by blast
qed

lemma trimmed_left_prefix: "trimmed_left encs (u @ b) \<Longrightarrow> trimmed_left encs u"
  by (auto simp: trimmed_left_def has_prefix_iff)

lemma trim_space_trimmed:
  "trimmed_left space_encs (trim_space s) \<and> trimmed_right space_encs (trim_space s)"
proof -
  obtain b where "trim_left space_encs s = trim_space s @ b"
    unfolding trim_space_def using trim_right_prefix by blast
  then have "trimmed_left space_encs (trim_space s)"
    by (metis trim_left_trimmed trimmed_left_prefix)
  then show ?thesis by (simp add: trim_space_def trim_right_trimmed)
qed

lemma trim_space_fixed:
  "trimmed_left space_encs s \<Longrightarrow> trimmed_right space_encs s \<Longrightarrow> trim_space s = s"
  by (simp add: trim_space_def trim_left_id trim_right_id)

lemma trim_space_idem [go_str]: "trim_space (trim_space s) = trim_space s"
  using trim_space_trimmed trim_space_fixed by blast

lemma trim_space_infix: "\<exists>a b. s = a @ trim_space s @ b"
  unfolding trim_space_def using trim_left_suffix [of s space_encs] trim_right_prefix
  by metis

lemma trim_space_Nil [simp]: "trim_space [] = []"
  using trim_space_infix [of "[]"] by simp

lemma set_trim_space: "set (trim_space s) \<subseteq> set s"
  using trim_space_infix [of s] by (metis Un_upper1 Un_upper2 set_append subset_trans)

section \<open>Case mapping\<close>

definition lower_rune :: "nat \<Rightarrow> nat" where
  "lower_rune r =
     (if 0x41 \<le> r \<and> r \<le> 0x5A then r + 32
      else if r = 0x130 then 0x69
      else if r = 0x212A then 0x6B
      else if 0xC0 \<le> r \<and> r \<le> 0xDE \<and> r \<noteq> 0xD7 then r + 32
      else if 0x391 \<le> r \<and> r \<le> 0x3A9 \<and> r \<noteq> 0x3A2 then r + 32
      else if 0x410 \<le> r \<and> r \<le> 0x42F then r + 32
      else if 0x400 \<le> r \<and> r \<le> 0x40F then r + 80
      else r)"

definition to_lower :: "string \<Rightarrow> string" where
  "to_lower s = string_of_runes (map lower_rune (runes_of s))"

text \<open>Simple folding, as in \<open>strings.EqualFold\<close>: the long s folds with s, the Kelvin sign with
  k, and U+0130 with itself only.\<close>

definition fold_rune :: "nat \<Rightarrow> nat" where
  "fold_rune r = (if r = 0x17F then 0x73 else if r = 0x130 then r else lower_rune r)"

definition equal_fold :: "string \<Rightarrow> string \<Rightarrow> bool" where
  "equal_fold s t \<longleftrightarrow> map fold_rune (runes_of s) = map fold_rune (runes_of t)"

lemma equal_fold_refl [simp]: "equal_fold s s"
  by (simp add: equal_fold_def)

lemma equal_fold_sym: "equal_fold s t \<longleftrightarrow> equal_fold t s"
  by (auto simp: equal_fold_def)

lemma equal_fold_trans: "equal_fold s t \<Longrightarrow> equal_fold t u \<Longrightarrow> equal_fold s u"
  by (simp add: equal_fold_def)

section \<open>Numbers and quoting\<close>

fun digits_of :: "nat \<Rightarrow> string" where
  "digits_of n = (if n < 10 then [chr (48 + n)] else digits_of (n div 10) @ [chr (48 + n mod 10)])"

declare digits_of.simps [simp del]

definition fmt_d :: "int \<Rightarrow> string" where
  "fmt_d i = (if i < 0 then ''-'' @ digits_of (nat (- i)) else digits_of (nat i))"

definition digit_val :: "char \<Rightarrow> nat" where
  "digit_val c = byte c - 48"

definition nat_of_digits :: "string \<Rightarrow> nat" where
  "nat_of_digits s = foldl (\<lambda>n c. 10 * n + digit_val c) 0 s"

definition is_digit :: "char \<Rightarrow> bool" where
  "is_digit c \<longleftrightarrow> 48 \<le> byte c \<and> byte c \<le> 57"

lemma digits_of_digits: "c \<in> set (digits_of n) \<Longrightarrow> is_digit c"
proof (induction n arbitrary: c rule: digits_of.induct)
  case (1 n)
  then show ?case
    by (cases "n < 10") (auto simp: digits_of.simps [of n] is_digit_def)
qed

lemma digits_of_not_Nil [simp]: "digits_of n \<noteq> []"
  by (subst digits_of.simps) simp

lemma nat_of_digits_digits_of [go_str]: "nat_of_digits (digits_of n) = n"
proof (induction n rule: digits_of.induct)
  case (1 n)
  then show ?case
    by (cases "n < 10") (simp_all add: digits_of.simps [of n] nat_of_digits_def digit_val_def)
qed

lemma digits_of_inj: "digits_of m = digits_of n \<Longrightarrow> m = n"
  by (metis nat_of_digits_digits_of)

lemma length_digits_of: "n < 10 ^ k \<Longrightarrow> 0 < k \<Longrightarrow> length (digits_of n) \<le> k"
proof (induction n arbitrary: k rule: digits_of.induct)
  case (1 n)
  show ?case
  proof (cases "n < 10")
    case True
    then show ?thesis using 1 by (simp add: digits_of.simps [of n])
  next
    case False
    then obtain j where k: "k = Suc j" "0 < j"
      using "1.prems" by (cases k; cases "k - 1") auto
    then have "n div 10 < 10 ^ j" using "1.prems" by (simp add: less_mult_imp_div_less mult.commute)
    then show ?thesis using 1 False k by (simp add: digits_of.simps [of n])
  qed
qed

definition hex_digit :: "nat \<Rightarrow> char" where
  "hex_digit n = (if n < 10 then chr (48 + n) else chr (87 + n))"

definition hex_byte :: "nat \<Rightarrow> string" where
  "hex_byte n = [hex_digit (n div 16), hex_digit (n mod 16)]"

text \<open>\<open>%x\<close> on bytes, and \<open>hex.EncodeToString\<close>.\<close>

definition hex_string :: "string \<Rightarrow> string" where
  "hex_string s = concat (map (\<lambda>c. hex_byte (byte c)) s)"

text \<open>\<open>%q\<close>, that is \<open>strconv.Quote\<close>; every rune from U+00A0 on is taken to be printable.\<close>

definition quote_segment :: "nat \<times> string \<Rightarrow> string" where
  "quote_segment p =
     (let r = fst p in
      if is_invalid p then [chr 92, CHR ''x''] @ hex_byte (byte (hd (snd p)))
      else if r = 34 \<or> r = 92 then [chr 92, chr r]
      else if r = 7 then [chr 92, CHR ''a''] else if r = 8 then [chr 92, CHR ''b'']
      else if r = 12 then [chr 92, CHR ''f''] else if r = 10 then [chr 92, CHR ''n'']
      else if r = 13 then [chr 92, CHR ''r''] else if r = 9 then [chr 92, CHR ''t'']
      else if r = 11 then [chr 92, CHR ''v'']
      else if r < 32 \<or> r = 127 then [chr 92, CHR ''x''] @ hex_byte r
      else if 128 \<le> r \<and> r < 160 then [chr 92, CHR ''u'', CHR ''0'', CHR ''0''] @ hex_byte r
      else snd p)"

definition go_quote :: "string \<Rightarrow> string" where
  "go_quote s = [chr 34] @ concat (map quote_segment (segments s)) @ [chr 34]"

text \<open>\<open>%f\<close>: six decimals, rounded half to even.\<close>

definition round_even :: "rat \<Rightarrow> nat" where
  "round_even q =
     (let n = nat \<lfloor>q\<rfloor>; r = q - of_nat n in
      if r > 1 / 2 \<or> (r = 1 / 2 \<and> odd n) then Suc n else n)"

definition pad6 :: "nat \<Rightarrow> string" where
  "pad6 n = (let d = digits_of n in replicate (6 - length d) (CHR ''0'') @ d)"

definition fmt_f :: "rat \<Rightarrow> string" where
  "fmt_f q =
     (let n = round_even (\<bar>q\<bar> * 1000000) in
      (if q < 0 then ''-'' else []) @ digits_of (n div 1000000) @ ''.'' @ pad6 (n mod 1000000))"

text \<open>The rune U+2026 (horizontal ellipsis) in UTF-8.\<close>

definition ellipsis :: string where
  "ellipsis = [CHR 0xE2, CHR 0x80, CHR 0xA6]"

section \<open>Searching for a character\<close>

lemma index_of_char: "c \<notin> set s \<Longrightarrow> index_of [c] (s @ c # r) = Some (length s)"
  by (induction s) (auto simp: has_prefix_def)

lemma last_index_absent: "c \<notin> set s \<Longrightarrow> last_index (c # p) s = None"
  by (induction s) (auto simp: has_prefix_def)

lemma last_index_char: "c \<notin> set r \<Longrightarrow> last_index [c] (s @ c # r) = Some (length s)"
  by (induction s) (auto simp: has_prefix_def last_index_absent)

lemma last_index_short: "length s < length p \<Longrightarrow> last_index p s = None"
  using last_index_Some [of p s] by (cases "last_index p s") auto

lemma last_index_end: "p \<noteq> [] \<Longrightarrow> last_index p (s @ p) = Some (length s)"
proof (induction s)
  case Nil
  then obtain c q where p: "p = c # q" by (cases p) auto
  then have "last_index p q = None" by (simp add: last_index_short)
  then show ?case by (simp add: p has_prefix_def)
qed simp

lemma has_prefix_stop:
  "c \<notin> set p \<Longrightarrow> has_prefix p (s @ c # r) \<Longrightarrow> has_prefix p s"
proof (induction s arbitrary: p)
  case Nil
  then show ?case by (cases p) (auto simp: has_prefix_def)
next
  case (Cons x s)
  then show ?case by (cases p) (auto simp: has_prefix_def)
qed

lemma trim_left_stop:
  assumes "\<forall>p \<in> set encs. c \<notin> set p"
  shows "\<exists>s'. trim_left encs (s @ c # r) = s' @ c # r \<and> set s' \<subseteq> set s"
proof (induction "length s" arbitrary: s rule: less_induct)
  case less
  show ?case
  proof (cases "find (\<lambda>p. p \<noteq> [] \<and> has_prefix p (s @ c # r)) encs")
    case None
    then show ?thesis by (auto simp: trim_left.simps [of encs "s @ c # r"])
  next
    case (Some p)
    then have p: "p \<in> set encs" "p \<noteq> []" "has_prefix p s"
      using assms has_prefix_stop by (auto dest!: find_SomeD)
    then obtain t where t: "s = p @ t" by (auto simp: has_prefix_iff)
    then have "length t < length s" using p by simp
    from less.hyps [OF this] obtain s' where "trim_left encs (t @ c # r) = s' @ c # r" "set s' \<subseteq> set t"
      by blast
    moreover have "trim_left encs (s @ c # r) = trim_left encs (t @ c # r)"
      using Some t by (subst trim_left.simps) simp
    ultimately show ?thesis using t by auto
  qed
qed

lemma trim_space_stop:
  assumes "\<forall>p \<in> set space_encs. c \<notin> set p \<and> d \<notin> set p"
  shows "\<exists>s' t'. trim_space (s @ (c # m @ [d]) @ t) = s' @ (c # m @ [d]) @ t' \<and> set s' \<subseteq> set s \<and> set t' \<subseteq> set t"
proof -
  obtain s' where s': "trim_left space_encs (s @ c # (m @ [d]) @ t) = s' @ c # (m @ [d]) @ t" "set s' \<subseteq> set s"
    using trim_left_stop [of space_encs c s "(m @ [d]) @ t"] assms by auto
  have "\<forall>p \<in> set (map rev space_encs). d \<notin> set p" using assms by auto
  from trim_left_stop [OF this, of "rev t" "rev (s' @ c # m)"]
  obtain t' where t': "trim_left (map rev space_encs) (rev t @ d # rev (s' @ c # m)) = t' @ d # rev (s' @ c # m)"
    "set t' \<subseteq> set t" by auto
  have "rev (s' @ c # (m @ [d]) @ t) = rev t @ d # rev (s' @ c # m)" by simp
  then have "trim_right space_encs (s' @ c # (m @ [d]) @ t) = s' @ (c # m @ [d]) @ rev t'"
    by (simp only: trim_right_def t'(1)) simp
  then have "trim_space (s @ (c # m @ [d]) @ t) = s' @ (c # m @ [d]) @ rev t'"
    using s'(1) by (simp add: trim_space_def)
  then show ?thesis using s'(2) t'(2) by fastforce
qed

end
