(* ===== verification/Config.thy ===== *)
theory Config
  imports GoStrings
begin

text \<open>
  \<open>internal/config\<close>: the configuration schema (\<open>config.go\<close>), its defaults (\<open>defaults.go\<close>),
  the normalisation of an IMAP account and the validation of a configuration
  (\<open>validate.go\<close>).  The Go structs are records field by field; each call of \<open>fmt.Errorf\<close> or
  \<open>errors.New\<close> in the validators is a constructor of \<open>config_error\<close>, and \<open>errors.Join\<close> of a
  list is nil exactly when the list is empty, so a validator returns the list.  The slice of
  accounts is shared with the caller, so validation also normalises the caller's accounts:
  \<open>validate_effect\<close> is the configuration after the call.
\<close>

section \<open>Schema\<close>

record llm_config =
  llm_provider :: string
  llm_api_key :: string
  llm_model :: string
  llm_endpoint :: string
  llm_timeout :: duration
  llm_max_retries :: int
  llm_max_concurrent :: int
  llm_repair_max_attempts :: int

record imap_account =
  acct_label :: string
  acct_host :: string
  acct_port :: int
  acct_username :: string
  acct_password :: string
  acct_folders :: "string list option" \<comment> \<open>None is the nil slice\<close>
  acct_use_tls :: bool

record imap_config =
  imap_accounts :: "imap_account list"
  imap_timeout :: duration

record telegram_config =
  tg_bot_token :: string
  tg_chat_id :: int

record storage_config =
  st_state_path :: string
  st_stateless :: bool

record digest_config =
  dg_max_excerpt :: int
  dg_read_status :: bool
  dg_global_stats :: bool
  dg_account_stats :: bool
  dg_summaries :: bool
  dg_key_points :: bool
  dg_action_items :: bool
  dg_raw_fallback :: bool
  dg_max_messages :: int
  dg_max_key_points :: int
  dg_max_action_items :: int
  dg_priority_only :: bool

record labels_config =
  lb_custom :: "string list"

record prompt_config =
  pr_classification :: string
  pr_system :: string

record concurrency_config =
  cc_max_accounts :: int
  cc_max_llm_calls :: int
  cc_fetch_batch :: int

record config =
  cfg_llm :: llm_config
  cfg_imap :: imap_config
  cfg_telegram :: telegram_config
  cfg_storage :: storage_config
  cfg_digest :: digest_config
  cfg_labels :: labels_config
  cfg_prompts :: prompt_config
  cfg_concurrency :: concurrency_config
  cfg_fetch_unread_only :: bool
  cfg_max_window :: duration

section \<open>Defaults and normalisation\<close>

definition default_config :: config where
  "default_config =
     \<lparr>cfg_llm = \<lparr>llm_provider = [], llm_api_key = [], llm_model = [], llm_endpoint = [],
        llm_timeout = 120 * second_ns, llm_max_retries = 3, llm_max_concurrent = 4,
        llm_repair_max_attempts = 1\<rparr>,
      cfg_imap = \<lparr>imap_accounts = [], imap_timeout = 30 * second_ns\<rparr>,
      cfg_telegram = \<lparr>tg_bot_token = [], tg_chat_id = 0\<rparr>,
      cfg_storage = \<lparr>st_state_path = ''./state/emailer.db'', st_stateless = False\<rparr>,
      cfg_digest = \<lparr>dg_max_excerpt = 500, dg_read_status = True, dg_global_stats = True,
        dg_account_stats = True, dg_summaries = True, dg_key_points = True,
        dg_action_items = True, dg_raw_fallback = True, dg_max_messages = 100,
        dg_max_key_points = 5, dg_max_action_items = 3, dg_priority_only = False\<rparr>,
      cfg_labels = \<lparr>lb_custom = []\<rparr>,
      cfg_prompts = \<lparr>pr_classification = [], pr_system = []\<rparr>,
      cfg_concurrency = \<lparr>cc_max_accounts = 4, cc_max_llm_calls = 4, cc_fetch_batch = 10\<rparr>,
      cfg_fetch_unread_only = False,
      cfg_max_window = 72 * hour_ns\<rparr>"

definition normalize_account :: "imap_account \<Rightarrow> imap_account" where
  "normalize_account a =
     (let a1 = (if acct_port a = 0 then a\<lparr>acct_port := 993, acct_use_tls := True\<rparr> else a)
      in if acct_folders a1 = None then a1\<lparr>acct_folders := Some [''INBOX'']\<rparr> else a1)"

definition folders_of :: "imap_account \<Rightarrow> string list" where
  "folders_of a = (case acct_folders a of None \<Rightarrow> [] | Some fs \<Rightarrow> fs)"

section \<open>Validation\<close>

datatype config_error =
    MaxWindowNotPositive duration
  | StatePathRequired
  | ProviderRequired
  | ApiKeyRequired
  | ModelRequired
  | LlmTimeoutNotPositive duration
  | MaxRetriesNegative int
  | MaxConcurrentNotPositive int
  | RepairAttemptsNegative int
  | NoAccounts
  | ImapTimeoutNegative duration
  | LabelRequired nat
  | HostRequired nat
  | PortOutOfRange nat int
  | UsernameRequired nat
  | PasswordRequired nat
  | FolderEmpty nat nat
  | HostHasScheme nat string
  | DuplicateLabel nat nat string
  | BotTokenRequired
  | ChatIdZero
  | BotTokenMalformed
  | StatelessNeedsUnread
  | MaxExcerptNotPositive int
  | MaxMessagesNegative int
  | MaxKeyPointsNegative int
  | MaxActionItemsNegative int
  | NoContentSource
  | MaxAccountsNotPositive int
  | MaxLlmCallsNotPositive int
  | FetchBatchNegative int
  | CustomLabelEmpty nat

definition check :: "bool \<Rightarrow> config_error \<Rightarrow> config_error list" where
  "check bad e = (if bad then [e] else [])"

definition validate_top_level :: "config \<Rightarrow> config_error list" where
  "validate_top_level c =
     check (cfg_max_window c \<le> 0) (MaxWindowNotPositive (cfg_max_window c))
     @ check (\<not> cfg_fetch_unread_only c \<and> \<not> st_stateless (cfg_storage c)
              \<and> st_state_path (cfg_storage c) = []) StatePathRequired"

definition validate_llm :: "llm_config \<Rightarrow> config_error list" where
  "validate_llm c =
     check (llm_provider c = []) ProviderRequired
     @ check (llm_provider c \<noteq> ''ollama'' \<and> llm_api_key c = []) ApiKeyRequired
     @ check (llm_model c = []) ModelRequired
     @ check (llm_timeout c \<le> 0) (LlmTimeoutNotPositive (llm_timeout c))
     @ check (llm_max_retries c < 0) (MaxRetriesNegative (llm_max_retries c))
     @ check (llm_max_concurrent c \<le> 0) (MaxConcurrentNotPositive (llm_max_concurrent c))
     @ check (llm_repair_max_attempts c < 0) (RepairAttemptsNegative (llm_repair_max_attempts c))"

definition validate_account :: "nat \<Rightarrow> imap_account \<Rightarrow> config_error list" where
  "validate_account i a =
     check (is_blank (acct_label a)) (LabelRequired i)
     @ check (is_blank (acct_host a)) (HostRequired i)
     @ check (acct_port a < 1 \<or> acct_port a > 65535) (PortOutOfRange i (acct_port a))
     @ check (is_blank (acct_username a)) (UsernameRequired i)
     @ check (acct_password a = []) (PasswordRequired i)
     @ concat (map (\<lambda>(j, f). check (is_blank f) (FolderEmpty i j)) (enumerate 0 (folders_of a)))
     @ check (acct_host a \<noteq> [] \<and> contains_str (acct_host a) ''://'')
         (HostHasScheme i (acct_host a))"

text \<open>The loop over the labels: \<open>seen\<close> maps a label to the first index that has it.\<close>

fun duplicate_labels :: "(string \<Rightarrow> nat option) \<Rightarrow> (nat \<times> string) list \<Rightarrow> config_error list" where
  "duplicate_labels seen [] = []"
| "duplicate_labels seen ((i, l) # ls) =
     (if l = [] then duplicate_labels seen ls
      else (case seen l of
              Some first \<Rightarrow> DuplicateLabel first i l # duplicate_labels seen ls
            | None \<Rightarrow> duplicate_labels (seen(l \<mapsto> i)) ls))"

definition validate_imap :: "imap_config \<Rightarrow> config_error list" where
  "validate_imap c =
     (let accts = map normalize_account (imap_accounts c) in
      check (accts = []) NoAccounts
      @ check (imap_timeout c < 0) (ImapTimeoutNegative (imap_timeout c))
      @ concat (map (\<lambda>(i, a). validate_account i a) (enumerate 0 accts))
      @ duplicate_labels Map.empty (enumerate 0 (map acct_label accts)))"

text \<open>\<open>strings.SplitN(token, ":", 2)\<close> has two non-empty parts.\<close>

definition bot_token_ok :: "string \<Rightarrow> bool" where
  "bot_token_ok t =
     (case index_of '':'' t of None \<Rightarrow> False | Some k \<Rightarrow> 0 < k \<and> Suc k < length t)"

definition validate_telegram :: "telegram_config \<Rightarrow> config_error list" where
  "validate_telegram c =
     check (tg_bot_token c = []) BotTokenRequired
     @ check (tg_chat_id c = 0) ChatIdZero
     @ check (tg_bot_token c \<noteq> [] \<and> \<not> bot_token_ok (tg_bot_token c)) BotTokenMalformed"

definition validate_storage :: "storage_config \<Rightarrow> bool \<Rightarrow> config_error list" where
  "validate_storage c fetch_unread_only =
     check (st_stateless c \<and> \<not> fetch_unread_only) StatelessNeedsUnread"

definition validate_digest :: "digest_config \<Rightarrow> config_error list" where
  "validate_digest c =
     check (dg_max_excerpt c \<le> 0) (MaxExcerptNotPositive (dg_max_excerpt c))
     @ check (dg_max_messages c < 0) (MaxMessagesNegative (dg_max_messages c))
     @ check (dg_max_key_points c < 0) (MaxKeyPointsNegative (dg_max_key_points c))
     @ check (dg_max_action_items c < 0) (MaxActionItemsNegative (dg_max_action_items c))
     @ check (\<not> dg_summaries c \<and> \<not> dg_raw_fallback c) NoContentSource"

definition validate_concurrency :: "concurrency_config \<Rightarrow> config_error list" where
  "validate_concurrency c =
     check (cc_max_accounts c \<le> 0) (MaxAccountsNotPositive (cc_max_accounts c))
     @ check (cc_max_llm_calls c \<le> 0) (MaxLlmCallsNotPositive (cc_max_llm_calls c))
     @ check (cc_fetch_batch c < 0) (FetchBatchNegative (cc_fetch_batch c))"

definition validate_labels :: "labels_config \<Rightarrow> config_error list" where
  "validate_labels c =
     concat (map (\<lambda>(i, l). check (is_blank l) (CustomLabelEmpty i)) (enumerate 0 (lb_custom c)))"

definition validate :: "config \<Rightarrow> config_error list" where
  "validate c =
     validate_top_level c @ validate_llm (cfg_llm c) @ validate_imap (cfg_imap c)
     @ validate_telegram (cfg_telegram c)
     @ validate_storage (cfg_storage c) (cfg_fetch_unread_only c)
     @ validate_digest (cfg_digest c) @ validate_concurrency (cfg_concurrency c)
     @ validate_labels (cfg_labels c)"

definition validate_effect :: "config \<Rightarrow> config" where
  "validate_effect c =
     c\<lparr>cfg_imap := (cfg_imap c)\<lparr>imap_accounts := map normalize_account (imap_accounts (cfg_imap c))\<rparr>\<rparr>"

text \<open>\<open>SecretRedactionPatterns\<close>: the literals whose quoted patterns are compiled.\<close>

definition secret_patterns :: "config \<Rightarrow> string list" where
  "secret_patterns c =
     filter (\<lambda>s. s \<noteq> []) [llm_api_key (cfg_llm c)]
     @ filter (\<lambda>s. s \<noteq> []) [tg_bot_token (cfg_telegram c)]
     @ filter (\<lambda>s. s \<noteq> []) (map acct_password (imap_accounts (cfg_imap c)))"

section \<open>The contract of a valid configuration\<close>

text \<open>What the rest of the program may rely on once \<open>Validate\<close> returned nil.\<close>

definition valid_account :: "imap_account \<Rightarrow> bool" where
  "valid_account a \<longleftrightarrow>
     \<not> is_blank (acct_label a) \<and> \<not> is_blank (acct_host a) \<and> \<not> is_blank (acct_username a)
     \<and> acct_password a \<noteq> [] \<and> 1 \<le> acct_port a \<and> acct_port a \<le> 65535
     \<and> (\<forall>f \<in> set (folders_of a). \<not> is_blank f)
     \<and> \<not> contains_str (acct_host a) ''://''"

definition valid_config :: "config \<Rightarrow> bool" where
  "valid_config c \<longleftrightarrow>
     0 < cfg_max_window c
     \<and> (cfg_fetch_unread_only c \<or> (\<not> st_stateless (cfg_storage c) \<and> st_state_path (cfg_storage c) \<noteq> []))
     \<and> llm_provider (cfg_llm c) \<noteq> []
     \<and> (llm_provider (cfg_llm c) = ''ollama'' \<or> llm_api_key (cfg_llm c) \<noteq> [])
     \<and> llm_model (cfg_llm c) \<noteq> [] \<and> 0 < llm_timeout (cfg_llm c)
     \<and> 0 \<le> llm_max_retries (cfg_llm c) \<and> 0 < llm_max_concurrent (cfg_llm c)
     \<and> 0 \<le> llm_repair_max_attempts (cfg_llm c)
     \<and> imap_accounts (cfg_imap c) \<noteq> [] \<and> 0 \<le> imap_timeout (cfg_imap c)
     \<and> (\<forall>a \<in> set (imap_accounts (cfg_imap c)). valid_account (normalize_account a))
     \<and> distinct (map acct_label (imap_accounts (cfg_imap c)))
     \<and> bot_token_ok (tg_bot_token (cfg_telegram c)) \<and> tg_chat_id (cfg_telegram c) \<noteq> 0
     \<and> 0 < dg_max_excerpt (cfg_digest c) \<and> 0 \<le> dg_max_messages (cfg_digest c)
     \<and> 0 \<le> dg_max_key_points (cfg_digest c) \<and> 0 \<le> dg_max_action_items (cfg_digest c)
     \<and> (dg_summaries (cfg_digest c) \<or> dg_raw_fallback (cfg_digest c))
     \<and> 0 < cc_max_accounts (cfg_concurrency c) \<and> 0 < cc_max_llm_calls (cfg_concurrency c)
     \<and> 0 \<le> cc_fetch_batch (cfg_concurrency c)
     \<and> (\<forall>l \<in> set (lb_custom (cfg_labels c)). \<not> is_blank l)"

lemma check_Nil [simp]: "check bad e = [] \<longleftrightarrow> \<not> bad"
  by (simp add: check_def)

lemma normalize_label [simp]: "acct_label (normalize_account a) = acct_label a"
  by (simp add: normalize_account_def Let_def)

lemma normalize_idem: "normalize_account (normalize_account a) = normalize_account a"
  by (simp add: normalize_account_def Let_def)

lemma normalize_port: "acct_port (normalize_account a) = (if acct_port a = 0 then 993 else acct_port a)"
  by (simp add: normalize_account_def Let_def)

lemma concat_enumerate_Nil:
  "concat (map (\<lambda>(i, x). f i x) (enumerate n xs)) = [] \<longleftrightarrow>
     (\<forall>i < length xs. f (n + i) (xs ! i) = [])"
  by (induction xs arbitrary: n) (simp_all add: All_less_Suc2)

lemma is_blank_Nil [simp]: "is_blank []"
  by (simp add: is_blank_def)

lemma nonblank_nonempty: "\<not> is_blank s \<Longrightarrow> s \<noteq> []"
  by auto

lemma validate_account_iff: "validate_account i a = [] \<longleftrightarrow> valid_account a"
proof -
  have "concat (map (\<lambda>(j, f). check (is_blank f) (FolderEmpty i j)) (enumerate 0 (folders_of a))) = []
        \<longleftrightarrow> (\<forall>f \<in> set (folders_of a). \<not> is_blank f)"
    by (subst concat_enumerate_Nil) (simp add: all_set_conv_all_nth)
  then show ?thesis
    by (auto simp: validate_account_def valid_account_def dest: nonblank_nonempty)
qed

lemma duplicate_labels_iff:
  assumes "\<forall>(i, l) \<in> set ls. l \<noteq> []"
  shows "duplicate_labels seen ls = [] \<longleftrightarrow>
     distinct (map snd ls) \<and> (\<forall>l \<in> set (map snd ls). seen l = None)"
  using assms by (induction seen ls rule: duplicate_labels.induct) (auto split: option.splits)

lemma validate_imap_iff:
  "validate_imap c = [] \<longleftrightarrow>
     imap_accounts c \<noteq> [] \<and> 0 \<le> imap_timeout c
     \<and> (\<forall>a \<in> set (imap_accounts c). valid_account (normalize_account a))
     \<and> distinct (map acct_label (imap_accounts c))"
proof -
  let ?as = "map normalize_account (imap_accounts c)"
  have accts: "concat (map (\<lambda>(i, a). validate_account i a) (enumerate 0 ?as)) = [] \<longleftrightarrow>
      (\<forall>a \<in> set (imap_accounts c). valid_account (normalize_account a))"
    by (subst concat_enumerate_Nil) (simp add: validate_account_iff all_set_conv_all_nth)
  have labels: "map acct_label ?as = map acct_label (imap_accounts c)" by simp
  have dup: "duplicate_labels Map.empty (enumerate 0 (map acct_label ?as)) = [] \<longleftrightarrow>
      distinct (map acct_label (imap_accounts c))"
    if "\<forall>a \<in> set (imap_accounts c). valid_account (normalize_account a)"
  proof -
    have "\<forall>(i, l) \<in> set (enumerate 0 (map acct_label ?as)). l \<noteq> []"
      using that by (auto simp: in_set_enumerate_eq valid_account_def) (metis is_blank_Nil nth_mem)
    then show ?thesis
      unfolding labels by (subst duplicate_labels_iff) simp_all
  qed
  show ?thesis
    using accts dup by (auto simp: validate_imap_def Let_def)
qed

lemma validate_top_level_iff:
  "validate_top_level c = [] \<longleftrightarrow>
     0 < cfg_max_window c
     \<and> (cfg_fetch_unread_only c \<or> st_stateless (cfg_storage c) \<or> st_state_path (cfg_storage c) \<noteq> [])"
  by (auto simp: validate_top_level_def)

lemma validate_llm_iff:
  "validate_llm c = [] \<longleftrightarrow>
     llm_provider c \<noteq> [] \<and> (llm_provider c = ''ollama'' \<or> llm_api_key c \<noteq> [])
     \<and> llm_model c \<noteq> [] \<and> 0 < llm_timeout c \<and> 0 \<le> llm_max_retries c \<and> 0 < llm_max_concurrent c
     \<and> 0 \<le> llm_repair_max_attempts c"
  by (auto simp: validate_llm_def)

lemma validate_telegram_iff:
  "validate_telegram c = [] \<longleftrightarrow> bot_token_ok (tg_bot_token c) \<and> tg_chat_id c \<noteq> 0"
  by (auto simp: validate_telegram_def bot_token_ok_def split: option.splits)

lemma validate_digest_iff:
  "validate_digest c = [] \<longleftrightarrow>
     0 < dg_max_excerpt c \<and> 0 \<le> dg_max_messages c \<and> 0 \<le> dg_max_key_points c
     \<and> 0 \<le> dg_max_action_items c \<and> (dg_summaries c \<or> dg_raw_fallback c)"
  by (auto simp: validate_digest_def)

lemma validate_concurrency_iff:
  "validate_concurrency c = [] \<longleftrightarrow>
     0 < cc_max_accounts c \<and> 0 < cc_max_llm_calls c \<and> 0 \<le> cc_fetch_batch c"
  by (auto simp: validate_concurrency_def)

lemma validate_labels_iff:
  "validate_labels c = [] \<longleftrightarrow> (\<forall>l \<in> set (lb_custom c). \<not> is_blank l)"
  unfolding validate_labels_def by (subst concat_enumerate_Nil) (simp add: all_set_conv_all_nth)

lemma validate_storage_iff:
  "validate_storage c u = [] \<longleftrightarrow> \<not> st_stateless c \<or> u"
  by (simp add: validate_storage_def)

lemmas validate_iffs = validate_top_level_iff validate_llm_iff validate_imap_iff
  validate_telegram_iff validate_storage_iff validate_digest_iff validate_concurrency_iff
  validate_labels_iff

lemma validate_valid: "validate c = [] \<longleftrightarrow> valid_config c"
  unfolding validate_def append_is_Nil_conv validate_iffs valid_config_def by blast

text \<open>What validation changes in the caller's configuration leaves it valid.\<close>

lemma valid_config_effect: "valid_config (validate_effect c) \<longleftrightarrow> valid_config c"
  by (simp add: valid_config_def validate_effect_def normalize_idem comp_def)


end
