(* ===== verification/MailTypes.thy ===== *)
theory MailTypes
  imports Config
begin

text \<open>
  \<open>internal/mail/types.go\<close> and \<open>internal/mail/classification.go\<close>: the message model, the
  composite key (account label, UID) with its printed form, and the mapping from a
  classification to an IMAP keyword.  \<open>store.MessageKey\<close>, a struct with the same two fields,
  the same \<open>Key\<close> and the same \<open>itoa\<close>, is the same record here.
\<close>

section \<open>Types\<close>

record message_key =
  mk_account :: string
  mk_uid :: uid

record attachment_meta =
  at_filename :: string
  at_mime_type :: string
  at_size :: int

record message =
  msg_account :: string
  msg_uid :: uid
  msg_folder :: string
  msg_subject :: string
  msg_from :: string
  msg_to :: string
  msg_date :: time
  msg_body :: string
  msg_attachments :: "attachment_meta list"
  msg_is_read :: bool

definition msg_key :: "message \<Rightarrow> message_key" where
  "msg_key m = \<lparr>mk_account = msg_account m, mk_uid = msg_uid m\<rparr>"

record analysis_error =
  ae_key :: message_key
  ae_error :: string
  ae_stage :: string

record classification =
  cl_key :: message_key
  cl_label :: string
  cl_confidence :: rat
  cl_reason :: string
  cl_summary :: string
  cl_key_points :: "string list"
  cl_action_items :: "string list"
  cl_priority :: string
  cl_urgency :: string
  cl_error :: "analysis_error option"

record flag =
  fl_key :: message_key
  fl_keyword :: string

section \<open>The printed key\<close>

text \<open>
  \<open>itoa\<close> fills a buffer of ten bytes from the end; the first argument is the index \<open>i\<close>, and
  a write below index 0 would panic (\<^const>\<open>None\<close>).
\<close>

fun itoa_loop :: "nat \<Rightarrow> uid \<Rightarrow> string \<Rightarrow> string option" where
  "itoa_loop i n buf =
     (if n = 0 then Some buf
      else (case i of
              0 \<Rightarrow> None
            | Suc j \<Rightarrow> itoa_loop j (n div 10) (chr (unat (48 + n mod 10)) # buf)))"

declare itoa_loop.simps [simp del]

definition itoa :: "uid \<Rightarrow> string option" where
  "itoa n = (if n = 0 then Some ''0'' else itoa_loop 10 n [])"

definition key_string :: "message_key \<Rightarrow> string option" where
  "key_string k = map_option (\<lambda>d. mk_account k @ ''/'' @ d) (itoa (mk_uid k))"

lemma unat_digit: "unat (48 + (n :: uid) mod 10) = 48 + unat n mod 10"
proof -
  have "unat (n mod 10) = unat n mod 10" by (simp add: unat_mod)
  moreover have "unat n mod 10 < 10" by simp
  ultimately show ?thesis by (simp add: unat_word_ariths)
qed

lemma itoa_loop_digits:
  assumes "unat n < 10 ^ i" and "n \<noteq> 0"
  shows "itoa_loop i n buf = Some (digits_of (unat n) @ buf)"
  using assms
proof (induction i arbitrary: n buf)
  case (Suc i)
  have div: "unat (n div 10) = unat n div 10" by (simp add: unat_div)
  show ?case
  proof (cases "n div 10 = 0")
    case True
    then have "unat n div 10 = 0" using div by simp
    then have "unat n < 10" by linarith
    with True Suc.prems show ?thesis
      by (simp add: itoa_loop.simps [of _ n] itoa_loop.simps [of _ 0] unat_digit
          digits_of.simps [of "unat n"])
  next
    case False
    then have "\<not> unat n < 10" using div by (metis div_less unat_eq_zero)
    moreover have "unat (n div 10) < 10 ^ i"
      using Suc.prems div by (simp add: less_mult_imp_div_less mult.commute)
    ultimately show ?thesis
      using Suc False div
      by (simp add: itoa_loop.simps [of _ n] unat_digit digits_of.simps [of "unat n"])
  qed
qed (simp add: unat_eq_zero)

lemma digits_unat_inj: "digits_of (unat m) = digits_of (unat n) \<Longrightarrow> m = n"
  for m n :: uid
  by (drule digits_of_inj) (simp add: word_unat_eq_iff)

lemma itoa_digits: "itoa n = Some (digits_of (unat n))"
proof (cases "n = 0")
  case True
  then show ?thesis by (simp add: itoa_def digits_of.simps [of 0] chr_zero)
next
  case False
  have "unat n < 2 ^ LENGTH(32)" by (rule unsigned_less)
  then have "unat n < 10 ^ 10" by simp
  with False show ?thesis by (simp add: itoa_def itoa_loop_digits)
qed

lemma itoa_inj: "itoa m = itoa n \<longleftrightarrow> m = n"
  by (auto simp: itoa_digits dest: digits_unat_inj)

lemma slash_not_digit: "CHR ''/'' \<notin> set (digits_of n)"
  using digits_of_digits by (fastforce simp: is_digit_def byte_def)

lemma append_sep_inj:
  assumes "xs @ d # ys = xs' @ d # ys'" and "d \<notin> set ys" and "d \<notin> set ys'"
  shows "xs = xs' \<and> ys = ys'"
proof -
  have "rev ys @ d # rev xs = rev ys' @ d # rev xs'"
    using arg_cong [OF assms(1), of rev] by simp
  moreover have "takeWhile (\<lambda>c. c \<noteq> d) (rev ys @ d # rev xs) = rev ys"
    using assms(2) by (subst takeWhile_append2) auto
  moreover have "takeWhile (\<lambda>c. c \<noteq> d) (rev ys' @ d # rev xs') = rev ys'"
    using assms(3) by (subst takeWhile_append2) auto
  ultimately have "ys = ys'" by (metis rev_rev_ident)
  with assms(1) show ?thesis by simp
qed

text \<open>Printing a composite key never fails (the ten-byte buffer is large enough for every
  32-bit UID) and two keys print alike only when they are equal, whatever the account label
  contains, so the printed key identifies a message.\<close>

theorem key_string_injective:
  "key_string k = Some (mk_account k @ ''/'' @ digits_of (unat (mk_uid k)))
   \<and> (key_string j = key_string k) = (j = k)"
proof -
  have print: "key_string k = Some (mk_account k @ ''/'' @ digits_of (unat (mk_uid k)))" for k
    by (simp add: key_string_def itoa_digits)
  have "j = k" if "key_string j = key_string k"
  proof -
    have "mk_account j @ CHR ''/'' # digits_of (unat (mk_uid j))
          = mk_account k @ CHR ''/'' # digits_of (unat (mk_uid k))"
      using that by (simp add: print)
    then have "mk_account j = mk_account k \<and> digits_of (unat (mk_uid j)) = digits_of (unat (mk_uid k))"
      by (rule append_sep_inj) (rule slash_not_digit)+
    then show "j = k" by (auto intro: message_key.equality dest: digits_unat_inj)
  qed
  with print show ?thesis by blast
qed

section \<open>Classification labels\<close>

definition default_labels :: "string list" where
  "default_labels = [''Useful'', ''ToDelete'', ''Ads'']"

definition label_set :: "labels_config \<Rightarrow> string set" where
  "label_set cfg = set default_labels \<union> set (lb_custom cfg)"

definition classification_to_flag :: "classification \<Rightarrow> labels_config \<Rightarrow> flag" where
  "classification_to_flag c cfg =
     (if cl_label c \<notin> label_set cfg then \<lparr>fl_key = cl_key c, fl_keyword = []\<rparr>
      else \<lparr>fl_key = cl_key c, fl_keyword = cl_label c\<rparr>)"

definition valid_label :: "string \<Rightarrow> labels_config \<Rightarrow> bool" where
  "valid_label l cfg \<longleftrightarrow> l \<in> label_set cfg"

lemma flag_key [simp]: "fl_key (classification_to_flag c cfg) = cl_key c"
  by (simp add: classification_to_flag_def)

lemma flag_keyword_cases:
  "fl_keyword (classification_to_flag c cfg) = (if valid_label (cl_label c) cfg then cl_label c else [])"
  by (simp add: classification_to_flag_def valid_label_def)

end
