(* ===== verification/Digest.thy ===== *)
theory Digest
  imports MailTypes "HOL-Library.Product_Lexorder"
begin

text \<open>
  \<open>internal/digest/digest.go\<close> and the selection and counting of \<open>markdown.go\<close> and \<open>fallback.go\<close>:
  which messages of a run a digest shows, in which groups and in which order, and with which
  totals.  The comparison that both \<open>sort.SliceStable\<close> calls use is the linear order of the type
  \<open>entry_rank\<close>, so the sorts are the library's stable \<^const>\<open>sort_key\<close>.
\<close>

section \<open>Data\<close>

record message_entry =
  me_subject :: string
  me_from :: string
  me_date :: time
  me_is_read :: bool
  me_class :: classification
  me_excerpt :: string

record digest_stats =
  gs_fetched :: nat
  gs_classified :: nat
  gs_failed :: nat
  gs_read :: nat
  gs_unread :: nat
  gs_labels :: "string counter option" \<comment> \<open>None is the nil map\<close>
  gs_accounts_checked :: nat
  gs_accounts_succeeded :: nat
  gs_accounts_failed :: nat
  gs_high_priority :: nat
  gs_analysis_failed :: nat
  gs_top_senders :: "string list"
  gs_top_domains :: "string list"

record account_stats =
  as_label :: string
  as_fetched :: nat
  as_classified :: nat
  as_failed :: nat
  as_read :: nat
  as_unread :: nat
  as_labels :: "string counter"
  as_status :: string
  as_error :: string
  as_analysis_failed :: nat
  as_top_senders :: "string list"
  as_top_domains :: "string list"

record digest_data =
  dd_run_id :: string
  dd_generated :: time
  dd_account :: string
  dd_messages :: "message_entry list"
  dd_fetched :: nat
  dd_classified :: nat
  dd_failed :: nat
  dd_global :: digest_stats
  dd_accounts :: "account_stats list"
  dd_analysis_failed :: nat
  dd_highlights :: "string list option" \<comment> \<open>None is the nil slice\<close>

section \<open>Priorities\<close>

definition priority_rank :: "string \<Rightarrow> nat" where
  "priority_rank p =
     (let n = to_lower (trim_space p) in
      if n = ''high'' then 0 else if n = ''medium'' then 1 else if n = ''low'' then 2 else 3)"

definition is_high :: "message_entry \<Rightarrow> bool" where
  "is_high m \<longleftrightarrow> equal_fold (trim_space (cl_priority (me_class m))) ''high''"

definition collect_high_priority :: "message_entry list \<Rightarrow> message_entry list" where
  "collect_high_priority ms = filter is_high ms"

text \<open>The order of messages in a digest: priority first, then the newest first.\<close>

datatype entry_rank = EntryRank nat time

instantiation entry_rank :: linorder
begin

fun less_eq_entry_rank :: "entry_rank \<Rightarrow> entry_rank \<Rightarrow> bool" where
  "less_eq_entry_rank (EntryRank p d) (EntryRank q e) = (p < q \<or> p = q \<and> e \<le> d)"

definition less_entry_rank :: "entry_rank \<Rightarrow> entry_rank \<Rightarrow> bool" where
  "less_entry_rank r s = (r \<le> s \<and> \<not> s \<le> (r :: entry_rank))"

instance
proof
  fix r s t :: entry_rank
  show "(r < s) = (r \<le> s \<and> \<not> s \<le> r)" by (simp add: less_entry_rank_def)
  show "r \<le> r" by (cases r) simp
  show "r \<le> s \<Longrightarrow> s \<le> t \<Longrightarrow> r \<le> t" by (cases r; cases s; cases t) auto
  show "r \<le> s \<Longrightarrow> s \<le> r \<Longrightarrow> r = s" by (cases r; cases s) auto
  show "r \<le> s \<or> s \<le> r" by (cases r; cases s) auto
qed

end

definition entry_key :: "message_entry \<Rightarrow> entry_rank" where
  "entry_key m = EntryRank (priority_rank (cl_priority (me_class m))) (me_date m)"

text \<open>The comparison function of the code is the strict order of the keys.\<close>

definition entry_less :: "message_entry \<Rightarrow> message_entry \<Rightarrow> bool" where
  "entry_less a b =
     (let pa = priority_rank (cl_priority (me_class a)); pb = priority_rank (cl_priority (me_class b)) in
      if pa \<noteq> pb then pa < pb else me_date b < me_date a)"

lemma entry_less_key: "entry_less a b \<longleftrightarrow> entry_key a < entry_key b"
  by (auto simp: entry_less_def entry_key_def less_entry_rank_def Let_def)

section \<open>Selection\<close>

definition limit_reached :: "digest_config \<Rightarrow> 'a list \<Rightarrow> bool" where
  "limit_reached cfg ms \<longleftrightarrow> 0 < dg_max_messages cfg \<and> dg_max_messages cfg < int (length ms)"

definition select_messages :: "digest_config \<Rightarrow> message_entry list \<Rightarrow> message_entry list" where
  "select_messages cfg ms =
     (let ms = (if dg_priority_only cfg then filter is_high ms else ms) in
      if limit_reached cfg ms then take (nat (dg_max_messages cfg)) (sort_key entry_key ms) else ms)"

definition filter_high_priority :: "message_entry list \<Rightarrow> message_entry list" where
  "filter_high_priority ms = filter is_high ms"

definition fallback_select :: "digest_config \<Rightarrow> message_entry list \<Rightarrow> message_entry list" where
  "fallback_select cfg ms =
     (let ms = (if dg_priority_only cfg then filter_high_priority ms else ms) in
      if limit_reached cfg ms then take (nat (dg_max_messages cfg)) ms else ms)"

section \<open>Grouping\<close>

definition entry_label :: "message_entry \<Rightarrow> string" where
  "entry_label m = (if cl_label (me_class m) = [] then ''Unknown'' else cl_label (me_class m))"

definition group_by_label :: "message_entry list \<Rightarrow> (string \<times> message_entry list) list" where
  "group_by_label ms = map (\<lambda>(l, es). (l, sort_key entry_key es)) (group_by entry_label ms)"

definition label_order :: "message_entry list \<Rightarrow> string list" where
  "label_order ms = sort (map fst (group_by_label ms))"

definition label_counts :: "string counter \<Rightarrow> (string \<times> nat) list" where
  "label_counts m = map (\<lambda>l. (l, count_of m l)) (sort (map fst m))"

section \<open>Totals\<close>

definition prepare_stats :: "digest_data \<Rightarrow> digest_stats" where
  "prepare_stats d =
     (let s = dd_global d;
          s = (if gs_fetched s = 0 \<and> dd_fetched d > 0 then s\<lparr>gs_fetched := dd_fetched d\<rparr> else s);
          s = (if gs_classified s = 0 \<and> dd_classified d > 0 then s\<lparr>gs_classified := dd_classified d\<rparr> else s);
          s = (if gs_failed s = 0 \<and> dd_failed d > 0 then s\<lparr>gs_failed := dd_failed d\<rparr> else s)
      in case gs_labels s of
           Some _ \<Rightarrow> s
         | None \<Rightarrow>
             s\<lparr>gs_labels := Some (tally (map entry_label (dd_messages d))),
               gs_read := gs_read s + length (filter me_is_read (dd_messages d)),
               gs_unread := gs_unread s + length (filter (\<lambda>m. \<not> me_is_read m) (dd_messages d))\<rparr>)"

text \<open>The fallback renderer has the same function of its own.\<close>

definition fallback_stats :: "digest_data \<Rightarrow> digest_stats" where
  "fallback_stats d = prepare_stats d"

section \<open>Texts\<close>

definition read_badge :: "digest_config \<Rightarrow> bool \<Rightarrow> string" where
  "read_badge cfg r =
     (if \<not> dg_read_status cfg then []
      else if r then encode_rune 0x2705 @ '' Read'' else encode_rune 0x1F195 @ '' Unread'')"

definition truncate_bytes :: "int \<Rightarrow> string \<Rightarrow> string" where
  "truncate_bytes n s = (if n \<le> 0 \<or> int (length s) \<le> n then s else take (nat n) s @ ellipsis)"

definition fallback_truncate :: "digest_config \<Rightarrow> string \<Rightarrow> string" where
  "fallback_truncate cfg s = truncate_bytes (dg_max_excerpt cfg) s"

definition truncate_list :: "int \<Rightarrow> 'a list \<Rightarrow> 'a list" where
  "truncate_list n xs = (if n \<le> 0 \<or> int (length xs) \<le> n then xs else take (nat n) xs)"

definition truncate_key_points :: "digest_config \<Rightarrow> string list \<Rightarrow> string list" where
  "truncate_key_points cfg = truncate_list (dg_max_key_points cfg)"

definition truncate_action_items :: "digest_config \<Rightarrow> string list \<Rightarrow> string list" where
  "truncate_action_items cfg = truncate_list (dg_max_action_items cfg)"

definition join_labels :: "string list \<Rightarrow> string" where
  "join_labels = join_with '', ''"

definition display_priority :: "string \<Rightarrow> string" where
  "display_priority p =
     (let n = to_lower (trim_space p) in
      if n = ''high'' then encode_rune 0x1F534 @ '' High''
      else if n = ''medium'' then encode_rune 0x1F7E1 @ '' Medium''
      else if n = ''low'' then encode_rune 0x1F7E2 @ '' Low''
      else ''Unspecified'')"

section \<open>Properties\<close>

lemma limit_reachedD: "limit_reached cfg ms \<Longrightarrow> nat (dg_max_messages cfg) < length ms"
  by (auto simp: limit_reached_def)

lemma sorted_take_drop:
  "sorted (map f xs) \<Longrightarrow> x \<in> set (take n xs) \<Longrightarrow> y \<in> set (drop n xs) \<Longrightarrow> f x \<le> f y"
proof -
  assume s: "sorted (map f xs)" and x: "x \<in> set (take n xs)" and y: "y \<in> set (drop n xs)"
  have "sorted (map f (take n xs) @ map f (drop n xs))"
    using s by (simp flip: map_append)
  then show "f x \<le> f y" using x y by (simp only: sorted_append) auto
qed

lemma select_messages_subset: "set (select_messages cfg ms) \<subseteq> set ms"
  by (auto simp: select_messages_def Let_def dest!: in_set_takeD)


lemma group_by_label_keys: "map fst (group_by_label ms) = map fst (group_by entry_label ms)"
  by (simp add: group_by_label_def comp_def case_prod_unfold)

lemma mset_concat_sorted: "mset (concat (map (sort_key k \<circ> snd) gs)) = mset (concat (map snd gs))"
  by (induction gs) simp_all

lemma filter_sort_key_same:
  "filter (\<lambda>x. k x = c) (sort_key k xs) = filter (\<lambda>x. k x = c) xs"
  by (rule sort_key_stable)

text \<open>The groups of a digest are a partition of its messages by label, an empty label counting as
  Unknown: each message stands in exactly one group, each label has one group, and the labels come
  in alphabetical order.\<close>

theorem group_by_label_partition:
  "mset (concat (map snd (group_by_label ms))) = mset ms
   \<and> distinct (label_order ms) \<and> sorted (label_order ms) \<and> set (label_order ms) = entry_label ` set ms
   \<and> list_all (\<lambda>(l, es). es \<noteq> [] \<and> list_all (\<lambda>m. entry_label m = l) es) (group_by_label ms)"
proof -
  have "mset (concat (map snd (group_by_label ms))) = mset ms"
  proof -
    have "map snd (group_by_label ms) = map (sort_key entry_key \<circ> snd) (group_by entry_label ms)"
      by (simp add: group_by_label_def comp_def case_prod_unfold)
    then show ?thesis by (simp only: mset_concat_sorted mset_concat_group_by)
  qed
  moreover have "distinct (label_order ms)" "sorted (label_order ms)"
    by (simp_all add: label_order_def group_by_label_keys distinct_group_by)
  moreover have "set (label_order ms) = entry_label ` set ms"
    using keys_group_by [of entry_label ms] by (simp add: label_order_def group_by_label_keys)
  moreover have "list_all (\<lambda>(l, es). es \<noteq> [] \<and> list_all (\<lambda>m. entry_label m = l) es) (group_by_label ms)"
  proof -
    have "es \<noteq> [] \<and> (\<forall>m \<in> set es. entry_label m = l)" if "(l, es) \<in> set (group_by entry_label ms)" for l es
      using group_by_entry [OF that] by simp
    then show ?thesis
      by (auto simp: group_by_label_def list_all_iff dest: arg_cong [of _ _ set])
  qed
  ultimately show ?thesis by blast
qed

lemma group_of_group_by_label:
  "group_of (group_by_label ms) l = sort_key entry_key (filter (\<lambda>m. entry_label m = l) ms)"
proof -
  have "map_of (map (\<lambda>(l, es). (l, sort_key entry_key es)) gs) l = map_option (sort_key entry_key) (map_of gs l)" for gs
    by (induction gs) auto
  then have "group_of (group_by_label ms) l = sort_key entry_key (group_of (group_by entry_label ms) l)"
    by (simp add: group_of_def group_by_label_def split: option.split)
  then show ?thesis by (simp add: group_of_group_by)
qed

text \<open>Within a group the messages are sorted by priority and then by date, the newest first, and
  the sort is stable: messages that the order does not tell apart keep the order in which they
  were given.\<close>

theorem group_by_label_sorted:
  "list_all (\<lambda>(l, es). sorted_wrt (\<lambda>a b. \<not> entry_less b a) es) (group_by_label ms)
   \<and> group_of (group_by_label ms) l = sort_key entry_key (filter (\<lambda>m. entry_label m = l) ms)
   \<and> filter (\<lambda>m. entry_key m = k) (group_of (group_by_label ms) l)
     = filter (\<lambda>m. entry_label m = l \<and> entry_key m = k) ms"
proof -
  have "sorted_wrt (\<lambda>a b. \<not> entry_less b a) (sort_key entry_key es)" for es
    using sorted_sort_key [of entry_key es] by (simp add: sorted_map entry_less_key not_less)
  then have "list_all (\<lambda>(l, es). sorted_wrt (\<lambda>a b. \<not> entry_less b a) es) (group_by_label ms)"
    by (auto simp: group_by_label_def list_all_iff)
  then show ?thesis
    by (simp add: group_of_group_by_label filter_sort_key_same conj_commute)
qed

text \<open>When the statistics carry no label counts, those that the renderer fills in are consistent:
  the counts per label and the read and unread counts each add up to the number of messages.\<close>

theorem prepare_stats_consistent:
  assumes "gs_labels (dd_global d) = None" and "gs_read (dd_global d) = 0" and "gs_unread (dd_global d) = 0"
  shows "\<exists>m. gs_labels (prepare_stats d) = Some m \<and> distinct (map fst m)
    \<and> sum_list (map snd m) = length (dd_messages d)
    \<and> count_of m l = length (filter (\<lambda>e. entry_label e = l) (dd_messages d))
    \<and> gs_read (prepare_stats d) + gs_unread (prepare_stats d) = length (dd_messages d)"
proof -
  have "count_list (map entry_label ms) l = length (filter (\<lambda>e. entry_label e = l) ms)" for ms
    by (induction ms) auto
  then show ?thesis
    using assms sum_length_filter_compl [of me_is_read "dd_messages d"]
    by (simp add: prepare_stats_def Let_def distinct_tally sum_tally count_of_tally)
qed

definition empty_stats :: digest_stats where
  "empty_stats = \<lparr>gs_fetched = 0, gs_classified = 0, gs_failed = 0, gs_read = 0, gs_unread = 0, gs_labels = None,
     gs_accounts_checked = 0, gs_accounts_succeeded = 0, gs_accounts_failed = 0, gs_high_priority = 0,
     gs_analysis_failed = 0, gs_top_senders = [], gs_top_domains = []\<rparr>"

definition demo_entry :: "string \<Rightarrow> string \<Rightarrow> time \<Rightarrow> message_entry" where
  "demo_entry label prio date = \<lparr>me_subject = ''s'', me_from = ''f'', me_date = date, me_is_read = True,
     me_class = \<lparr>cl_key = \<lparr>mk_account = ''work'', mk_uid = 1\<rparr>, cl_label = label, cl_confidence = 1, cl_reason = [],
        cl_summary = [], cl_key_points = [], cl_action_items = [], cl_priority = prio, cl_urgency = [],
        cl_error = None\<rparr>, me_excerpt = []\<rparr>"

definition demo_data :: "message_entry list \<Rightarrow> digest_data" where
  "demo_data ms = \<lparr>dd_run_id = ''r'', dd_generated = 0, dd_account = [], dd_messages = ms, dd_fetched = length ms,
     dd_classified = 0, dd_failed = 0, dd_global = empty_stats, dd_accounts = [], dd_analysis_failed = 0,
     dd_highlights = None\<rparr>"


theorem prepare_stats_consistent_witness:
  "gs_read (prepare_stats (demo_data [demo_entry ''Ads'' ''low'' 1])) + gs_unread (prepare_stats (demo_data [demo_entry ''Ads'' ''low'' 1])) = 1"
  by (rule exE [OF prepare_stats_consistent [of "demo_data [demo_entry ''Ads'' ''low'' 1]" "[]"]])
    (simp_all add: demo_data_def empty_stats_def)

text \<open>The key points and action items shown are the first ones, at most as many as configured, all
  of them when no limit is configured.\<close>

theorem truncate_list_prefix:
  "truncate_list n xs @ drop (length (truncate_list n xs)) xs = xs
   \<and> (n \<le> 0 \<or> int (length (truncate_list n xs)) \<le> n)
   \<and> (0 < n \<or> truncate_list n xs = xs)"
  by (auto simp: truncate_list_def min_def)

text \<open>An excerpt is cut at a byte, so the cut can split a character and leave text that is not
  valid UTF-8.\<close>

theorem truncate_splits_character:
  "runes_of (truncate_bytes 2 (''a'' @ encode_rune 0xE9)) = [0x61, 0xFFFD, 0x2026]"
  by code_simp

end
