(* ===== verification/Sanitize.thy ===== *)
theory Sanitize
  imports MailTypes
begin

text \<open>
  \<open>internal/mail/sanitize.go\<close>: the removal of HTML markup (\<open>StripHTML\<close>, a state machine over
  the bytes of its input), of control characters and of entities, which turn attacker-controlled
  headers and bodies into the plain text of prompts and digests.  The Go loops move an index
  forward; here a loop is a recursion on the rest of the string from that index, whose
  termination proof is that every branch consumes a byte.
\<close>

section \<open>StripHTML\<close>

definition block_tags :: "string list" where
  "block_tags =
     [''p'', ''div'', ''br'', ''hr'', ''h1'', ''h2'', ''h3'', ''h4'', ''h5'', ''h6'',
      ''blockquote'', ''pre'', ''table'', ''tr'', ''th'', ''td'', ''li'', ''ol'',
      ''ul'', ''dl'', ''dt'', ''dd'', ''section'', ''article'', ''nav'', ''header'',
      ''footer'', ''aside'', ''details'', ''summary'', ''figure'', ''figcaption'']"

datatype html_state = StText | StTag | StScript | StStyle | StComment | StDoctype

definition is_lower_alpha :: "char \<Rightarrow> bool" where
  "is_lower_alpha c \<longleftrightarrow> 97 \<le> byte c \<and> byte c \<le> 122"

definition is_upper_alpha :: "char \<Rightarrow> bool" where
  "is_upper_alpha c \<longleftrightarrow> 65 \<le> byte c \<and> byte c \<le> 90"

definition tag_name_char :: "char \<Rightarrow> bool" where
  "tag_name_char c \<longleftrightarrow> is_lower_alpha c \<or> is_upper_alpha c \<or> c = CHR ''-'' \<or> is_digit c"

definition lower_ascii :: "char \<Rightarrow> char" where
  "lower_ascii c = (if is_upper_alpha c then chr (byte c + 32) else c)"

text \<open>\<open>readTagName\<close>, given the string after the opening bracket; all its bytes are ASCII.\<close>

definition read_tag_name :: "string \<Rightarrow> string" where
  "read_tag_name s =
     map lower_ascii
       (takeWhile tag_name_char (case s of CHR ''/'' # r \<Rightarrow> r | _ \<Rightarrow> s))"

text \<open>\<open>for i < len(s) && s[i] != c { i++ }; if i < len(s) { i++ }\<close>\<close>

definition skip_past :: "char \<Rightarrow> string \<Rightarrow> string" where
  "skip_past c s = drop 1 (dropWhile (\<lambda>x. x \<noteq> c) s)"

lemma skip_past_length: "length (skip_past c s) \<le> length s"
  using length_dropWhile_le [of "\<lambda>x. x \<noteq> c" s] by (simp add: skip_past_def)

text \<open>
  One iteration of the loop in \<open>StripHTML\<close> at a position where the byte \<open>c\<close> is followed by
  \<open>cs\<close>: the bytes written, the next state and the rest of the input.
\<close>

definition quote_char :: "char \<Rightarrow> bool" where
  "quote_char c \<longleftrightarrow> c = CHR 0x27 \<or> c = CHR 0x22"

definition cdata_step :: "string \<Rightarrow> string \<times> html_state \<times> string" where
  "cdata_step cs =
     (let body = drop 2 cs in
      case index_of '']]>'' body of
        Some e \<Rightarrow> (take (e - 6) (drop 6 body), StText, drop (e + 3) body)
      | None \<Rightarrow>
          (case index_of ''>'' (CHR ''<'' # cs) of
             Some e \<Rightarrow> ([], StText, drop (e + 1) (CHR ''<'' # cs))
           | None \<Rightarrow> ([], StText, cs)))"

definition closing_step :: "string \<Rightarrow> string \<times> html_state \<times> string" where
  "closing_step cs =
     (let name = read_tag_name cs in
      if name = ''script'' \<or> name = ''style''
      then ([], StText, skip_past CHR ''>'' (drop (1 + length name) cs))
      else ((if name \<in> set block_tags then [CHR 0x0A] else []), StText, skip_past CHR ''>'' cs))"

definition opening_step :: "string \<Rightarrow> string \<times> html_state \<times> string" where
  "opening_step cs =
     (let name = read_tag_name cs in
      if name = ''script'' then ([], StScript, skip_past CHR ''>'' cs)
      else if name = ''style'' then ([], StStyle, skip_past CHR ''>'' cs)
      else ((if name \<in> set block_tags then [CHR 0x0A] else []), StTag, cs))"

definition text_step :: "char \<Rightarrow> string \<Rightarrow> string \<times> html_state \<times> string" where
  "text_step c cs =
     (if c \<noteq> CHR ''<'' then ([c], StText, cs)
      else if cs = [] then ([c], StText, cs)
      else if \<not> is_lower_alpha (hd cs) \<and> \<not> is_upper_alpha (hd cs)
              \<and> hd cs \<noteq> CHR ''/'' \<and> hd cs \<noteq> CHR ''!'' then ([c], StText, cs)
      else if has_prefix ''!--'' cs then ([], StComment, drop 3 cs)
      else if has_prefix ''![CDATA['' cs then cdata_step cs
      else if hd cs = CHR ''!'' then ([], StDoctype, drop 1 cs)
      else if hd cs = CHR ''/'' then closing_step cs
      else opening_step cs)"

definition quoted_step :: "html_state \<Rightarrow> char \<Rightarrow> string \<Rightarrow> string \<times> html_state \<times> string" where
  "quoted_step st c cs =
     (if c = CHR ''>'' then ([], StText, cs)
      else if quote_char c then ([], st, skip_past c cs)
      else ([], st, cs))"

definition raw_step :: "string \<Rightarrow> html_state \<Rightarrow> char \<Rightarrow> string \<Rightarrow> string \<times> html_state \<times> string" where
  "raw_step closing st c cs =
     (if c = CHR ''<'' \<and> length closing < length (c # cs)
         \<and> to_lower (take (length closing) (c # cs)) = closing
      then ([], StText, skip_past CHR ''>'' (drop (length closing) (c # cs)))
      else ([], st, cs))"

fun html_step :: "html_state \<Rightarrow> char \<Rightarrow> string \<Rightarrow> string \<times> html_state \<times> string" where
  "html_step StText c cs = text_step c cs"
| "html_step StTag c cs = quoted_step StTag c cs"
| "html_step StScript c cs = raw_step ''</script'' StScript c cs"
| "html_step StStyle c cs = raw_step ''</style'' StStyle c cs"
| "html_step StComment c cs =
     (if c = CHR ''-'' \<and> has_prefix ''->'' cs then ([], StText, drop 2 cs)
      else ([], StComment, cs))"
| "html_step StDoctype c cs = quoted_step StDoctype c cs"

lemma html_step_rest: "length (snd (snd (html_step st c cs))) \<le> length cs"
proof -
  have cdata: "length (snd (snd (cdata_step cs))) \<le> length cs" for cs
    by (auto simp: cdata_step_def Let_def split: option.splits)
  have raw: "length (snd (snd (raw_step cl st' c cs))) \<le> length cs" if "cl \<noteq> []" for cl st'
    using that skip_past_length [of "CHR ''>''" "drop (length cl) (c # cs)"]
    by (cases cl) (auto simp: raw_step_def)
  show ?thesis
    using cdata [of cs] skip_past_length [of "CHR ''>''" cs] skip_past_length [of c cs]
      skip_past_length [of "CHR ''>''" "drop (1 + length (read_tag_name cs)) cs"]
    by (cases st) (auto simp: text_step_def closing_step_def opening_step_def quoted_step_def
        Let_def raw)
qed

function strip_loop :: "html_state \<Rightarrow> string \<Rightarrow> string" where
  "strip_loop st [] = []"
| "strip_loop st (c # cs) =
     (let (out, st', rest) = html_step st c cs in out @ strip_loop st' rest)"
  by pat_completeness auto
termination
  by (relation "measure (\<lambda>(st, s). length s)") (use html_step_rest in \<open>auto simp: less_Suc_eq_le, metis snd_conv\<close>)

fun collapse_runes :: "bool \<Rightarrow> nat list \<Rightarrow> nat list" where
  "collapse_runes prev [] = []"
| "collapse_runes prev (r # rs) =
     (if r = 10 then (if prev then [] else [r]) @ collapse_runes True rs
      else r # collapse_runes False rs)"

definition collapse_newlines :: "string \<Rightarrow> string" where
  "collapse_newlines s = string_of_runes (collapse_runes False (runes_of s))"

definition trim_lines :: "string \<Rightarrow> string" where
  "trim_lines s = join_with [CHR 0x0A] (map trim_space (split_char CHR 0x0A s))"

definition strip_html :: "string \<Rightarrow> string" where
  "strip_html s =
     (if s = [] then []
      else trim_space (collapse_newlines (trim_lines (collapse_newlines (strip_loop StText s)))))"

section \<open>Control characters\<close>

definition is_control :: "nat \<Rightarrow> bool" where
  "is_control r \<longleftrightarrow>
     (if r \<le> 0x1F then r \<noteq> 9 \<and> r \<noteq> 10 \<and> r \<noteq> 13 else 0x7F \<le> r \<and> r \<le> 0x9F)"

definition keep_segment :: "nat \<times> string \<Rightarrow> string" where
  "keep_segment p =
     (if is_invalid p
      then (if in_range 0x7F 0x9F (hd (snd p)) then [] else snd p)
      else if is_control (fst p) then [] else encode_rune (fst p))"

definition strip_control_chars :: "string \<Rightarrow> string" where
  "strip_control_chars s = concat (map keep_segment (segments s))"

section \<open>Entities\<close>

definition html_entities :: "(string \<times> string) list" where
  "html_entities =
     [(''&amp;'', [CHR 0x26]),
      (''&lt;'', [CHR 0x3C]),
      (''&gt;'', [CHR 0x3E]),
      (''&quot;'', [CHR 0x22]),
      (''&apos;'', [CHR 0x27]),
      (''&nbsp;'', [CHR 0xC2, CHR 0xA0]),
      (''&iexcl;'', [CHR 0xC2, CHR 0xA1]),
      (''&cent;'', [CHR 0xC2, CHR 0xA2]),
      (''&pound;'', [CHR 0xC2, CHR 0xA3]),
      (''&curren;'', [CHR 0xC2, CHR 0xA4]),
      (''&yen;'', [CHR 0xC2, CHR 0xA5]),
      (''&brvbar;'', [CHR 0xC2, CHR 0xA6]),
      (''&sect;'', [CHR 0xC2, CHR 0xA7]),
      (''&uml;'', [CHR 0xC2, CHR 0xA8]),
      (''&copy;'', [CHR 0xC2, CHR 0xA9]),
      (''&ordf;'', [CHR 0xC2, CHR 0xAA]),
      (''&laquo;'', [CHR 0xC2, CHR 0xAB]),
      (''&not;'', [CHR 0xC2, CHR 0xAC]),
      (''&shy;'', [CHR 0xC2, CHR 0xAD]),
      (''&reg;'', [CHR 0xC2, CHR 0xAE]),
      (''&macr;'', [CHR 0xC2, CHR 0xAF]),
      (''&deg;'', [CHR 0xC2, CHR 0xB0]),
      (''&plusmn;'', [CHR 0xC2, CHR 0xB1]),
      (''&sup2;'', [CHR 0xC2, CHR 0xB2]),
      (''&sup3;'', [CHR 0xC2, CHR 0xB3]),
      (''&acute;'', [CHR 0xC2, CHR 0xB4]),
      (''&micro;'', [CHR 0xC2, CHR 0xB5]),
      (''&para;'', [CHR 0xC2, CHR 0xB6]),
      (''&middot;'', [CHR 0xC2, CHR 0xB7]),
      (''&cedil;'', [CHR 0xC2, CHR 0xB8]),
      (''&sup1;'', [CHR 0xC2, CHR 0xB9]),
      (''&ordm;'', [CHR 0xC2, CHR 0xBA]),
      (''&raquo;'', [CHR 0xC2, CHR 0xBB]),
      (''&frac14;'', [CHR 0xC2, CHR 0xBC]),
      (''&frac12;'', [CHR 0xC2, CHR 0xBD]),
      (''&frac34;'', [CHR 0xC2, CHR 0xBE]),
      (''&iquest;'', [CHR 0xC2, CHR 0xBF]),
      (''&times;'', [CHR 0xC3, CHR 0x97]),
      (''&divide;'', [CHR 0xC3, CHR 0xB7]),
      (''&ndash;'', [CHR 0xE2, CHR 0x80, CHR 0x93]),
      (''&mdash;'', [CHR 0xE2, CHR 0x80, CHR 0x94]),
      (''&lsquo;'', [CHR 0xE2, CHR 0x80, CHR 0x98]),
      (''&rsquo;'', [CHR 0xE2, CHR 0x80, CHR 0x99]),
      (''&sbquo;'', [CHR 0xE2, CHR 0x80, CHR 0x9A]),
      (''&ldquo;'', [CHR 0xE2, CHR 0x80, CHR 0x9C]),
      (''&rdquo;'', [CHR 0xE2, CHR 0x80, CHR 0x9D]),
      (''&bdquo;'', [CHR 0xE2, CHR 0x80, CHR 0x9E]),
      (''&bull;'', [CHR 0xE2, CHR 0x80, CHR 0xA2]),
      (''&hellip;'', [CHR 0xE2, CHR 0x80, CHR 0xA6]),
      (''&prime;'', [CHR 0xE2, CHR 0x80, CHR 0xB2]),
      (''&Prime;'', [CHR 0xE2, CHR 0x80, CHR 0xB3]),
      (''&euro;'', [CHR 0xE2, CHR 0x82, CHR 0xAC]),
      (''&trade;'', [CHR 0xE2, CHR 0x84, CHR 0xA2]),
      (''&larr;'', [CHR 0xE2, CHR 0x86, CHR 0x90]),
      (''&uarr;'', [CHR 0xE2, CHR 0x86, CHR 0x91]),
      (''&rarr;'', [CHR 0xE2, CHR 0x86, CHR 0x92]),
      (''&darr;'', [CHR 0xE2, CHR 0x86, CHR 0x93]),
      (''&spades;'', [CHR 0xE2, CHR 0x99, CHR 0xA0]),
      (''&clubs;'', [CHR 0xE2, CHR 0x99, CHR 0xA3]),
      (''&hearts;'', [CHR 0xE2, CHR 0x99, CHR 0xA5]),
      (''&diams;'', [CHR 0xE2, CHR 0x99, CHR 0xA6])]"

definition hex_val :: "nat \<Rightarrow> uid" where
  "hex_val r =
     (if 48 \<le> r \<and> r \<le> 57 then of_nat (r - 48)
      else if 97 \<le> r \<and> r \<le> 102 then of_nat (r - 97 + 10)
      else if 65 \<le> r \<and> r \<le> 70 then of_nat (r - 65 + 10)
      else 0)"

text \<open>The code point is a \<open>uint32\<close> and wraps; a rune that is no hex digit still shifts.\<close>

definition parse_hex :: "string \<Rightarrow> uid" where
  "parse_hex s = foldl (\<lambda>cp r. cp * 16 + hex_val r) 0 (runes_of s)"

definition parse_dec :: "string \<Rightarrow> uid" where
  "parse_dec s =
     foldl (\<lambda>cp r. if 48 \<le> r \<and> r \<le> 57 then cp * 10 + of_nat (r - 48) else cp) 0 (runes_of s)"

definition decode_numeric :: "string \<Rightarrow> string" where
  "decode_numeric e =
     (let inner = butlast e;
          cp = unat (if e ! 2 = CHR ''x'' \<or> e ! 2 = CHR ''X'' then parse_hex (drop 3 inner)
                     else parse_dec (drop 2 inner))
      in if 0 < cp \<and> cp \<le> max_rune \<and> \<not> is_surrogate cp then encode_rune cp else e)"

definition decode_entity :: "string \<Rightarrow> string" where
  "decode_entity e =
     (if 3 < length e \<and> e ! 1 = CHR ''#'' then decode_numeric e
      else (case map_of html_entities e of Some d \<Rightarrow> d | None \<Rightarrow> e))"

function decode_entities :: "string \<Rightarrow> string" where
  "decode_entities [] = []"
| "decode_entities (c # cs) =
     (if c \<noteq> CHR ''&'' then c # decode_entities cs
      else (case index_of '';'' cs of
              None \<Rightarrow> c # decode_entities cs
            | Some k \<Rightarrow> decode_entity (c # take (Suc k) cs) @ decode_entities (drop (Suc k) cs)))"
  by pat_completeness auto
termination
  by (relation "measure length") auto

section \<open>Header fields\<close>

definition sanitize_header :: "string \<Rightarrow> string" where
  "sanitize_header s =
     (if s = [] then []
      else trim_space (decode_entities (strip_control_chars (strip_html s))))"

definition sanitize_address_field :: "string \<Rightarrow> string" where
  "sanitize_address_field s =
     (if s = [] then [] else trim_space (decode_entities (strip_control_chars s)))"

definition truncate_runes :: "string \<Rightarrow> int \<Rightarrow> string" where
  "truncate_runes s limit =
     (if limit \<le> 0 then []
      else let rs = runes_of s in
        if int (length rs) \<le> limit then s
        else string_of_runes (take (nat (limit - 1)) rs) @ ellipsis)"

section \<open>What StripHTML guarantees\<close>

lemma byte_encode_rune:
  assumes "c \<in> set (encode_rune r)"
  shows "0x80 \<le> byte c \<or> r < 0x80 \<and> byte c = r"
proof -
  have "r \<le> max_rune \<Longrightarrow> r div 262144 \<le> 4" by (simp add: max_rune_def)
  with assms show ?thesis by (auto simp: encode_rune_def split: if_splits)
qed

abbreviation lf :: char where "lf \<equiv> CHR 0x0A"

lemma byte_lf [simp]: "byte lf = 10" by code_simp

lemma lf_encode_rune: "lf \<in> set (encode_rune r) \<longleftrightarrow> r = 10"
proof
  show "lf \<in> set (encode_rune r) \<Longrightarrow> r = 10" by (drule byte_encode_rune) simp
  show "r = 10 \<Longrightarrow> lf \<in> set (encode_rune r)" by (simp, code_simp)
qed

lemma encode_lf: "encode_rune 10 = [lf]" by code_simp

definition no_blank_line :: "string \<Rightarrow> bool" where
  "no_blank_line s \<longleftrightarrow> successively (\<lambda>a b. \<not> (a = lf \<and> b = lf)) s"

lemma no_blank_line_no_lf: "lf \<notin> set s \<Longrightarrow> no_blank_line s"
  unfolding no_blank_line_def by (induction s rule: induct_list012) auto

lemma no_blank_line_append:
  "no_blank_line (s @ t) \<longleftrightarrow> no_blank_line s \<and> no_blank_line t \<and>
     (s = [] \<or> t = [] \<or> last s \<noteq> lf \<or> hd t \<noteq> lf)"
  by (auto simp: no_blank_line_def successively_append_iff)

lemma no_blank_line_infix: "no_blank_line (a @ s @ b) \<Longrightarrow> no_blank_line s"
  by (simp add: no_blank_line_append)

lemma collapse_runes_normal:
  "no_blank_line (string_of_runes (collapse_runes prev rs)) \<and>
   (prev \<longrightarrow> string_of_runes (collapse_runes prev rs) = [] \<or> hd (string_of_runes (collapse_runes prev rs)) \<noteq> lf)"
proof (induction prev rs rule: collapse_runes.induct)
  case (1 prev)
  then show ?case by (simp add: string_of_runes_def no_blank_line_def)
next
  case (2 prev r rs)
  show ?case
  proof (cases "r = 10")
    case True
    with 2 show ?thesis
      by (cases "string_of_runes (collapse_runes True rs)")
        (auto simp: string_of_runes_def encode_lf no_blank_line_def)
  next
    case False
    then have "lf \<notin> set (encode_rune r)" by (simp add: lf_encode_rune)
    then have "no_blank_line (encode_rune r)" "hd (encode_rune r) \<noteq> lf" "last (encode_rune r) \<noteq> lf"
      by (metis no_blank_line_no_lf) (metis encode_rune_not_Nil hd_in_set last_in_set lf_encode_rune False)+
    with 2 False show ?thesis
      by (auto simp: string_of_runes_def no_blank_line_append)
  qed
qed

lemma collapse_newlines_normal: "no_blank_line (collapse_newlines s)"
  using collapse_runes_normal [of False] by (simp add: collapse_newlines_def)

text \<open>C31: whatever bytes a sender puts into a body, the text that \<open>StripHTML\<close> returns has no two
  consecutive line feeds and no white space at either end.\<close>

theorem strip_html_normal:
  "no_blank_line (strip_html s) \<and> trim_space (strip_html s) = strip_html s"
proof -
  have "no_blank_line (trim_space t)" if "no_blank_line t" for t
    using that trim_space_infix [of t] no_blank_line_infix by metis
  then show ?thesis
    by (simp add: strip_html_def trim_space_idem collapse_newlines_normal) (simp add: no_blank_line_def)
qed

lemma strip_loop_text: "CHR ''<'' \<notin> set s \<Longrightarrow> strip_loop StText (s @ t) = s @ strip_loop StText t"
  by (induction s) (auto simp: text_step_def)

lemma skip_past_append: "c \<notin> set s \<Longrightarrow> skip_past c (s @ c # t) = t"
  by (induction s) (auto simp: skip_past_def)

lemma strip_loop_raw:
  assumes "CHR ''<'' \<notin> set s"
  shows "strip_loop StScript (s @ t) = strip_loop StScript t"
    and "strip_loop StStyle (s @ t) = strip_loop StStyle t"
  using assms by (induction s) (auto simp: raw_step_def)

lemma strip_loop_script_end: "strip_loop StScript (''</script>'' @ t) = strip_loop StText t"
proof -
  have "to_lower ''</script'' = ''</script''" by code_simp
  then show ?thesis by (simp add: raw_step_def skip_past_def)
qed

lemma strip_loop_style_end: "strip_loop StStyle (''</style>'' @ t) = strip_loop StText t"
proof -
  have "to_lower ''</style'' = ''</style''" by code_simp
  then show ?thesis by (simp add: raw_step_def skip_past_def)
qed

text \<open>What may stand between a tag name and the closing bracket.\<close>

definition attributes :: "string \<Rightarrow> bool" where
  "attributes a \<longleftrightarrow> CHR ''>'' \<notin> set a \<and> (a = [] \<or> \<not> tag_name_char (hd a))"

lemma gt_not_name: "\<not> tag_name_char CHR ''>''" by code_simp

lemma read_tag_name_attr:
  assumes "attributes a"
  shows "read_tag_name (''script'' @ a @ CHR ''>'' # t) = ''script''"
    and "read_tag_name (''style'' @ a @ CHR ''>'' # t) = ''style''"
proof -
  have "takeWhile tag_name_char (a @ CHR ''>'' # t) = []"
    using assms gt_not_name by (cases a) (auto simp: attributes_def)
  moreover have "list_all tag_name_char ''script''" "list_all tag_name_char ''style''"
    "map lower_ascii ''script'' = ''script''" "map lower_ascii ''style'' = ''style''" by code_simp+
  ultimately show "read_tag_name (''script'' @ a @ CHR ''>'' # t) = ''script''"
    and "read_tag_name (''style'' @ a @ CHR ''>'' # t) = ''style''"
    by (simp_all add: read_tag_name_def)
qed

lemma strip_loop_script_start:
  assumes "attributes a"
  shows "strip_loop StText (''<script'' @ a @ CHR ''>'' # t) = strip_loop StScript t"
proof -
  have "opening_step (''script'' @ a @ CHR ''>'' # t) = ([], StScript, t)"
    using assms skip_past_append [of "CHR ''>''" "''script'' @ a" t]
    by (simp add: opening_step_def read_tag_name_attr [OF assms, simplified] attributes_def)
  moreover have "is_lower_alpha CHR ''s''" by code_simp
  ultimately show ?thesis by (simp add: text_step_def has_prefix_def)
qed
lemma strip_html_pipeline:
  "strip_html s = trim_space (collapse_newlines (trim_lines (collapse_newlines (strip_loop StText s))))"
proof -
  have "trim_space (collapse_newlines (trim_lines (collapse_newlines (strip_loop StText [])))) = []"
    by code_simp
  then show ?thesis by (simp add: strip_html_def)
qed



section \<open>What StripControlChars guarantees\<close>

text \<open>
  The output is a concatenation of kept pieces, and Go decodes it afresh: pieces could join into
  a rune that was not there before.  A control rune could only arise from an ASCII control byte or
  from the byte C2 followed by a byte in 80..9F, and no concatenation of kept pieces has either.
\<close>

definition no_c1 :: "string \<Rightarrow> bool" where
  "no_c1 s \<longleftrightarrow> successively (\<lambda>a b. \<not> (byte a = 0xC2 \<and> in_range 0x80 0x9F b)) s"

definition plain_byte :: "char \<Rightarrow> bool" where
  "plain_byte c \<longleftrightarrow> 0x80 \<le> byte c \<or> \<not> is_control (byte c)"

text \<open>The bytes with which a kept piece may start: no continuation byte below A0.\<close>

definition good_piece :: "string \<Rightarrow> bool" where
  "good_piece p \<longleftrightarrow> no_c1 p \<and> list_all plain_byte p \<and> (p \<noteq> [] \<longrightarrow> \<not> in_range 0x80 0x9F (hd p))"

lemma good_piece_append: "good_piece p \<Longrightarrow> good_piece q \<Longrightarrow> good_piece (p @ q)"
  by (cases "p = []"; cases "q = []") (auto simp: good_piece_def no_c1_def successively_append_iff)

lemma good_piece_concat: "\<forall>p \<in> set ps. good_piece p \<Longrightarrow> good_piece (concat ps)"
proof (induction ps)
  case Nil
  show ?case by (simp add: good_piece_def no_c1_def)
qed (simp add: good_piece_append)

lemma good_encode_rune:
  assumes "scalar r" and "\<not> is_control r"
  shows "good_piece (encode_rune r)"
proof -
  have "list_all plain_byte (encode_rune r)"
    using assms(2) byte_encode_rune by (fastforce simp: list_all_iff plain_byte_def)
  moreover have "no_c1 (encode_rune r) \<and> \<not> in_range 0x80 0x9F (hd (encode_rune r))"
  proof -
    consider "r < 0x80" | "0x80 \<le> r" "r < 0x800" | "0x800 \<le> r" by linarith
    then show ?thesis
    proof cases
      case 1
      then show ?thesis by (simp add: encode_rune_def no_c1_def in_range_def)
    next
      case 2
      have "r div 64 < 32" "2 \<le> r div 64" using 2 by auto
      moreover have "r div 64 = 2 \<Longrightarrow> 0xA0 \<le> 0x80 + r mod 64"
      proof -
        assume q: "r div 64 = 2"
        have "r div 64 * 64 + r mod 64 = r" by simp
        with q have "r = 128 + r mod 64" by simp
        with assms(2) 2 show "0xA0 \<le> 0x80 + r mod 64" by (auto simp: is_control_def)
      qed
      ultimately show ?thesis using 2 by (auto simp: encode_rune_def no_c1_def in_range_def)
    next
      case 3
      have "r \<le> max_rune" "\<not> is_surrogate r" using assms(1) by (auto simp: scalar_def)
      moreover have "r div 262144 \<le> 4" using calculation(1) by (simp add: max_rune_def)
      ultimately show ?thesis using 3
        by (auto simp: encode_rune_def no_c1_def in_range_def)
    qed
  qed
  ultimately show ?thesis by (simp add: good_piece_def)
qed

lemma invalid_segment_byte: "(rune_error, [c]) \<in> set (segments s) \<Longrightarrow> 0x80 \<le> byte c"
proof (induction s rule: segments_induct)
  case (Cons s)
  show ?case
  proof (cases "(rune_error, [c]) = (fst (decode_rune s), take (snd (decode_rune s)) s)")
    case True
    then obtain cs where "s = c # cs" by (cases s; cases "snd (decode_rune s)") auto
    with True show ?thesis
      by (auto simp: Let_def rune_error_def split: if_splits)
  qed (use Cons in \<open>auto simp: segments_Cons\<close>)
qed simp

lemma good_keep_segment:
  assumes "(r, bs) \<in> set (segments s)"
  shows "good_piece (keep_segment (r, bs))"
proof (cases "is_invalid (r, bs)")
  case True
  then obtain c where bs: "bs = [c]" by (auto simp: is_invalid_def length_Suc_conv)
  have "0x80 \<le> byte c" using invalid_segment_byte [of c s] True assms bs by (simp add: is_invalid_def)
  with True bs show ?thesis
    by (auto simp: keep_segment_def good_piece_def no_c1_def plain_byte_def in_range_def)
next
  case False
  then show ?thesis
    using segments_valid(1) [OF assms] good_encode_rune
    by (auto simp: keep_segment_def) (simp add: good_piece_def no_c1_def)
qed

lemma decode2_control:
  assumes "no_c1 (c # s)" "0xC2 \<le> byte c" "byte c < 0xE0"
  shows "\<not> is_control (fst (decode2 c s))"
proof (cases "(c, s)" rule: decode2.cases)
  case (1 c0 c1 t)
  define a z where "a = byte c - 0xC0" and "z = byte c1 - 0x80"
  have a: "byte c = 0xC0 + a" "2 \<le> a" "a < 32" using assms by (auto simp: a_def)
  show ?thesis
  proof (cases "is_cont c1")
    case True
    then have z: "byte c1 = 0x80 + z" "z < 64" by (auto simp: in_range_def z_def)
    have "a = 2 \<Longrightarrow> 0x20 \<le> z"
      using assms(1) 1 a z by (auto simp: no_c1_def in_range_def)
    then have "0xA0 \<le> a * 64 + z" using a by (cases "a = 2") auto
    then show ?thesis using 1 True a z by (simp add: is_control_def)
  qed (use 1 in \<open>auto simp: is_control_def rune_error_def\<close>)
qed (auto simp: is_control_def rune_error_def)

lemma decode3_big: "0xE1 \<le> byte c \<or> 0xA0 \<le> lo \<Longrightarrow> 0xE0 \<le> byte c \<Longrightarrow> byte c < 0xF0 \<Longrightarrow> 0x80 \<le> lo \<Longrightarrow> hi \<le> 0xBF
   \<Longrightarrow> 0x800 \<le> fst (decode3 lo hi c s)"
proof (cases "(lo, hi, c, s)" rule: decode3.cases)
  case (1 l h c0 c1 c2 t)
  assume asm: "0xE1 \<le> byte c \<or> 0xA0 \<le> lo" "0xE0 \<le> byte c" "byte c < 0xF0" "0x80 \<le> lo" "hi \<le> 0xBF"
  define a x where "a = byte c - 0xE0" and "x = byte c1 - 0x80"
  show ?thesis
  proof (cases "in_range l h c1")
    case True
    then have b: "byte c = 0xE0 + a" "byte c1 = 0x80 + x" "x < 64" "a < 16" "a = 0 \<Longrightarrow> 32 \<le> x"
      using asm 1 by (auto simp: a_def x_def in_range_def)
    then have "0x800 \<le> a * 4096 + x * 64" by (cases "a = 0") auto
    then show ?thesis using 1 b by (simp add: rune_error_def)
  qed (use 1 in \<open>auto simp: rune_error_def\<close>)
qed (auto simp: rune_error_def)

lemma decode4_big:
  assumes "byte c = 0xF0 \<and> lo = 0x90 \<or> 0xF1 \<le> byte c" "byte c \<le> 0xF4" "0x80 \<le> lo" "hi \<le> 0xBF"
  shows "0x800 \<le> fst (decode4 lo hi c s)"
proof (cases "(lo, hi, c, s)" rule: decode4.cases)
  case (1 l h c0 c1 c2 c3 t)
  define a x where "a = byte c - 0xF0" and "x = byte c1 - 0x80"
  show ?thesis
  proof (cases "in_range l h c1")
    case True
    then have b: "byte c = 0xF0 + a" "byte c1 = 0x80 + x" "x < 64" "a \<le> 4" "a = 0 \<Longrightarrow> 16 \<le> x"
      using assms 1 by (auto simp: a_def x_def in_range_def)
    then have "0x800 \<le> a * 262144 + x * 4096" by (cases "a = 0") auto
    then show ?thesis using 1 b by (simp add: rune_error_def)
  qed (use 1 in \<open>auto simp: rune_error_def\<close>)
qed (auto simp: rune_error_def)

lemma decode_good:
  assumes "no_c1 s" "list_all plain_byte s" "s \<noteq> []"
  shows "\<not> is_control (fst (decode_rune s))"
proof -
  obtain c cs where s: "s = c # cs" using assms(3) by (cases s) auto
  have big: "\<not> is_control r" if "0x800 \<le> r" for r using that by (simp add: is_control_def)
  show ?thesis
    using assms s decode2_control [of c cs]
    by (auto simp: Let_def plain_byte_def decode3_big decode4_big big rune_error_def)
qed

lemma no_c1_drop: "no_c1 s \<Longrightarrow> no_c1 (drop n s)"
  by (metis append_take_drop_id no_c1_def successively_append_iff)

text \<open>The runes that a reader of the output of \<open>StripControlChars\<close> decodes contain no C0 or C1
  control character and no DEL (tab, line feed and carriage return are kept), also when the
  input is not valid UTF-8.\<close>

theorem strip_control_chars_clean:
  "list_all (\<lambda>r. \<not> is_control r) (runes_of (strip_control_chars s))"
proof -
  have "\<forall>r \<in> set (runes_of t). \<not> is_control r" if "no_c1 t" "list_all plain_byte t" for t
    using that
  proof (induction t rule: segments_induct)
    case (Cons t)
    moreover have "list_all plain_byte (drop n t)" for n
      using Cons by (auto simp: list_all_iff dest: in_set_dropD)
    ultimately show ?case
      by (simp add: runes_of_def segments_Cons no_c1_drop decode_good)
  qed simp
  moreover have "good_piece (strip_control_chars s)"
    unfolding strip_control_chars_def by (rule good_piece_concat) (auto simp: good_keep_segment)
  ultimately show ?thesis unfolding good_piece_def list_all_iff by blast
qed

section \<open>Truncate\<close>

lemma truncate_runes_cases:
  assumes "0 < limit" "limit < int (length (runes_of s))"
  shows "runes_of (truncate_runes s limit) = take (nat (limit - 1)) (runes_of s) @ [0x2026]"
proof -
  have "encode_rune 0x2026 = ellipsis"
    by (simp add: encode_rune_def is_surrogate_def max_rune_def ellipsis_def chr_def char_of_def bit_0)
  moreover have "scalar 0x2026" by (simp add: scalar_def max_rune_def is_surrogate_def)
  ultimately have "runes_of ellipsis = [0x2026]" using runes_of_encode [of "0x2026" "[]"] by simp
  moreover have "\<forall>r \<in> set (take (nat (limit - 1)) (runes_of s)). scalar r"
    by (auto dest: in_set_takeD scalar_runes_of)
  ultimately show ?thesis
    using assms by (simp add: truncate_runes_def runes_of_string_append)
qed

text \<open>\<open>Truncate\<close> keeps a text of at most \<open>limit\<close> runes as it is, and cuts a longer one to exactly
  its first \<open>limit - 1\<close> runes and an ellipsis, so the result never has more than \<open>limit\<close> runes.\<close>

theorem truncate_runes_spec:
  "runes_of (truncate_runes s limit) =
     (if limit \<le> 0 then [] else if int (length (runes_of s)) \<le> limit then runes_of s
      else take (nat (limit - 1)) (runes_of s) @ [0x2026]) \<and>
   length (runes_of (truncate_runes s limit)) \<le> nat limit"
proof (cases "0 < limit \<and> limit < int (length (runes_of s))")
  case True
  then have "Suc (nat (limit - 1)) = nat limit" by linarith
  with True show ?thesis by (simp add: truncate_runes_cases)
qed (auto simp: truncate_runes_def)

section \<open>Character sets\<close>

text \<open>\<open>ConvertCharset\<close>: reading the input, the decoder that \<open>charset.NewReader\<close> finds for a content type, and
  reading through it are outside.\<close>

record charset_io =
  ci_read :: "err + string"
  ci_decode :: "string \<Rightarrow> string \<Rightarrow> err + (err + string)"

definition charset_error :: "err \<Rightarrow> err + string" where
  "charset_error e = Inl (Wrap ''mail.ConvertCharset: '' e)"

definition convert_charset :: "charset_io \<Rightarrow> string \<Rightarrow> err + string" where
  "convert_charset io content_type =
     (case ci_read io of
        Inl e \<Rightarrow> charset_error e
      | Inr raw \<Rightarrow>
          if raw = [] then Inr []
          else (case ci_decode io raw (if content_type = [] then ''text/plain; charset=utf-8'' else content_type) of
              Inl e \<Rightarrow> charset_error e
            | Inr (Inl e) \<Rightarrow> charset_error e
            | Inr (Inr body) \<Rightarrow> Inr body))"

text \<open>An empty input never fails, whatever the content type; a missing one means UTF-8.\<close>

lemma convert_charset_empty: "ci_read io = Inr [] \<Longrightarrow> convert_charset io ct = Inr []"
  by (simp add: convert_charset_def)

lemma convert_charset_default:
  "convert_charset io [] = convert_charset io ''text/plain; charset=utf-8''"
  by (simp add: convert_charset_def)

section \<open>Where sanitising falls short\<close>

text \<open>The order of the steps in \<open>SanitizeHeader\<close> lets markup and control characters back in:
  entities are decoded after tags and control characters were removed, so a Subject
  \<open>&lt;b&gt;x&#7;\<close> comes out as a tag and a BEL character.\<close>

theorem sanitize_header_reintroduces_markup:
  "sanitize_header ''&lt;b&gt;x&#7;'' = ''<b>x'' @ [CHR 0x07]"
  by code_simp

text \<open>\<open>StripHTML\<close> is not idempotent and can output a tag: a bracket in front of a tag is kept
  as text and joins what follows the tag.\<close>

theorem strip_html_reassembles_tag:
  "strip_html ''<<b>b>x'' = ''<b>x'' \<and> strip_html (strip_html ''<<b>b>x'') = ''x''"
  by code_simp

text \<open>The code point of a numeric entity is accumulated in 32 bits, so an entity beyond the
  Unicode range that wraps is decoded instead of being left alone.\<close>

theorem numeric_entity_wraps:
  "decode_entities ''&#x100000041;'' = ''A''"
  by code_simp

end
