(* ===== verification/Body.thy ===== *)
theory Body
  imports Sanitize MailTypes
begin

text \<open>
  \<open>readBody\<close> of \<open>internal/mail/body.go\<close>: the text and the attachments of one message.  The MIME
  parser (\<open>go-message\<close> and \<open>mime.ParseMediaType\<close>) is a parameter: it turns the raw text into an
  entity and walks an entity part by part.  The choice of the body among the parts, the
  recognition of attachments and the cleaning of the chosen text are modelled.
\<close>

type_synonym mime_params = "(string \<times> string) list"

text \<open>What the callback of \<open>Walk\<close> reads of a part: the error it is called with, the parsed
  \<open>Content-Type\<close> and \<open>Content-Disposition\<close> (\<^const>\<open>None\<close> when parsing fails) and the decoded
  content (\<^const>\<open>None\<close> when reading fails).\<close>

record mime_part =
  mp_error :: bool
  mp_type :: "(string \<times> mime_params) option"
  mp_disposition :: "(string \<times> mime_params) option"
  mp_content :: "string option"

record 'e mime_lib =
  ml_media_type :: "string \<Rightarrow> err + string \<times> mime_params"
  ml_new :: "string \<Rightarrow> mime_params \<Rightarrow> string \<Rightarrow> 'e option \<times> err option"
  ml_read :: "string \<Rightarrow> 'e option \<times> err option"
  ml_walk :: "'e \<Rightarrow> mime_part list \<times> err option"

definition part_type :: "mime_part \<Rightarrow> string \<times> mime_params" where
  "part_type p = (case mp_type p of None \<Rightarrow> (''text/plain'', []) | Some t \<Rightarrow> t)"

definition disposition_params :: "mime_part \<Rightarrow> mime_params" where
  "disposition_params p = (case mp_disposition p of None \<Rightarrow> [] | Some (d, ps) \<Rightarrow> ps)"

definition is_attachment :: "mime_part \<Rightarrow> bool" where
  "is_attachment p \<longleftrightarrow>
     (case mp_disposition p of None \<Rightarrow> False | Some (d, ps) \<Rightarrow> d = ''attachment'')
     \<or> map_of (disposition_params p) ''filename'' \<noteq> None
     \<or> map_of (snd (part_type p)) ''name'' \<noteq> None"

definition part_filename :: "mime_part \<Rightarrow> string" where
  "part_filename p =
     (let f = (case map_of (disposition_params p) ''filename'' of None \<Rightarrow> [] | Some f \<Rightarrow> f) in
      if f = [] then (case map_of (snd (part_type p)) ''name'' of None \<Rightarrow> [] | Some f \<Rightarrow> f) else f)"

text \<open>The callback of \<open>Walk\<close>; the state is the text and the attachments so far.\<close>

definition visit_part ::
  "mime_part \<Rightarrow> string \<times> attachment_meta list \<Rightarrow> string \<times> attachment_meta list" where
  "visit_part p st =
     (let (body, atts) = st; mt = fst (part_type p) in
      if mp_error p \<or> has_prefix ''multipart/'' mt then st
      else if is_attachment p then
        (case mp_content p of
           None \<Rightarrow> st
         | Some c \<Rightarrow> (body, atts @ [\<lparr>at_filename = part_filename p, at_mime_type = mt, at_size = int (length c)\<rparr>]))
      else if \<not> has_prefix ''text/'' mt then st
      else (case mp_content p of
          None \<Rightarrow> st
        | Some c \<Rightarrow>
            if body = [] then (if mt = ''text/html'' then strip_html c else c, atts) else st))"

definition clean_body :: "string \<Rightarrow> string" where
  "clean_body b = trim_space (decode_entities (strip_control_chars b))"

definition parse_entity :: "'e mime_lib \<Rightarrow> string \<Rightarrow> string \<Rightarrow> err + 'e option \<times> err option" where
  "parse_entity lib raw ctype =
     (if ctype \<noteq> [] then
        (case ml_media_type lib ctype of
           Inl e \<Rightarrow> Inl (Wrap (''readBody: invalid content type '' @ go_quote ctype @ '': '') e)
         | Inr (mt, ps) \<Rightarrow> Inr (ml_new lib mt ps raw))
      else Inr (ml_read lib raw))"

text \<open>An error together with an entity is ignored.  An entity that is nil without an error would be
  a nil dereference in \<open>Walk\<close>; the library never returns it, and it is an error here.\<close>

definition read_body :: "'e mime_lib \<Rightarrow> string \<Rightarrow> string \<Rightarrow> (string \<times> attachment_meta list) \<times> err option" where
  "read_body lib raw ctype =
     (case parse_entity lib raw ctype of
        Inl e \<Rightarrow> (([], []), Some e)
      | Inr (None, e) \<Rightarrow> (([], []), Some (case e of None \<Rightarrow> Err ''nil entity'' | Some e \<Rightarrow> Wrap ''readBody: '' e))
      | Inr (Some ent, _) \<Rightarrow>
          (case ml_walk lib ent of
             (ps, Some e) \<Rightarrow> (([], []), Some (Wrap ''readBody.walk: '' e))
           | (ps, None) \<Rightarrow>
               let (body, atts) = fold visit_part ps ([], []) in ((clean_body body, atts), None)))"

section \<open>Which part becomes the body\<close>

text \<open>The text that a part offers for the body, if it is a text part.\<close>

definition part_text :: "mime_part \<Rightarrow> string option" where
  "part_text p =
     (if mp_error p \<or> is_attachment p \<or> \<not> has_prefix ''text/'' (fst (part_type p)) then None
      else map_option (\<lambda>c. if fst (part_type p) = ''text/html'' then strip_html c else c) (mp_content p))"

definition part_attachment :: "mime_part \<Rightarrow> attachment_meta option" where
  "part_attachment p =
     (if mp_error p \<or> has_prefix ''multipart/'' (fst (part_type p)) \<or> \<not> is_attachment p then None
      else map_option (\<lambda>c. \<lparr>at_filename = part_filename p, at_mime_type = fst (part_type p),
             at_size = int (length c)\<rparr>) (mp_content p))"

definition first_text :: "mime_part list \<Rightarrow> string" where
  "first_text ps = (case find (\<lambda>t. t \<noteq> []) (List.map_filter part_text ps) of None \<Rightarrow> [] | Some t \<Rightarrow> t)"

lemma multipart_not_text: "has_prefix ''multipart/'' s \<Longrightarrow> \<not> has_prefix ''text/'' s"
  by (auto simp: has_prefix_iff)

lemma visit_part_eq:
  "visit_part p (body, atts) =
     (if body = [] then (case part_text p of None \<Rightarrow> [] | Some t \<Rightarrow> t) else body,
      atts @ (case part_attachment p of None \<Rightarrow> [] | Some a \<Rightarrow> [a]))"
  by (auto simp: visit_part_def part_text_def part_attachment_def multipart_not_text split: option.split)

lemma fold_visit_part:
  "fold visit_part ps (body, atts) =
     (if body = [] then first_text ps else body, atts @ List.map_filter part_attachment ps)"
proof (induction ps arbitrary: body atts)
  case (Cons p ps)
  then show ?case
    by (auto simp: visit_part_eq first_text_def map_filter_simps split: option.splits)
qed (simp add: first_text_def map_filter_simps)

text \<open>The body of a message is the first text part that is not empty, in the order of the parts,
  whether it is plain text or HTML (which is stripped), and the attachments are listed completely
  and in order.\<close>

theorem read_body_parts:
  assumes "ml_read lib raw = (Some ent, e)" and "ml_walk lib ent = (ps, None)"
  shows "read_body lib raw [] = ((clean_body (first_text ps), List.map_filter part_attachment ps), None)"
  using assms by (simp add: read_body_def parse_entity_def fold_visit_part)

definition text_part :: "string \<Rightarrow> string \<Rightarrow> mime_part" where
  "text_part mt c = \<lparr>mp_error = False, mp_type = Some (mt, []), mp_disposition = None, mp_content = Some c\<rparr>"

definition plain_lib :: "mime_part list \<Rightarrow> unit mime_lib" where
  "plain_lib ps = \<lparr>ml_media_type = \<lambda>_. Inl (Err ''unused''), ml_new = \<lambda>_ _ _. (None, None),
     ml_read = \<lambda>_. (Some (), None), ml_walk = \<lambda>_. (ps, None)\<rparr>"

theorem read_body_parts_witness:
  "read_body (plain_lib [text_part ''text/html'' ''hi'']) ''raw'' [] = ((''hi'', []), None)"
proof -
  have "clean_body (first_text [text_part ''text/html'' ''hi'']) = ''hi''
    \<and> List.map_filter part_attachment [text_part ''text/html'' ''hi''] = []"
    by code_simp
  then show ?thesis
    using read_body_parts [of "plain_lib [text_part ''text/html'' ''hi'']" "''raw''" "()" None]
    by (simp add: plain_lib_def)
qed

text \<open>Plain text is not preferred: with an HTML part in front of a plain text part, the body comes
  from the HTML.\<close>

theorem html_first_wins:
  "read_body (plain_lib [text_part ''text/html'' ''from html'', text_part ''text/plain'' ''from text'']) raw []
   = ((''from html'', []), None)"
  by code_simp

text \<open>The cleaned body can contain the control characters that the cleaning is for, because
  entities are decoded after the control characters are removed: an escape character written as an
  entity survives.\<close>

theorem read_body_keeps_escape:
  "read_body (plain_lib [text_part ''text/plain'' ''a&#27;[31m'']) raw []
   = ((''a'' @ [CHR 0x1B] @ ''[31m'', []), None)"
  by code_simp

end
