(* ===== verification/Imap.thy ===== *)
theory Imap
  imports Body
begin

text \<open>
  \<open>internal/mail/client.go\<close>, \<open>fetch.go\<close>, \<open>search.go\<close> and the fetching half of \<open>body.go\<close>: the IMAP
  client.  The library \<open>go-imap\<close> is the parameter \<open>imap_server\<close>, a record of its calls over a world
  \<open>'w\<close> and a connection handle \<open>'c\<close>; it also holds \<open>ctx.Err()\<close> and the test for \<open>*net.OpError\<close>.
  The state of the client is the connection, if there is one, and the timeout.  Every operation
  returns its result, the client and the world.
\<close>

section \<open>The server and the client\<close>

record imap_address =
  ad_name :: string
  ad_mailbox :: string
  ad_host :: string

record imap_envelope =
  en_subject :: string
  en_from :: "imap_address option list"
  en_to :: "imap_address option list"
  en_date :: time

record imap_header =
  hd_uid :: uid
  hd_envelope :: "imap_envelope option"
  hd_flags :: "string list"
  hd_internal_date :: time

record imap_body =
  bd_uid :: uid
  bd_literal :: "string option"

record ('w, 'c, 'e) imap_server =
  sv_dial_tls :: "string \<Rightarrow> 'w \<Rightarrow> (err + 'c) \<times> 'w"
  sv_dial :: "string \<Rightarrow> 'w \<Rightarrow> (err + 'c) \<times> 'w"
  sv_starttls :: "'c \<Rightarrow> string \<Rightarrow> 'w \<Rightarrow> err option \<times> 'w"
  sv_set_timeout :: "'c \<Rightarrow> duration \<Rightarrow> 'c"
  sv_login :: "'c \<Rightarrow> string \<Rightarrow> string \<Rightarrow> 'w \<Rightarrow> err option \<times> 'w"
  sv_logout :: "'c \<Rightarrow> 'w \<Rightarrow> err option \<times> 'w"
  sv_select :: "'c \<Rightarrow> string \<Rightarrow> bool \<Rightarrow> 'w \<Rightarrow> (err + string list) \<times> 'w" \<comment> \<open>the PERMANENTFLAGS\<close>
  sv_search :: "'c \<Rightarrow> time \<Rightarrow> string list \<Rightarrow> 'w \<Rightarrow> (err + uid list) \<times> 'w"
  sv_headers :: "'c \<Rightarrow> uid list \<Rightarrow> 'w \<Rightarrow> (imap_header option list \<times> err option) \<times> 'w"
  sv_bodies :: "'c \<Rightarrow> uid list \<Rightarrow> 'w \<Rightarrow> (imap_body list \<times> err option) \<times> 'w"
  sv_store :: "'c \<Rightarrow> uid list \<Rightarrow> string \<Rightarrow> 'w \<Rightarrow> err option \<times> 'w"
  sv_ctx_err :: "'w \<Rightarrow> err option"
  sv_net_error :: "err \<Rightarrow> bool"
  sv_mime :: "'e mime_lib"

record 'c imap_client =
  ic_conn :: "'c option"
  ic_timeout :: duration

definition new_imap_client :: "bool \<Rightarrow> duration \<Rightarrow> err + 'c imap_client" where
  "new_imap_client logger timeout =
     (if \<not> logger then Inl (Err ''mail.NewIMAPClient: logger must not be nil'')
      else Inr \<lparr>ic_conn = None, ic_timeout = timeout\<rparr>)"

section \<open>Connecting\<close>

definition connected :: "('w, 'c, 'e) imap_server \<Rightarrow> 'c imap_client \<Rightarrow> 'c \<Rightarrow> 'c imap_client" where
  "connected sv c conn = c\<lparr>ic_conn := Some (sv_set_timeout sv conn (ic_timeout c))\<rparr>"

definition dial ::
  "('w, 'c, 'e) imap_server \<Rightarrow> imap_account \<Rightarrow> 'c imap_client \<Rightarrow> 'w \<Rightarrow> err option \<times> 'c imap_client \<times> 'w" where
  "dial sv a c w =
     (let addr = acct_host a @ '':'' @ fmt_d (acct_port a) in
      if acct_use_tls a then
        (case sv_dial_tls sv addr w of
           (Inl e, w) \<Rightarrow> (Some (Wrap ''imap.dial_tls: '' e), c, w)
         | (Inr conn, w) \<Rightarrow> (None, connected sv c conn, w))
      else
        (case sv_dial sv addr w of
           (Inl e, w) \<Rightarrow> (Some (Wrap ''imap.dial: '' e), c, w)
         | (Inr conn, w) \<Rightarrow>
             if acct_port a = 143 then
               (case sv_starttls sv conn (acct_host a) w of
                  (None, w) \<Rightarrow> (None, connected sv c conn, w)
                | (Some e, w) \<Rightarrow>
                    (case sv_logout sv conn w of
                       (Some le, w) \<Rightarrow> (Some (Both ''imap.starttls: '' e '' (logout: '' le '')''), c, w)
                     | (None, w) \<Rightarrow> (Some (Wrap ''imap.starttls: '' e), c, w)))
             else (None, connected sv c conn, w)))"

definition login ::
  "('w, 'c, 'e) imap_server \<Rightarrow> imap_account \<Rightarrow> 'c imap_client \<Rightarrow> 'w \<Rightarrow> err option \<times> 'c imap_client \<times> 'w" where
  "login sv a c w =
     (case ic_conn c of
        None \<Rightarrow> (Some (Err (''imap.login: not connected '' @ [CHR 0xE2, CHR 0x80, CHR 0x94] @ '' call Dial first'')), c, w)
      | Some conn \<Rightarrow>
          (case sv_login sv conn (acct_username a) (acct_password a) w of
             (Some e, w) \<Rightarrow> (Some (Wrap ''imap.login: '' e), c, w)
           | (None, w) \<Rightarrow> (None, c, w)))"

definition close_client ::
  "('w, 'c, 'e) imap_server \<Rightarrow> 'c imap_client \<Rightarrow> 'w \<Rightarrow> err option \<times> 'c imap_client \<times> 'w" where
  "close_client sv c w =
     (case ic_conn c of
        None \<Rightarrow> (None, c, w)
      | Some conn \<Rightarrow> (case sv_logout sv conn w of (e, w) \<Rightarrow> (e, c, w)))"

definition reconnect ::
  "('w, 'c, 'e) imap_server \<Rightarrow> imap_account \<Rightarrow> 'c imap_client \<Rightarrow> 'w \<Rightarrow> err option \<times> 'c imap_client \<times> 'w" where
  "reconnect sv a c w =
     (let w = (case ic_conn c of None \<Rightarrow> w | Some conn \<Rightarrow> snd (sv_logout sv conn w));
          c = c\<lparr>ic_conn := None\<rparr>
      in case dial sv a c w of
           (Some e, c, w) \<Rightarrow> (Some (Wrap ''imap.reconnect.dial: '' e), c, w)
         | (None, c, w) \<Rightarrow>
             (case login sv a c w of
                (Some e, c, w) \<Rightarrow> (Some (Wrap ''imap.reconnect.login: '' e), c, w)
              | (None, c, w) \<Rightarrow> (None, c, w)))"

definition is_connection_error :: "('w, 'c, 'e) imap_server \<Rightarrow> err \<Rightarrow> bool" where
  "is_connection_error sv e \<longleftrightarrow>
     (if sv_net_error sv e then True
      else if err_is ''EOF'' e then True
      else let msg = to_lower (err_text e) in
        contains_str msg ''connection'' \<or> contains_str msg ''closed'' \<or> contains_str msg ''broken pipe''
        \<or> contains_str msg ''use of closed'' \<or> contains_str msg ''timeout'')"

text \<open>The operation is a closure that stores its value in a variable of the caller; the value is
  the one of the last run, or the initial value when there was none.\<close>

definition with_reconnect ::
  "('w, 'c, 'e) imap_server \<Rightarrow> imap_account \<Rightarrow> 'x
   \<Rightarrow> ('c imap_client \<Rightarrow> 'w \<Rightarrow> ('x \<times> err option) \<times> 'c imap_client \<times> 'w)
   \<Rightarrow> 'c imap_client \<Rightarrow> 'w \<Rightarrow> ('x \<times> err option) \<times> 'c imap_client \<times> 'w" where
  "with_reconnect sv a nil op c w =
     (case (if ic_conn c = None then reconnect sv a c w else (None, c, w)) of
        (Some e, c, w) \<Rightarrow> ((nil, Some (Wrap ''imap.connect: '' e)), c, w)
      | (None, c, w) \<Rightarrow>
     (case op c w of
        ((x, None), c, w) \<Rightarrow> ((x, None), c, w)
      | ((x, Some e), c, w) \<Rightarrow>
          if \<not> is_connection_error sv e then ((x, Some e), c, w)
          else (case reconnect sv a c w of
              (Some re, c, w) \<Rightarrow>
                ((x, Some (Around ''imap.reconnect: '' re ('' (original: '' @ err_text e @ '')''))), c, w)
            | (None, c, w) \<Rightarrow> op c w)))"

section \<open>Reading a folder\<close>

definition select_folder ::
  "('w, 'c, 'e) imap_server \<Rightarrow> string \<Rightarrow> bool \<Rightarrow> 'c imap_client \<Rightarrow> 'w \<Rightarrow> (err + string list) \<times> 'w" where
  "select_folder sv folder ro c w =
     (case ic_conn c of
        None \<Rightarrow> (Inl (Err ''imap.select_folder: not connected''), w)
      | Some conn \<Rightarrow>
          (case sv_select sv conn folder ro w of
             (Inl e, w) \<Rightarrow> (Inl (Wrap ''imap.select_folder: '' e), w)
           | (Inr fs, w) \<Rightarrow> (Inr fs, w)))"

definition search_criteria :: "time \<Rightarrow> bool \<Rightarrow> time \<times> string list" where
  "search_criteria since unread = (since, if unread then [[CHR 0x5C] @ ''Seen''] else [])"

definition search_by_window ::
  "('w, 'c, 'e) imap_server \<Rightarrow> time \<Rightarrow> bool \<Rightarrow> 'c imap_client \<Rightarrow> 'w \<Rightarrow> (err + uid list) \<times> 'w" where
  "search_by_window sv since unread c w =
     (case ic_conn c of
        None \<Rightarrow> (Inl (Err ''imap.search_window: not connected''), w)
      | Some conn \<Rightarrow>
          (case sv_search sv conn (fst (search_criteria since unread)) (snd (search_criteria since unread)) w of
             (Inl e, w) \<Rightarrow> (Inl (Wrap ''imap.uid_search: '' e), w)
           | (Inr us, w) \<Rightarrow> (Inr us, w)))"

definition default_fetch_batch_size :: int where
  "default_fetch_batch_size = 10"

function chunks_from :: "uid list \<Rightarrow> nat \<Rightarrow> uid list list" where
  "chunks_from us n = (if n = 0 \<or> us = [] then [] else take n us # chunks_from (drop n us) n)"
  by pat_completeness auto
termination by (relation "measure (\<lambda>(us, n). length us)") auto

declare chunks_from.simps [simp del]

definition chunk_uids :: "uid list \<Rightarrow> int \<Rightarrow> uid list list" where
  "chunk_uids us bsz = (if bsz \<le> 0 \<or> us = [] then [us] else chunks_from us (nat bsz))"

fun read_headers ::
  "('w, 'c, 'e) imap_server \<Rightarrow> 'c \<Rightarrow> uid list list \<Rightarrow> imap_header option list \<Rightarrow> 'w
   \<Rightarrow> (imap_header option list \<times> err option) \<times> 'w" where
  "read_headers sv conn [] acc w = ((acc, None), w)"
| "read_headers sv conn (chunk # cs) acc w =
     (case sv_headers sv conn chunk w of
        ((ms, Some e), w) \<Rightarrow> (([], Some (Wrap ''imap.uid_fetch: '' e)), w)
      | ((ms, None), w) \<Rightarrow> read_headers sv conn cs (acc @ ms) w)"

definition fetch_headers ::
  "('w, 'c, 'e) imap_server \<Rightarrow> uid list \<Rightarrow> int \<Rightarrow> 'c imap_client \<Rightarrow> 'w
   \<Rightarrow> (imap_header option list \<times> err option) \<times> 'w" where
  "fetch_headers sv us bsz c w =
     (case ic_conn c of
        None \<Rightarrow> (([], Some (Err ''imap.fetch_headers: not connected'')), w)
      | Some conn \<Rightarrow> if us = [] then (([], None), w) else read_headers sv conn (chunk_uids us bsz) [] w)"

type_synonym body_result = "string \<times> attachment_meta list"

text \<open>One message of the body fetch: the map of results and the error texts so far.\<close>

definition add_body ::
  "'e mime_lib \<Rightarrow> imap_body \<Rightarrow> (uid \<rightharpoonup> body_result) \<times> string list \<Rightarrow> (uid \<rightharpoonup> body_result) \<times> string list" where
  "add_body lib b st =
     (let (m, errs) = st in
      case bd_literal b of
        None \<Rightarrow> (m, errs @ [''uid '' @ fmt_d (uint (bd_uid b)) @ '': no body section returned''])
      | Some raw \<Rightarrow>
          let (r, e) = read_body lib raw [] in
          (m(bd_uid b \<mapsto> r),
           case e of None \<Rightarrow> errs
           | Some e \<Rightarrow> errs @ [''uid '' @ fmt_d (uint (bd_uid b)) @ '': parse body: '' @ err_text e]))"

fun read_bodies ::
  "('w, 'c, 'e) imap_server \<Rightarrow> 'c \<Rightarrow> uid list list \<Rightarrow> (uid \<rightharpoonup> body_result) \<times> string list \<Rightarrow> 'w
   \<Rightarrow> (err + (uid \<rightharpoonup> body_result) \<times> string list) \<times> 'w" where
  "read_bodies sv conn [] st w = (Inr st, w)"
| "read_bodies sv conn (chunk # cs) st w =
     (case sv_bodies sv conn chunk w of
        ((bs, Some e), w) \<Rightarrow> (Inl (Wrap ''imap.uid_fetch_body: '' e), w)
      | ((bs, None), w) \<Rightarrow> read_bodies sv conn cs (fold (add_body (sv_mime sv)) bs st) w)"

definition fetch_body ::
  "('w, 'c, 'e) imap_server \<Rightarrow> uid list \<Rightarrow> int \<Rightarrow> 'c imap_client \<Rightarrow> 'w
   \<Rightarrow> ((uid \<rightharpoonup> body_result) \<times> err option) \<times> 'w" where
  "fetch_body sv us bsz c w =
     (case ic_conn c of
        None \<Rightarrow> ((Map.empty, Some (Err ''imap.fetch_body: not connected'')), w)
      | Some conn \<Rightarrow>
          if us = [] then ((Map.empty, None), w)
          else (case read_bodies sv conn (chunk_uids us bsz) (Map.empty, []) w of
              (Inl e, w) \<Rightarrow> ((Map.empty, Some e), w)
            | (Inr (m, errs), w) \<Rightarrow>
                if errs = [] then ((m, None), w)
                else ((m, Some (Err (''imap.fetch_body: '' @ fmt_d (int (length errs)) @ ''/''
                        @ fmt_d (int (length us)) @ '' messages had errors: '' @ join_with ''; '' errs))), w)))"

definition is_read :: "string list \<Rightarrow> bool" where
  "is_read flags \<longleftrightarrow> list_ex (\<lambda>f. f = [CHR 0x5C] @ ''Seen'') flags"

definition format_address :: "imap_address option \<Rightarrow> string" where
  "format_address ad =
     (case ad of
        None \<Rightarrow> []
      | Some a \<Rightarrow>
          if ad_name a \<noteq> [] then sanitize_header (ad_name a) @ '' <'' @ ad_mailbox a @ ''@'' @ ad_host a @ ''>''
          else ad_mailbox a @ ''@'' @ ad_host a)"

definition format_address_list :: "imap_address option list \<Rightarrow> string" where
  "format_address_list ads = (if ads = [] then [] else join_with '', '' (map format_address ads))"

definition build_message ::
  "imap_account \<Rightarrow> string \<Rightarrow> (uid \<rightharpoonup> body_result) \<Rightarrow> imap_header \<Rightarrow> message" where
  "build_message a folder bodies h =
     (let env = hd_envelope h;
          subject = (case env of None \<Rightarrow> [] | Some v \<Rightarrow> sanitize_header (en_subject v));
          sender = (case env of None \<Rightarrow> [] | Some v \<Rightarrow> sanitize_address_field (format_address_list (en_from v)));
          recipient = (case env of None \<Rightarrow> [] | Some v \<Rightarrow> sanitize_address_field (format_address_list (en_to v)));
          date = (case env of None \<Rightarrow> hd_internal_date h
                  | Some v \<Rightarrow> if time_is_zero (en_date v) then hd_internal_date h else en_date v);
          (body, atts) = (case bodies (hd_uid h) of None \<Rightarrow> ([], []) | Some r \<Rightarrow> r)
      in \<lparr>msg_account = acct_label a, msg_uid = hd_uid h, msg_folder = folder, msg_subject = subject,
          msg_from = sender, msg_to = recipient, msg_date = date, msg_body = body, msg_attachments = atts,
          msg_is_read = is_read (hd_flags h)\<rparr>)"

record fetch_options =
  fo_since :: time
  fo_unread_only :: bool
  fo_folders :: "string list"
  fo_batch :: int

definition fetch_folder ::
  "('w, 'c, 'e) imap_server \<Rightarrow> imap_account \<Rightarrow> string \<Rightarrow> fetch_options \<Rightarrow> 'c imap_client \<Rightarrow> 'w
   \<Rightarrow> (message list \<times> err option) \<times> 'c imap_client \<times> 'w" where
  "fetch_folder sv a folder opts c w =
     (case select_folder sv folder True c w of
        (Inl e, w) \<Rightarrow> (([], Some e), c, w)
      | (Inr _, w) \<Rightarrow>
     (case search_by_window sv (fo_since opts) (fo_unread_only opts) c w of
        (Inl e, w) \<Rightarrow> (([], Some e), c, w)
      | (Inr us, w) \<Rightarrow>
          if us = [] then (([], None), c, w)
          else let bsz = (if fo_batch opts \<le> 0 then default_fetch_batch_size else fo_batch opts) in
     (case fetch_headers sv us bsz c w of
        ((_, Some e), w) \<Rightarrow> (([], Some e), c, w)
      | ((hs, None), w) \<Rightarrow>
     (case fetch_body sv us bsz c w of
        ((bodies, be), w) \<Rightarrow>
          ((map (build_message a folder bodies) (List.map_filter id hs), be), c, w)))))"

section \<open>Reading an account\<close>

definition fetch_folders_of :: "imap_account \<Rightarrow> fetch_options \<Rightarrow> string list" where
  "fetch_folders_of a opts =
     (let fs = (if fo_folders opts = [] then folders_of a else fo_folders opts) in
      if fs = [] then [''INBOX''] else fs)"

text \<open>The loop over the folders.  A cancelled context ends it with that error; a failed folder
  contributes its error text and no messages.\<close>

fun fetch_loop ::
  "('w, 'c, 'e) imap_server \<Rightarrow> imap_account \<Rightarrow> fetch_options \<Rightarrow> string list \<Rightarrow> message list \<Rightarrow> string list
   \<Rightarrow> 'c imap_client \<Rightarrow> 'w \<Rightarrow> (message list \<times> (err + string list)) \<times> 'c imap_client \<times> 'w" where
  "fetch_loop sv a opts [] ms errs c w = ((ms, Inr errs), c, w)"
| "fetch_loop sv a opts (folder # fs) ms errs c w =
     (case sv_ctx_err sv w of
        Some e \<Rightarrow> ((ms, Inl (Wrap ''imap.fetch: '' e)), c, w)
      | None \<Rightarrow>
     (case with_reconnect sv a [] (fetch_folder sv a folder opts) c w of
        ((_, Some e), c, w) \<Rightarrow>
          fetch_loop sv a opts fs ms (errs @ [''folder '' @ go_quote folder @ '': '' @ err_text e]) c w
      | ((fms, None), c, w) \<Rightarrow> fetch_loop sv a opts fs (ms @ fms) errs c w))"

definition imap_fetch ::
  "('w, 'c, 'e) imap_server \<Rightarrow> imap_account \<Rightarrow> fetch_options \<Rightarrow> 'c imap_client \<Rightarrow> 'w
   \<Rightarrow> (message list \<times> err option) \<times> 'c imap_client \<times> 'w" where
  "imap_fetch sv a opts c w =
     (if ic_conn c = None then (([], Some (Err ''imap.fetch: not connected'')), c, w)
      else let folders = fetch_folders_of a opts in
        case fetch_loop sv a opts folders [] [] c w of
          ((ms, Inl e), c, w) \<Rightarrow> ((ms, Some e), c, w)
        | ((ms, Inr errs), c, w) \<Rightarrow>
            if errs = [] then ((ms, None), c, w)
            else ((ms, Some (Err (''imap.fetch: '' @ fmt_d (int (length errs)) @ ''/''
                    @ fmt_d (int (length folders)) @ '' folders failed: '' @ join_with ''; '' errs))), c, w))"

section \<open>Writing flags\<close>

definition keyword_allowed :: "string list \<Rightarrow> string \<Rightarrow> bool" where
  "keyword_allowed permanent keyword \<longleftrightarrow>
     has_prefix [CHR 0x5C] keyword \<or> permanent = []
     \<or> list_ex (\<lambda>f. f = [CHR 0x5C] @ ''*'' \<or> equal_fold f keyword) permanent"

text \<open>The map from keywords to UIDs in some iteration order, the number of groups skipped and the
  error texts.\<close>

fun store_groups ::
  "('w, 'c, 'e) imap_server \<Rightarrow> 'c \<Rightarrow> string list \<Rightarrow> (string \<times> uid list) list \<Rightarrow> 'w
   \<Rightarrow> (nat \<times> string list) \<times> 'w" where
  "store_groups sv conn permanent [] w = ((0, []), w)"
| "store_groups sv conn permanent ((k, us) # gs) w =
     (if \<not> keyword_allowed permanent k
      then (case store_groups sv conn permanent gs w of ((n, es), w) \<Rightarrow> ((Suc n, es), w))
      else (case sv_store sv conn us k w of
          (e, w) \<Rightarrow>
            (case store_groups sv conn permanent gs w of
               ((n, es), w) \<Rightarrow>
                 ((n, (case e of None \<Rightarrow> es
                       | Some e \<Rightarrow> (''keyword '' @ go_quote k @ '' on '' @ fmt_d (int (length us))
                           @ '' UIDs: '' @ err_text e) # es)), w))))"

definition keyword_groups :: "flag list \<Rightarrow> (string \<times> uid list) list" where
  "keyword_groups flags = map (\<lambda>(k, fs). (k, map (\<lambda>f. mk_uid (fl_key f)) fs)) (group_by fl_keyword flags)"

text \<open>\<open>order\<close> picks the iteration order of the map.\<close>

definition apply_flags_once ::
  "('w, 'c, 'e) imap_server \<Rightarrow> ((string \<times> uid list) list \<Rightarrow> (string \<times> uid list) list) \<Rightarrow> flag list
   \<Rightarrow> 'c imap_client \<Rightarrow> 'w \<Rightarrow> (unit \<times> err option) \<times> 'c imap_client \<times> 'w" where
  "apply_flags_once sv order flags c w =
     (case ic_conn c of
        None \<Rightarrow> (((), Some (Err ''imap.apply_flags: not connected'')), c, w)
      | Some conn \<Rightarrow>
     (case select_folder sv ''INBOX'' False c w of
        (Inl e, w) \<Rightarrow> (((), Some (Wrap ''imap.apply_flags.select: '' e)), c, w)
      | (Inr permanent, w) \<Rightarrow>
          let groups = order (keyword_groups flags); n = fmt_d (int (length groups)) in
          (case store_groups sv conn permanent groups w of
             ((skipped, errs), w) \<Rightarrow>
               if skipped > 0 \<and> skipped = length groups
               then (((), Some (Err (''imap.apply_flags: '' @ fmt_d (int skipped) @ ''/'' @ n
                       @ '' keywords not permitted by server PERMANENTFLAGS''))), c, w)
               else if errs \<noteq> []
               then (((), Some (Err (''imap.apply_flags: '' @ fmt_d (int (length errs)) @ ''/'' @ n
                       @ '' groups failed: '' @ join_with ''; '' errs))), c, w)
               else (((), None), c, w))))"

definition apply_flags ::
  "('w, 'c, 'e) imap_server \<Rightarrow> ((string \<times> uid list) list \<Rightarrow> (string \<times> uid list) list) \<Rightarrow> imap_account
   \<Rightarrow> flag list \<Rightarrow> 'c imap_client \<Rightarrow> 'w \<Rightarrow> err option \<times> 'c imap_client \<times> 'w" where
  "apply_flags sv order a flags c w =
     (if flags = [] then (None, c, w)
      else (case with_reconnect sv a () (apply_flags_once sv order flags) c w of
              ((_, e), c, w) \<Rightarrow> (e, c, w)))"

end
