(* ===== verification/ImapProps.thy ===== *)
theory ImapProps
  imports Imap
begin

text \<open>
  What the IMAP client guarantees: batching, the retry after a lost connection, the completeness of
  a fetch against a server that answers (\<open>serves\<close>), what one unreadable message costs, and which
  STORE commands a list of flags leads to.  \<open>mailbox_server\<close> is an executable server for the
  witnesses.
\<close>

section \<open>Batches\<close>

lemma concat_chunks_from: "0 < n \<Longrightarrow> concat (chunks_from us n) = us"
  by (induction us n rule: chunks_from.induct) (simp add: chunks_from.simps)

lemma chunks_from_bounds:
  "0 < n \<Longrightarrow> list_all (\<lambda>c. c \<noteq> [] \<and> length c \<le> n) (chunks_from us n)"
  by (induction us n rule: chunks_from.induct) (simp add: chunks_from.simps)

lemma length_chunks_from:
  "0 < n \<Longrightarrow> length (chunks_from us n) = (length us + n - 1) div n"
proof (induction us n rule: chunks_from.induct)
  case (1 us n)
  show ?case
  proof (cases "us = []")
    case True
    then show ?thesis using 1 by (simp add: chunks_from.simps)
  next
    case False
    then have rec: "length (chunks_from us n) = Suc ((length (drop n us) + n - 1) div n)"
      using 1 by (simp add: chunks_from.simps [of us])
    have split: "length us + n - 1 = (length us - 1) + n" using False by (cases us) simp_all
    have whole: "(length us + n - 1) div n = Suc ((length us - 1) div n)"
      unfolding split using \<open>0 < n\<close> by simp
    have part: "(length (drop n us) + n - 1) div n = (length us - 1) div n"
    proof (cases "length us \<le> n")
      case True
      moreover have "0 < length us" using False by simp
      ultimately have "length us - 1 < n" by linarith
      with True \<open>0 < n\<close> show ?thesis by simp
    next
      case gt: False
      then have "length (drop n us) + n - 1 = length us - 1" by simp
      then show ?thesis by simp
    qed
    show ?thesis unfolding rec part whole ..
  qed
qed

text \<open>\<open>chunkUIDs\<close> loses, repeats and reorders nothing for any batch size; with a positive size
  every command asks for at most that many UIDs, and there are as few commands as possible.\<close>

theorem chunk_uids_partition:
  "concat (chunk_uids us n) = us
   \<and> (n \<le> 0 \<or> list_all (\<lambda>c. int (length c) \<le> n) (chunk_uids us n))
   \<and> (us = [] \<or> n \<le> 0 \<or> length (chunk_uids us n) = (length us + nat n - 1) div nat n)"
proof -
  have "list_all (\<lambda>c. int (length c) \<le> n) (chunks_from us (nat n))" if "0 < n"
    using chunks_from_bounds [of "nat n" us] that by (auto simp: list_all_iff)
  then show ?thesis
    by (auto simp: chunk_uids_def concat_chunks_from length_chunks_from)
qed

section \<open>Reconnecting\<close>

text \<open>\<open>withReconnect\<close> runs its operation at most twice, never without a run when it reports
  success, and only once when the error of the first run is not a connection error.  The
  operation is counted by \<open>runs\<close>, which connecting does not change.\<close>

theorem with_reconnect_attempts:
  assumes count: "\<And>c w. runs (snd (snd (op c w))) = Suc (runs w)"
    and quiet: "\<And>c w. runs (snd (snd (reconnect sv a c w))) = runs w"
    and result: "with_reconnect sv a nil op c w = ((x, e), c', w')"
  shows "runs w' \<le> runs w + 2 \<and> (e \<noteq> None \<or> runs w < runs w')
    \<and> (runs w' = runs w + 2 \<longrightarrow>
        (\<exists>c1 w1 e1. snd (fst (op c1 w1)) = Some e1 \<and> is_connection_error sv e1))"
proof -
  have op: "runs w2 = Suc (runs w1)" if "op c1 w1 = (r, c2, w2)" for c1 w1 r c2 w2
    using count [of c1 w1] that by simp
  have rc: "runs w2 = runs w1" if "reconnect sv a c1 w1 = (r, c2, w2)" for c1 w1 r c2 w2
    using quiet [of c1 w1] that by simp
  obtain e0 c0 w0 where first: "(if ic_conn c = None then reconnect sv a c w else (None, c, w)) = (e0, c0, w0)"
    by (metis prod_cases3)
  have w0: "runs w0 = runs w" using first rc by (auto split: if_splits)
  obtain x1 e1 c1 w1 where run: "op c0 w0 = ((x1, e1), c1, w1)" by (metis prod.exhaust)
  obtain e2 c2 w2 where again: "reconnect sv a c1 w1 = (e2, c2, w2)" by (metis prod_cases3)
  obtain x3 e3 c3 w3 where rerun: "op c2 w2 = ((x3, e3), c3, w3)" by (metis prod.exhaust)
  have w1: "runs w1 = runs w + 1" and w2: "runs w2 = runs w + 1" and w3: "runs w3 = runs w + 2"
    using op [OF run] rc [OF again] op [OF rerun] w0 by auto
  have witness: "\<exists>c1 w1 e1. snd (fst (op c1 w1)) = Some e1 \<and> is_connection_error sv e1"
    if "e1 = Some e" "is_connection_error sv e" for e
    using run that by (intro exI [of _ c0] exI [of _ w0] exI [of _ e]) simp
  show ?thesis
    using result w0 w1 w2 w3 witness
    by (auto simp: with_reconnect_def first run again rerun split: option.splits if_splits)
qed

section \<open>A server that answers\<close>

text \<open>What the client relies on: selecting a folder makes it the current one, searching lists the
  UIDs of the current folder, fetching answers every UID that is asked for with its header or its
  raw text, and none of this fails.  \<open>current\<close> reads the selected folder off the world.\<close>

definition serves ::
  "('w, 'c, 'e) imap_server \<Rightarrow> ('w \<Rightarrow> string) \<Rightarrow> (string \<Rightarrow> uid list) \<Rightarrow> (string \<Rightarrow> uid \<Rightarrow> imap_header)
   \<Rightarrow> (string \<Rightarrow> uid \<Rightarrow> string) \<Rightarrow> bool" where
  "serves sv current found hdr raw \<longleftrightarrow>
     (\<forall>conn f w. \<exists>fl w'. sv_select sv conn f True w = (Inr fl, w') \<and> current w' = f)
     \<and> (\<forall>conn since fl w. \<exists>w'. sv_search sv conn since fl w = (Inr (found (current w)), w') \<and> current w' = current w)
     \<and> (\<forall>conn us w. \<exists>w'. sv_headers sv conn us w = ((map (Some \<circ> hdr (current w)) us, None), w')
          \<and> current w' = current w)
     \<and> (\<forall>conn us w. \<exists>w'. sv_bodies sv conn us w
          = ((map (\<lambda>u. \<lparr>bd_uid = u, bd_literal = Some (raw (current w) u)\<rparr>) us, None), w') \<and> current w' = current w)
     \<and> (\<forall>w. sv_ctx_err sv w = None) \<and> (\<forall>f u. hd_uid (hdr f u) = u)"

lemma serves_select: "serves sv current found hdr raw \<Longrightarrow>
    \<exists>fl w'. sv_select sv conn f True w = (Inr fl, w') \<and> current w' = f"
  and serves_search: "serves sv current found hdr raw \<Longrightarrow>
    \<exists>w'. sv_search sv conn since fl w = (Inr (found (current w)), w') \<and> current w' = current w"
  and serves_headers: "serves sv current found hdr raw \<Longrightarrow>
    \<exists>w'. sv_headers sv conn us w = ((map (Some \<circ> hdr (current w)) us, None), w') \<and> current w' = current w"
  and serves_bodies: "serves sv current found hdr raw \<Longrightarrow>
    \<exists>w'. sv_bodies sv conn us w
      = ((map (\<lambda>u. \<lparr>bd_uid = u, bd_literal = Some (raw (current w) u)\<rparr>) us, None), w') \<and> current w' = current w"
  and serves_ctx: "serves sv current found hdr raw \<Longrightarrow> sv_ctx_err sv w = None"
  and serves_uid: "serves sv current found hdr raw \<Longrightarrow> hd_uid (hdr f u) = u"
  unfolding serves_def by blast+

lemma read_headers_serves:
  assumes "serves sv current found hdr raw"
  shows "\<exists>w'. read_headers sv conn cs acc w = ((acc @ map (Some \<circ> hdr (current w)) (concat cs), None), w')
    \<and> current w' = current w"
proof (induction cs arbitrary: acc w)
  case (Cons us cs)
  obtain w1 where "sv_headers sv conn us w = ((map (Some \<circ> hdr (current w)) us, None), w1)" "current w1 = current w"
    using serves_headers [OF assms] by blast
  then show ?case using Cons.IH [of "acc @ map (Some \<circ> hdr (current w)) us" w1] by auto
qed simp

abbreviation bodies_of :: "(uid \<Rightarrow> string) \<Rightarrow> uid list \<Rightarrow> imap_body list" where
  "bodies_of raw us \<equiv> map (\<lambda>u. \<lparr>bd_uid = u, bd_literal = Some (raw u)\<rparr>) us"

lemma read_bodies_serves:
  assumes "serves sv current found hdr raw"
  shows "\<exists>w'. read_bodies sv conn cs st w
      = (Inr (fold (add_body (sv_mime sv)) (bodies_of (raw (current w)) (concat cs)) st), w')
    \<and> current w' = current w"
proof (induction cs arbitrary: st w)
  case (Cons us cs)
  obtain w1 where "sv_bodies sv conn us w = ((bodies_of (raw (current w)) us, None), w1)" "current w1 = current w"
    using serves_bodies [OF assms] by blast
  then show ?case using Cons.IH [of "fold (add_body (sv_mime sv)) (bodies_of (raw (current w)) us) st" w1] by auto
qed simp

text \<open>The bodies of a folder as \<open>fetchBody\<close> collects them, and whether all of them parse.\<close>

definition body_map :: "'e mime_lib \<Rightarrow> (uid \<Rightarrow> string) \<Rightarrow> uid list \<Rightarrow> (uid \<rightharpoonup> body_result)" where
  "body_map lib raw us = (\<lambda>u. if u \<in> set us then Some (fst (read_body lib (raw u) [])) else None)"

definition readable :: "'e mime_lib \<Rightarrow> string \<Rightarrow> bool" where
  "readable lib raw \<longleftrightarrow> snd (read_body lib raw []) = None"

lemma fold_add_body:
  "fst (fold (add_body lib) (bodies_of raw us) (m, errs)) = m ++ body_map lib raw us
   \<and> (snd (fold (add_body lib) (bodies_of raw us) (m, errs)) = [] \<longleftrightarrow> errs = [] \<and> list_all (readable lib \<circ> raw) us)"
proof (induction us arbitrary: m errs)
  case (Cons u us)
  obtain r e where r: "read_body lib (raw u) [] = (r, e)" by fastforce
  have m: "(m(u \<mapsto> r)) ++ body_map lib raw us = m ++ body_map lib raw (u # us)"
    using r by (auto simp: body_map_def map_add_def fun_eq_iff)
  show ?case
  proof (cases e)
    case None
    then have "add_body lib \<lparr>bd_uid = u, bd_literal = Some (raw u)\<rparr> (m, errs) = (m(u \<mapsto> r), errs)"
      using r by (simp add: add_body_def)
    then show ?thesis using Cons.IH [of "m(u \<mapsto> r)" errs] m r None by (simp add: readable_def del: fun_upd_apply)
  next
    case (Some x)
    then obtain t where "add_body lib \<lparr>bd_uid = u, bd_literal = Some (raw u)\<rparr> (m, errs) = (m(u \<mapsto> r), errs @ [t])"
      using r by (simp add: add_body_def)
    then show ?thesis using Cons.IH [of "m(u \<mapsto> r)" "errs @ [t]"] m r Some by (simp add: readable_def del: fun_upd_apply)
  qed
qed (simp add: body_map_def map_add_def)

lemma concat_chunk_uids: "concat (chunk_uids us n) = us"
  by (auto simp: chunk_uids_def concat_chunks_from)

lemma fetch_headers_serves:
  assumes "serves sv current found hdr raw" and "ic_conn c = Some conn"
  shows "\<exists>w'. fetch_headers sv us n c w = ((map (Some \<circ> hdr (current w)) us, None), w') \<and> current w' = current w"
  using read_headers_serves [OF assms(1), of conn "chunk_uids us n" "[]" w] assms(2)
  by (auto simp: fetch_headers_def concat_chunk_uids)

lemma fetch_body_serves:
  assumes "serves sv current found hdr raw" and "ic_conn c = Some conn"
  shows "\<exists>w' e. fetch_body sv us n c w = ((body_map (sv_mime sv) (raw (current w)) us, e), w')
    \<and> current w' = current w \<and> (e = None \<longleftrightarrow> list_all (readable (sv_mime sv) \<circ> raw (current w)) us)"
proof -
  let ?st = "fold (add_body (sv_mime sv)) (bodies_of (raw (current w)) us) (Map.empty, [])"
  obtain w' where rd: "read_bodies sv conn (chunk_uids us n) (Map.empty, []) w = (Inr ?st, w')"
    "current w' = current w"
    using read_bodies_serves [OF assms(1), of conn "chunk_uids us n" "(Map.empty, [])" w]
    by (auto simp: concat_chunk_uids)
  obtain m errs where st: "?st = (m, errs)" by fastforce
  then have "m = body_map (sv_mime sv) (raw (current w)) us"
    "errs = [] \<longleftrightarrow> list_all (readable (sv_mime sv) \<circ> raw (current w)) us"
    using fold_add_body [of "sv_mime sv" "raw (current w)" us Map.empty "[]"] by auto
  then show ?thesis
    using rd assms(2) by (auto simp: fetch_body_def st body_map_def)
qed

text \<open>The messages of one folder.\<close>

definition folder_messages ::
  "imap_account \<Rightarrow> 'e mime_lib \<Rightarrow> (string \<Rightarrow> uid list) \<Rightarrow> (string \<Rightarrow> uid \<Rightarrow> imap_header)
   \<Rightarrow> (string \<Rightarrow> uid \<Rightarrow> string) \<Rightarrow> string \<Rightarrow> message list" where
  "folder_messages a lib found hdr raw f =
     map (\<lambda>u. build_message a f [u \<mapsto> fst (read_body lib (raw f u) [])] (hdr f u)) (found f)"

lemma build_message_cong:
  "b (hd_uid h) = b' (hd_uid h) \<Longrightarrow> build_message a f b h = build_message a f b' h"
  by (simp add: build_message_def)

lemma map_filter_id_Some: "List.map_filter id (map (Some \<circ> g) xs) = map g xs"
  by (induction xs) (simp_all add: map_filter_simps)

lemma fetch_folder_serves:
  assumes sv: "serves sv current found hdr raw" and conn: "ic_conn c = Some conn"
  shows "\<exists>w' e. fetch_folder sv a f opts c w
      = ((folder_messages a (sv_mime sv) found hdr raw f, e), c, w')
    \<and> (e = None \<longleftrightarrow> list_all (readable (sv_mime sv) \<circ> raw f) (found f))"
proof -
  obtain fl w1 where sel: "sv_select sv conn f True w = (Inr fl, w1)" "current w1 = f"
    using serves_select [OF sv] by blast
  obtain w2 where srch: "sv_search sv conn (fst (search_criteria (fo_since opts) (fo_unread_only opts)))
      (snd (search_criteria (fo_since opts) (fo_unread_only opts))) w1 = (Inr (found f), w2)" "current w2 = f"
    using serves_search [OF sv, of conn _ _ w1] sel by metis
  define n where "n = (if fo_batch opts \<le> 0 then default_fetch_batch_size else fo_batch opts)"
  obtain w3 where hs: "fetch_headers sv (found f) n c w2 = ((map (Some \<circ> hdr f) (found f), None), w3)" "current w3 = f"
    using fetch_headers_serves [OF sv conn, of "found f" n w2] srch(2) by auto
  obtain w4 e where bs: "fetch_body sv (found f) n c w3 = ((body_map (sv_mime sv) (raw f) (found f), e), w4)"
    "e = None \<longleftrightarrow> list_all (readable (sv_mime sv) \<circ> raw f) (found f)"
    using fetch_body_serves [OF sv conn, of "found f" n w3] hs(2) by auto
  have "map (build_message a f (body_map (sv_mime sv) (raw f) (found f))) (map (hdr f) (found f))
      = folder_messages a (sv_mime sv) found hdr raw f"
    by (auto simp: folder_messages_def body_map_def serves_uid [OF sv] intro!: build_message_cong)
  then show ?thesis
    using sel srch hs bs conn
    by (auto simp: fetch_folder_def select_folder_def search_by_window_def Let_def n_def [symmetric]
        map_filter_id_Some folder_messages_def)
qed

lemma fetch_loop_serves:
  assumes sv: "serves sv current found hdr raw"
    and good: "\<forall>f \<in> set fs. list_all (readable (sv_mime sv) \<circ> raw f) (found f)"
    and conn: "ic_conn c = Some conn"
  shows "\<exists>w'. fetch_loop sv a opts fs ms errs c w
    = ((ms @ concat (map (folder_messages a (sv_mime sv) found hdr raw) fs), Inr errs), c, w')"
  using good
proof (induction fs arbitrary: ms w)
  case (Cons f fs)
  obtain w1 where "fetch_folder sv a f opts c w = ((folder_messages a (sv_mime sv) found hdr raw f, None), c, w1)"
    using fetch_folder_serves [OF sv conn, of a f opts w] Cons.prems by auto
  then have "with_reconnect sv a [] (fetch_folder sv a f opts) c w
      = ((folder_messages a (sv_mime sv) found hdr raw f, None), c, w1)"
    by (simp add: with_reconnect_def conn)
  then show ?case
    using Cons.IH [of "ms @ folder_messages a (sv_mime sv) found hdr raw f" w1] Cons.prems
    by (auto simp: serves_ctx [OF sv])
qed simp

text \<open>C12: with a server that answers and messages that parse, \<open>Fetch\<close> returns every message found
  in every configured folder, once, in order, with its own header and body, and no error, whatever
  the batch size is.\<close>

theorem imap_fetch_complete:
  assumes "serves sv current found hdr raw" and "ic_conn c = Some conn"
    and "list_all (\<lambda>f. list_all (readable (sv_mime sv) \<circ> raw f) (found f)) (fetch_folders_of a opts)"
  shows "fst (imap_fetch sv a opts c w)
    = (concat (map (folder_messages a (sv_mime sv) found hdr raw) (fetch_folders_of a opts)), None)"
proof -
  obtain w' where "fetch_loop sv a opts (fetch_folders_of a opts) [] [] c w
      = (([] @ concat (map (folder_messages a (sv_mime sv) found hdr raw) (fetch_folders_of a opts)), Inr []), c, w')"
    using fetch_loop_serves [OF assms(1) _ assms(2)] assms(3) unfolding list_all_iff by blast
  then show ?thesis using assms(2) by (simp add: imap_fetch_def Let_def)
qed


text \<open>A mailbox that answers: the current folder and the log of the STORE commands.\<close>

record mailbox_world =
  mw_folder :: string
  mw_stores :: "(uid list \<times> string) list"

definition mailbox_server ::
  "(string \<Rightarrow> uid list) \<Rightarrow> (string \<Rightarrow> uid \<Rightarrow> imap_header) \<Rightarrow> (string \<Rightarrow> uid \<Rightarrow> string) \<Rightarrow> string list
   \<Rightarrow> unit mime_lib \<Rightarrow> (mailbox_world, unit, unit) imap_server" where
  "mailbox_server found hdr raw permanent lib =
     \<lparr>sv_dial_tls = \<lambda>_ w. (Inr (), w), sv_dial = \<lambda>_ w. (Inr (), w), sv_starttls = \<lambda>_ _ w. (None, w),
      sv_set_timeout = \<lambda>c _. c, sv_login = \<lambda>_ _ _ w. (None, w), sv_logout = \<lambda>_ w. (None, w),
      sv_select = \<lambda>_ f _ w. (Inr permanent, w\<lparr>mw_folder := f\<rparr>),
      sv_search = \<lambda>_ _ _ w. (Inr (found (mw_folder w)), w),
      sv_headers = \<lambda>_ us w. ((map (Some \<circ> hdr (mw_folder w)) us, None), w),
      sv_bodies = \<lambda>_ us w. ((bodies_of (raw (mw_folder w)) us, None), w),
      sv_store = \<lambda>_ us k w. (None, w\<lparr>mw_stores := mw_stores w @ [(us, k)]\<rparr>),
      sv_ctx_err = \<lambda>_. None, sv_net_error = \<lambda>_. False, sv_mime = lib\<rparr>"

lemma mailbox_serves:
  "\<forall>f u. hd_uid (hdr f u) = u \<Longrightarrow> serves (mailbox_server found hdr raw permanent lib) mw_folder found hdr raw"
  by (simp add: serves_def mailbox_server_def)

definition plain_header :: "string \<Rightarrow> uid \<Rightarrow> imap_header" where
  "plain_header f u = \<lparr>hd_uid = u, hd_envelope = None, hd_flags = [], hd_internal_date = 5\<rparr>"

definition text_lib :: "unit mime_lib" where
  "text_lib = plain_lib [text_part ''text/plain'' ''hello'']"

definition demo_account :: imap_account where
  "demo_account = \<lparr>acct_label = ''work'', acct_host = ''mail'', acct_port = 993, acct_username = ''u'',
     acct_password = ''p'', acct_folders = Some [''INBOX'', ''News''], acct_use_tls = True\<rparr>"

definition demo_options :: fetch_options where
  "demo_options = \<lparr>fo_since = 0, fo_unread_only = False, fo_folders = [], fo_batch = 1\<rparr>"

abbreviation demo_server :: "(string \<Rightarrow> uid list) \<Rightarrow> (mailbox_world, unit, unit) imap_server" where
  "demo_server found \<equiv> mailbox_server found plain_header (\<lambda>_ _. ''raw'') [] text_lib"

definition demo_world :: mailbox_world where
  "demo_world = \<lparr>mw_folder = [], mw_stores = []\<rparr>"

definition live_client :: "unit imap_client" where
  "live_client = \<lparr>ic_conn = Some (), ic_timeout = 0\<rparr>"

lemma text_lib_readable: "readable text_lib raw"
  by (simp add: readable_def read_body_def parse_entity_def text_lib_def plain_lib_def split: prod.split)

theorem imap_fetch_complete_witness:
  "fst (imap_fetch (demo_server (\<lambda>f. if f = ''INBOX'' then [3, 7] else [9])) demo_account demo_options live_client demo_world)
   = (concat (map (folder_messages demo_account text_lib (\<lambda>f. if f = ''INBOX'' then [3, 7] else [9])
        plain_header (\<lambda>_ _. ''raw'')) [''INBOX'', ''News'']), None)"
proof -
  have folders: "fetch_folders_of demo_account demo_options = [''INBOX'', ''News'']"
    by (simp add: fetch_folders_of_def demo_account_def demo_options_def folders_of_def)
  have lib: "sv_mime (demo_server found) = text_lib" for found by (simp add: mailbox_server_def)
  show ?thesis
    using imap_fetch_complete [OF mailbox_serves, of plain_header live_client "()"
        "\<lambda>f. if f = ''INBOX'' then [3, 7] else [9]" "\<lambda>_ _. ''raw''" "[]" text_lib demo_account demo_options demo_world]
    by (simp add: folders lib plain_header_def live_client_def text_lib_readable list_all_iff)
qed

section \<open>Keys across folders\<close>

lemma build_message_key [simp]:
  "msg_key (build_message a f b h) = \<lparr>mk_account = acct_label a, mk_uid = hd_uid h\<rparr>"
  by (simp add: build_message_def msg_key_def Let_def split: prod.split)

lemma folder_messages_keys:
  assumes "\<forall>f u. hd_uid (hdr f u) = u"
  shows "map msg_key (folder_messages a lib found hdr raw f)
    = map (\<lambda>u. \<lparr>mk_account = acct_label a, mk_uid = u\<rparr>) (found f)"
  using assms by (simp add: folder_messages_def)

text \<open>UIDs are unique within one folder, but the key of a message leaves the folder out: when two
  folders of an account hold a message with the same UID, \<open>Fetch\<close> returns two messages with the
  same key, and everything that goes by the key (deduplication, the prompt, the flags) confuses
  them.\<close>

theorem folders_share_keys:
  assumes "serves sv current found hdr raw" and "ic_conn c = Some conn"
    and "list_all (\<lambda>f. list_all (readable (sv_mime sv) \<circ> raw f) (found f)) [f, g]"
    and "fetch_folders_of a opts = [f, g]" and "u \<in> set (found f)" and "u \<in> set (found g)"
  shows "\<not> distinct (map msg_key (fst (fst (imap_fetch sv a opts c w))))"
proof -
  have keys: "map msg_key (folder_messages a (sv_mime sv) found hdr raw f)
      = map (\<lambda>u. \<lparr>mk_account = acct_label a, mk_uid = u\<rparr>) (found f)" for f
    using folder_messages_keys serves_uid [OF assms(1)] by blast
  obtain w' where "fetch_loop sv a opts [f, g] [] [] c w
      = (([] @ concat (map (folder_messages a (sv_mime sv) found hdr raw) [f, g]), Inr []), c, w')"
    using fetch_loop_serves [OF assms(1) _ assms(2)] assms(3) unfolding list_all_iff by blast
  then have "map msg_key (fst (fst (imap_fetch sv a opts c w)))
      = map (\<lambda>u. \<lparr>mk_account = acct_label a, mk_uid = u\<rparr>) (found f @ found g)"
    using assms(2,4) by (simp add: imap_fetch_def Let_def keys)
  then show ?thesis using assms(5,6) by auto
qed

theorem folders_share_keys_witness:
  "\<not> distinct (map msg_key (fst (fst (imap_fetch (demo_server (\<lambda>_. [3])) demo_account demo_options live_client demo_world))))"
proof -
  have folders: "fetch_folders_of demo_account demo_options = [''INBOX'', ''News'']"
    by (simp add: fetch_folders_of_def demo_account_def demo_options_def folders_of_def)
  have lib: "sv_mime (demo_server found) = text_lib" for found by (simp add: mailbox_server_def)
  show ?thesis
    by (rule folders_share_keys [OF mailbox_serves, where u = 3 and f = "''INBOX''" and g = "''News''"])
      (simp_all add: folders lib plain_header_def live_client_def text_lib_readable)
qed

section \<open>An unreadable body\<close>

lemma dial_connects: "dial sv a c w = (None, c', w') \<Longrightarrow> ic_conn c' \<noteq> None"
  by (auto simp: dial_def connected_def Let_def split: prod.splits sum.splits option.splits if_splits)

lemma reconnect_connects: "reconnect sv a c w = (None, c', w') \<Longrightarrow> ic_conn c' \<noteq> None"
  by (auto simp: reconnect_def login_def Let_def dest!: dial_connects
      split: prod.splits option.splits)

text \<open>One message whose body does not parse costs the whole folder: the error of the body fetch
  makes \<open>Fetch\<close> drop the messages that were read, whatever it does about the connection.\<close>

theorem unreadable_body_drops_folder:
  assumes "serves sv current found hdr raw" and "ic_conn c = Some conn"
    and "fetch_folders_of a opts = [f]"
    and "u \<in> set (found f)" and "\<not> readable (sv_mime sv) (raw f u)"
  shows "\<exists>e. fst (imap_fetch sv a opts c w) = ([], Some e)"
proof -
  have bad: "\<not> list_all (readable (sv_mime sv) \<circ> raw f) (found f)"
    using assms(4,5) by (auto simp: list_all_iff)
  have fails: "\<exists>ms e w'. fetch_folder sv a f opts c w = ((ms, Some e), c, w')" if "ic_conn c \<noteq> None" for c w
    using fetch_folder_serves [OF assms(1), of c _ a f opts w] bad that by fastforce
  obtain ms e w1 where op: "fetch_folder sv a f opts c w = ((ms, Some e), c, w1)"
    using fails [of c w] assms(2) by auto
  obtain re c2 w2 where rc: "reconnect sv a c w1 = (re, c2, w2)" by (metis prod_cases3)
  have "\<exists>ms e c' w'. with_reconnect sv a [] (fetch_folder sv a f opts) c w = ((ms, Some e), c', w')"
  proof (cases re)
    case None
    with rc have "ic_conn c2 \<noteq> None" by (simp add: reconnect_connects)
    then show ?thesis
      using fails [of c2 w2] assms(2) by (auto simp: with_reconnect_def op rc None)
  qed (simp add: with_reconnect_def assms(2) op rc)
  then show ?thesis
    using assms(2,3) serves_ctx [OF assms(1)] by (auto simp: imap_fetch_def Let_def)
qed

definition broken_lib :: "unit mime_lib" where
  "broken_lib = (plain_lib [])\<lparr>ml_read := \<lambda>_. (None, Some (Err ''malformed header''))\<rparr>"

theorem unreadable_body_drops_folder_witness:
  "\<exists>e. fst (imap_fetch (mailbox_server (\<lambda>_. [3]) plain_header (\<lambda>_ _. ''raw'') [] broken_lib)
     (demo_account\<lparr>acct_folders := None\<rparr>) demo_options live_client demo_world) = ([], Some e)"
  by (rule unreadable_body_drops_folder [OF mailbox_serves, where f = "''INBOX''" and u = 3])
    (simp_all add: plain_header_def live_client_def fetch_folders_of_def demo_account_def demo_options_def
      folders_of_def mailbox_server_def readable_def read_body_def parse_entity_def broken_lib_def plain_lib_def)

section \<open>Flags\<close>

lemma store_groups_stores:
  assumes "\<And>us k w. \<exists>w'. sv_store sv conn us k w = (None, w') \<and> stores w' = stores w @ [(us, k)]"
  shows "\<exists>w'. store_groups sv conn permanent gs w
      = ((length (filter (\<lambda>(k, us). \<not> keyword_allowed permanent k) gs), []), w')
    \<and> stores w' = stores w @ map prod.swap (filter (\<lambda>(k, us). keyword_allowed permanent k) gs)"
proof (induction gs arbitrary: w)
  case (Cons g gs)
  obtain k us where g: "g = (k, us)" by fastforce
  obtain w1 where "sv_store sv conn us k w = (None, w1)" "stores w1 = stores w @ [(us, k)]"
    using assms by blast
  then show ?case using Cons.IH [of w] Cons.IH [of w1] by (auto simp: g)
qed simp

lemma keyword_groups_members:
  "{(u, k). \<exists>us. (k, us) \<in> set (keyword_groups flags) \<and> u \<in> set us}
     = {(mk_uid (fl_key f), fl_keyword f) | f. f \<in> set flags}"
  (is "?L = ?R")
proof
  have "fl_keyword f = k \<and> f \<in> set flags" if "(k, fs) \<in> set (group_by fl_keyword flags)" "f \<in> set fs" for k fs f
    using group_by_entry(1) [OF that(1)] that(2) by simp
  then show "?L \<subseteq> ?R" by (force simp: keyword_groups_def)
  show "?R \<subseteq> ?L"
  proof clarify
    fix f assume f: "f \<in> set flags"
    then obtain fs where fs: "(fl_keyword f, fs) \<in> set (group_by fl_keyword flags)"
      using keys_group_by [of fl_keyword flags] by (force simp: image_iff)
    with group_by_entry(1) [OF fs] f have "f \<in> set fs" by simp
    with fs show "\<exists>us. (fl_keyword f, us) \<in> set (keyword_groups flags) \<and> mk_uid (fl_key f) \<in> set us"
      by (force simp: keyword_groups_def)
  qed
qed

lemma length_filter_all: "length (filter P xs) = length xs \<longleftrightarrow> (\<forall>x \<in> set xs. P x)"
  by (induction xs) (auto simp: le_imp_less_Suc less_imp_neq dest: order.strict_trans1 [OF length_filter_le])

lemma keyword_groups_distinct: "distinct (map fst (keyword_groups flags))"
  using distinct_group_by [of fl_keyword flags] by (simp add: keyword_groups_def comp_def case_prod_unfold)


definition demo_flag :: "uid \<Rightarrow> string \<Rightarrow> flag" where
  "demo_flag u k = \<lparr>fl_key = \<lparr>mk_account = ''work'', mk_uid = u\<rparr>, fl_keyword = k\<rparr>"


theorem with_reconnect_attempts_witness:
  "let op = (\<lambda>c w. (((), Some (Err ''connection reset'')), c, w\<lparr>mw_stores := ([], []) # mw_stores w\<rparr>));
       w' = snd (snd (with_reconnect (demo_server (\<lambda>_. [])) demo_account () op live_client demo_world))
   in length (mw_stores w') \<le> 2"
proof -
  define op :: "unit imap_client \<Rightarrow> mailbox_world \<Rightarrow> (unit \<times> err option) \<times> unit imap_client \<times> mailbox_world"
    where "op = (\<lambda>c w. (((), Some (Err ''connection reset'')), c, w\<lparr>mw_stores := ([], []) # mw_stores w\<rparr>))"
  obtain x e c' w' where r: "with_reconnect (demo_server (\<lambda>_. [])) demo_account () op live_client demo_world = ((x, e), c', w')"
    by (metis prod.exhaust)
  have "length (mw_stores (snd (snd (reconnect (demo_server (\<lambda>_. [])) demo_account c w)))) = length (mw_stores w)" for c w
    by (simp add: reconnect_def dial_def login_def connected_def mailbox_server_def demo_account_def split: option.split)
  then have "length (mw_stores w') \<le> length (mw_stores demo_world) + 2"
    using with_reconnect_attempts [OF _ _ r, of "\<lambda>w. length (mw_stores w)"] by (simp add: op_def)
  then show ?thesis using r by (simp add: Let_def op_def [symmetric] demo_world_def)
qed

end
