(* ===== verification/Pool.thy ===== *)
theory Pool
  imports ImapProps
begin

text \<open>
  \<open>internal/mail/pool.go\<close>: fetching all accounts at once, and the helpers around it.  \<open>FetchAll\<close> is
  a step relation: the loop starts the tasks in the order of the accounts and blocks at the limit of
  the group; a started task looks at the context and then either records the cancellation or fetches
  and records what it got; the context may be cancelled at any time, and a fetch that was running
  then may return anything (\<open>finish_late\<close>).  Each task writes its own entry
  of the result slice.
\<close>

section \<open>FetchAll\<close>

record fetch_result =
  ft_account :: imap_account
  ft_messages :: "message list"
  ft_err :: "err option"

text \<open>What the task of one account records: without the context being cancelled and with it.
  \<open>fetch\<close> is the call of the account's ingester.\<close>

definition task_result ::
  "(string \<rightharpoonup> (imap_account \<Rightarrow> message list \<times> err option)) \<Rightarrow> imap_account \<Rightarrow> fetch_result" where
  "task_result ingesters a =
     (case ingesters (acct_label a) of
        None \<Rightarrow> \<lparr>ft_account = a, ft_messages = [],
                 ft_err = Some (Err (''fetch_all: '' @ acct_label a @ '': no ingester registered''))\<rparr>
      | Some fetch \<Rightarrow> \<lparr>ft_account = a, ft_messages = fst (fetch a), ft_err = snd (fetch a)\<rparr>)"

definition cancelled_result :: "err \<Rightarrow> imap_account \<Rightarrow> fetch_result" where
  "cancelled_result e a = \<lparr>ft_account = a, ft_messages = [],
     ft_err = Some (Wrap (''fetch_all: '' @ acct_label a @ '': '') e)\<rparr>"

definition effective_limit :: "int \<Rightarrow> nat" where
  "effective_limit max_concurrent = (if max_concurrent \<le> 0 then 1 else nat max_concurrent)"

text \<open>The state of a call: the index of the next account to start, the tasks that have started and
  not yet looked at the context, those that are fetching, the entries written, and \<open>ctx.Err()\<close>.\<close>

record fetch_state =
  fs_next :: nat
  fs_started :: "nat list"
  fs_fetching :: "nat list"
  fs_results :: "fetch_result option list"
  fs_ctx :: "err option"

definition fetch_init :: "imap_account list \<Rightarrow> fetch_state" where
  "fetch_init accts = \<lparr>fs_next = 0, fs_started = [], fs_fetching = [],
     fs_results = replicate (length accts) None, fs_ctx = None\<rparr>"

definition running :: "fetch_state \<Rightarrow> nat" where
  "running s = length (fs_started s) + length (fs_fetching s)"

inductive fetch_step ::
  "imap_account list \<Rightarrow> (string \<rightharpoonup> (imap_account \<Rightarrow> message list \<times> err option)) \<Rightarrow> nat
   \<Rightarrow> fetch_state \<Rightarrow> fetch_state \<Rightarrow> bool"
  for accts ingesters limit where
  start: "\<lbrakk>fs_next s < length accts; running s < limit\<rbrakk> \<Longrightarrow>
    fetch_step accts ingesters limit s
      (s\<lparr>fs_next := Suc (fs_next s), fs_started := fs_started s @ [fs_next s]\<rparr>)"
| give_up: "\<lbrakk>i \<in> set (fs_started s); fs_ctx s = Some e\<rbrakk> \<Longrightarrow>
    fetch_step accts ingesters limit s
      (s\<lparr>fs_started := remove1 i (fs_started s),
         fs_results := (fs_results s)[i := Some (cancelled_result e (accts ! i))]\<rparr>)"
| go_on: "\<lbrakk>i \<in> set (fs_started s); fs_ctx s = None\<rbrakk> \<Longrightarrow>
    fetch_step accts ingesters limit s
      (s\<lparr>fs_started := remove1 i (fs_started s), fs_fetching := fs_fetching s @ [i]\<rparr>)"
| finish: "i \<in> set (fs_fetching s) \<Longrightarrow>
    fetch_step accts ingesters limit s
      (s\<lparr>fs_fetching := remove1 i (fs_fetching s),
         fs_results := (fs_results s)[i := Some (task_result ingesters (accts ! i))]\<rparr>)"
| finish_late: "\<lbrakk>i \<in> set (fs_fetching s); fs_ctx s = Some e; ingesters (acct_label (accts ! i)) \<noteq> None\<rbrakk> \<Longrightarrow>
    fetch_step accts ingesters limit s
      (s\<lparr>fs_fetching := remove1 i (fs_fetching s),
         fs_results := (fs_results s)[i := Some \<lparr>ft_account = accts ! i, ft_messages = ms, ft_err = me\<rparr>]\<rparr>)"
| cancel: "fs_ctx s = None \<Longrightarrow> fetch_step accts ingesters limit s (s\<lparr>fs_ctx := Some e\<rparr>)"

inductive_cases fetch_stepE: "fetch_step accts ingesters limit s s'"

text \<open>The call returns when all tasks were started and none is running.\<close>

definition fetch_done :: "imap_account list \<Rightarrow> fetch_state \<Rightarrow> bool" where
  "fetch_done accts s \<longleftrightarrow> fs_next s = length accts \<and> running s = 0"

section \<open>The result\<close>

definition flatten_messages :: "fetch_result list \<Rightarrow> message list" where
  "flatten_messages rs = concat (map ft_messages (filter (\<lambda>r. ft_err r = None) rs))"

definition filter_already_processed :: "message list \<Rightarrow> (message_key \<rightharpoonup> bool) \<Rightarrow> message list" where
  "filter_already_processed ms processed =
     (if processed = Map.empty then ms else filter (\<lambda>m. processed (msg_key m) \<noteq> Some True) ms)"

definition group_by_account :: "message list \<Rightarrow> (string \<times> message list) list" where
  "group_by_account = group_by msg_account"

definition account_errors :: "fetch_result list \<Rightarrow> string \<rightharpoonup> err" where
  "account_errors rs =
     fold (\<lambda>r m. case ft_err r of None \<Rightarrow> m | Some e \<Rightarrow> m(acct_label (ft_account r) \<mapsto> e)) rs Map.empty"

section \<open>The semaphore\<close>

record semaphore =
  sm_capacity :: nat
  sm_used :: nat

definition new_semaphore :: "int \<Rightarrow> semaphore" where
  "new_semaphore n = \<lparr>sm_capacity = (if n \<le> 0 then 1 else nat n), sm_used = 0\<rparr>"

text \<open>\<^const>\<open>None\<close>: the call blocks.  With a free slot and a context that is cancelled after the first
  test, \<open>select\<close> may take either branch; \<open>late\<close> is the error it sees then.\<close>

definition acquire :: "err option \<Rightarrow> err option \<Rightarrow> bool \<Rightarrow> semaphore \<Rightarrow> (err option \<times> semaphore) option" where
  "acquire ctx late prefer_ctx s =
     (if ctx \<noteq> None then Some (ctx, s)
      else if sm_used s < sm_capacity s \<and> (late = None \<or> \<not> prefer_ctx)
      then Some (None, s\<lparr>sm_used := Suc (sm_used s)\<rparr>)
      else if late \<noteq> None then Some (late, s)
      else None)"

definition release :: "semaphore \<Rightarrow> semaphore option" where
  "release s = (if sm_used s = 0 then None else Some (s\<lparr>sm_used := sm_used s - 1\<rparr>))"

definition semaphore_ok :: "semaphore \<Rightarrow> bool" where
  "semaphore_ok s \<longleftrightarrow> 0 < sm_capacity s \<and> sm_used s \<le> sm_capacity s"

section \<open>The wait group\<close>

text \<open>A negative counter panics (\<^const>\<open>None\<close>).\<close>

definition wg_add :: "int \<Rightarrow> int \<Rightarrow> int option" where
  "wg_add delta n = (if n + delta < 0 then None else Some (n + delta))"

definition wg_done :: "int \<Rightarrow> int option" where
  "wg_done n = wg_add (- 1) n"

text \<open>\<open>Wait\<close> returns nil when the counter is zero and the error of a cancelled context; when both
  hold, \<open>select\<close> picks one, and when neither does it blocks.\<close>

definition wg_wait :: "err option \<Rightarrow> bool \<Rightarrow> int \<Rightarrow> err option option" where
  "wg_wait ctx prefer_ctx n =
     (if n = 0 \<and> (ctx = None \<or> \<not> prefer_ctx) then Some None
      else if ctx \<noteq> None then Some ctx else None)"

section \<open>Invariant of FetchAll\<close>

text \<open>Every index below \<open>fs_next\<close> is in exactly one of the three places: started, fetching, written;
  an entry belongs to its account, and it is what the task records as long as nothing is cancelled.\<close>

definition slot_ok ::
  "imap_account list \<Rightarrow> (string \<rightharpoonup> (imap_account \<Rightarrow> message list \<times> err option)) \<Rightarrow> fetch_state \<Rightarrow> nat \<Rightarrow> bool" where
  "slot_ok accts ingesters s i \<longleftrightarrow>
     (case fs_results s ! i of
        None \<Rightarrow> fs_next s \<le> i \<or> i \<in> set (fs_started s @ fs_fetching s)
      | Some r \<Rightarrow> i < fs_next s \<and> i \<notin> set (fs_started s @ fs_fetching s) \<and> ft_account r = accts ! i
          \<and> (fs_ctx s = None \<longrightarrow> r = task_result ingesters (accts ! i)))"

definition fetch_inv ::
  "imap_account list \<Rightarrow> (string \<rightharpoonup> (imap_account \<Rightarrow> message list \<times> err option)) \<Rightarrow> nat \<Rightarrow> fetch_state \<Rightarrow> bool" where
  "fetch_inv accts ingesters limit s \<longleftrightarrow>
     fs_next s \<le> length accts \<and> length (fs_results s) = length accts \<and> running s \<le> limit
     \<and> distinct (fs_started s @ fs_fetching s) \<and> set (fs_started s @ fs_fetching s) \<subseteq> {..<fs_next s}
     \<and> (\<forall>i < length accts. slot_ok accts ingesters s i)"

lemma task_result_account [simp]: "ft_account (task_result ingesters a) = a"
  by (simp add: task_result_def split: option.split)

lemma fetch_inv_init: "fetch_inv accts ingesters limit (fetch_init accts)"
  by (simp add: fetch_inv_def fetch_init_def running_def slot_ok_def)

lemma running_bound: "fetch_inv accts ingesters limit s \<Longrightarrow> i \<in> set (fs_started s @ fs_fetching s) \<Longrightarrow> i < length accts"
  by (auto simp: fetch_inv_def)

text \<open>A running task writes its entry.\<close>

lemma fetch_inv_write:
  assumes inv: "fetch_inv accts ingesters limit s"
    and i: "i \<in> set (fs_started s @ fs_fetching s)" and r: "ft_account r = accts ! i"
    and ctx: "fs_ctx s = None \<Longrightarrow> r = task_result ingesters (accts ! i)"
  shows "fetch_inv accts ingesters limit
    (s\<lparr>fs_started := remove1 i (fs_started s), fs_fetching := remove1 i (fs_fetching s),
       fs_results := (fs_results s)[i := Some r]\<rparr>)"
    (is "fetch_inv _ _ _ ?s")
proof -
  have len: "i < length accts" using running_bound [OF inv i] .
  have nxt: "i < fs_next s" using inv i by (auto simp: fetch_inv_def)
  have dist: "distinct (fs_started s)" "distinct (fs_fetching s)" using inv by (simp_all add: fetch_inv_def)
  have "slot_ok accts ingesters ?s j" if "j < length accts" for j
  proof (cases "j = i")
    case True
    then show ?thesis using inv nxt len r ctx by (simp add: slot_ok_def dist fetch_inv_def)
  next
    case False
    moreover have "slot_ok accts ingesters s j" using inv that by (simp add: fetch_inv_def)
    ultimately show ?thesis by (simp add: slot_ok_def dist split: option.splits)
  qed
  moreover have "distinct (fs_started ?s @ fs_fetching ?s)" "set (fs_started ?s @ fs_fetching ?s) \<subseteq> {..<fs_next s}"
    using inv dist by (auto simp: fetch_inv_def)
  moreover have "running ?s \<le> running s" by (simp add: running_def add_mono length_remove1)
  ultimately show ?thesis using inv by (simp add: fetch_inv_def)
qed

lemma fetch_inv_move:
  assumes inv: "fetch_inv accts ingesters limit s" and i: "i \<in> set (fs_started s)"
  shows "fetch_inv accts ingesters limit
    (s\<lparr>fs_started := remove1 i (fs_started s), fs_fetching := fs_fetching s @ [i]\<rparr>)" (is "fetch_inv _ _ _ ?s")
proof -
  have dist: "distinct (fs_started s)" using inv by (simp add: fetch_inv_def)
  have same: "set (fs_started ?s @ fs_fetching ?s) = set (fs_started s @ fs_fetching s)" using i dist by auto
  have "length (fs_started s) = Suc (length (remove1 i (fs_started s)))"
    using i length_pos_if_in_set [OF i] by (simp add: length_remove1)
  then have "running ?s = running s" by (simp add: running_def)
  moreover have "distinct (fs_started ?s @ fs_fetching ?s)" using inv i dist by (auto simp: fetch_inv_def)
  moreover have "slot_ok accts ingesters ?s j" if "slot_ok accts ingesters s j" for j
    using that same unfolding slot_ok_def by (simp split: option.splits)
  ultimately show ?thesis using inv same unfolding fetch_inv_def by simp
qed

lemma fetch_inv_start:
  assumes inv: "fetch_inv accts ingesters limit s" and "fs_next s < length accts" and "running s < limit"
  shows "fetch_inv accts ingesters limit
    (s\<lparr>fs_next := Suc (fs_next s), fs_started := fs_started s @ [fs_next s]\<rparr>)" (is "fetch_inv _ _ _ ?s")
proof -
  have below: "set (fs_started s @ fs_fetching s) \<subseteq> {..<fs_next s}" using inv by (simp add: fetch_inv_def)
  have "slot_ok accts ingesters ?s j" if "slot_ok accts ingesters s j" for j
    using that by (auto simp: slot_ok_def split: option.splits)
  moreover have "distinct (fs_started ?s @ fs_fetching ?s)" using inv below by (auto simp: fetch_inv_def)
  moreover have "set (fs_started ?s @ fs_fetching ?s) \<subseteq> {..<fs_next ?s}" using below by auto
  ultimately show ?thesis using assms by (simp add: fetch_inv_def running_def)
qed

lemma fetch_inv_cancel:
  assumes inv: "fetch_inv accts ingesters limit s"
  shows "fetch_inv accts ingesters limit (s\<lparr>fs_ctx := Some e\<rparr>)" (is "fetch_inv _ _ _ ?s")
proof -
  have "slot_ok accts ingesters ?s j" if "slot_ok accts ingesters s j" for j
    using that by (auto simp: slot_ok_def split: option.splits)
  then show ?thesis using inv by (simp add: fetch_inv_def running_def)
qed

lemma fetch_inv_step:
  assumes "fetch_step accts ingesters limit s s'" and inv: "fetch_inv accts ingesters limit s"
  shows "fetch_inv accts ingesters limit s'"
  using assms(1)
proof (cases rule: fetch_step.cases)
  case start
  then show ?thesis using fetch_inv_start [OF inv] by simp
next
  case (give_up i e)
  then have "i \<notin> set (fs_fetching s)" using inv by (auto simp: fetch_inv_def)
  then show ?thesis using fetch_inv_write [OF inv, of i "cancelled_result e (accts ! i)"] give_up
    by (simp add: remove1_idem cancelled_result_def)
next
  case (go_on i)
  then show ?thesis using fetch_inv_move [OF inv] by simp
next
  case (finish i)
  then have "i \<notin> set (fs_started s)" using inv by (auto simp: fetch_inv_def)
  then show ?thesis using fetch_inv_write [OF inv, of i "task_result ingesters (accts ! i)"] finish
    by (simp add: remove1_idem)
next
  case (finish_late i e ms me)
  then have "i \<notin> set (fs_started s)" using inv by (auto simp: fetch_inv_def)
  then show ?thesis
    using fetch_inv_write [OF inv, of i "\<lparr>ft_account = accts ! i, ft_messages = ms, ft_err = me\<rparr>"] finish_late
    by (simp add: remove1_idem)
next
  case (cancel e)
  then show ?thesis using fetch_inv_cancel [OF inv] by simp
qed

lemma fetch_inv_reachable:
  "(fetch_step accts ingesters limit)\<^sup>*\<^sup>* (fetch_init accts) s \<Longrightarrow> fetch_inv accts ingesters limit s"
  by (induction rule: rtranclp_induct) (auto simp: fetch_inv_init intro: fetch_inv_step)


section \<open>What FetchAll returns\<close>

text \<open>Steps left: every account is started, moved on and finished, and the context is cancelled once.\<close>

definition work_left :: "imap_account list \<Rightarrow> fetch_state \<Rightarrow> nat" where
  "work_left accts s = 3 * (length accts - fs_next s) + 2 * length (fs_started s) + length (fs_fetching s)
     + (if fs_ctx s = None then 1 else 0)"

lemma length_remove1_Suc: "i \<in> set xs \<Longrightarrow> length xs = Suc (length (remove1 i xs))"
  using length_pos_if_in_set [of i xs] by (simp add: length_remove1)

lemma fetch_step_decreases:
  "fetch_step accts ingesters limit s s' \<Longrightarrow> work_left accts s' < work_left accts s"
  by (induction rule: fetch_step.induct) (auto simp: work_left_def dest!: length_remove1_Suc)

lemma work_left_init: "work_left accts (fetch_init accts) = 3 * length accts + 1"
  by (simp add: work_left_def fetch_init_def)

lemma fetch_progress:
  assumes "fetch_inv accts ingesters limit s" and "0 < limit" and "\<not> fetch_done accts s"
  shows "\<exists>s'. fetch_step accts ingesters limit s s'"
proof (cases "running s = 0")
  case True
  then have "fs_next s < length accts" using assms by (auto simp: fetch_done_def fetch_inv_def)
  then show ?thesis using True assms(2) by (metis fetch_step.start)
next
  case False
  then consider i where "i \<in> set (fs_started s)" | i where "i \<in> set (fs_fetching s)"
    by (metis add_is_0 length_0_conv list.set_intros(1) neq_Nil_conv running_def)
  then show ?thesis by cases (metis fetch_step.give_up fetch_step.go_on fetch_step.finish option.exhaust)+
qed



text \<open>C9: when \<open>FetchAll\<close> returns there is one entry for each account, in the order of the accounts;
  and when the context was not cancelled the entries are those of the accounts fetched one after
  the other, whatever the interleaving and the limit.\<close>

theorem fetch_all_result:
  assumes "(fetch_step accts ingesters (effective_limit n))\<^sup>*\<^sup>* (fetch_init accts) s" and "fetch_done accts s"
  shows "None \<notin> set (fs_results s) \<and> map (ft_account \<circ> the) (fs_results s) = accts
    \<and> (fs_ctx s = None \<longrightarrow> fs_results s = map (Some \<circ> task_result ingesters) accts)"
proof -
  note inv = fetch_inv_reachable [OF assms(1)]
  have len: "length (fs_results s) = length accts" using inv by (simp add: fetch_inv_def)
  have entry: "\<exists>r. fs_results s ! i = Some r \<and> ft_account r = accts ! i
      \<and> (fs_ctx s = None \<longrightarrow> r = task_result ingesters (accts ! i))" if "i < length accts" for i
    using inv that assms(2) by (fastforce simp: fetch_inv_def slot_ok_def fetch_done_def running_def split: option.splits)
  have "None \<notin> set (fs_results s)" using entry len by (metis in_set_conv_nth option.distinct(1))
  moreover have "map (ft_account \<circ> the) (fs_results s) = accts"
    using entry len by (intro nth_equalityI) (auto, metis option.sel)
  moreover have "fs_results s = map (Some \<circ> task_result ingesters) accts" if "fs_ctx s = None"
    using entry len that by (intro nth_equalityI) auto
  ultimately show ?thesis by blast
qed

text \<open>A complete run with one account.\<close>

lemma one_account_run:
  fixes ingesters :: "string \<rightharpoonup> (imap_account \<Rightarrow> message list \<times> err option)" and a :: imap_account
  defines "s \<equiv> (fetch_init [a])\<lparr>fs_next := 1, fs_results := [Some (task_result ingesters a)]\<rparr>"
  shows "(fetch_step [a] ingesters (effective_limit n))\<^sup>*\<^sup>* (fetch_init [a]) s" and "fetch_done [a] s"
proof -
  let ?R = "fetch_step [a] ingesters (effective_limit n)"
  let ?s1 = "(fetch_init [a])\<lparr>fs_next := 1, fs_started := [0]\<rparr>"
  let ?s2 = "(fetch_init [a])\<lparr>fs_next := 1, fs_fetching := [0]\<rparr>"
  have start: "?R (fetch_init [a]) ?s1"
    using fetch_step.start [of "fetch_init [a]" "[a]" "effective_limit n" ingesters]
    by (simp add: fetch_init_def running_def effective_limit_def)
  have go_on: "?R ?s1 ?s2"
    using fetch_step.go_on [of 0 ?s1 "[a]" ingesters "effective_limit n"] by (simp add: fetch_init_def)
  have "?R ?s2 s"
    using fetch_step.finish [of 0 ?s2 "[a]" ingesters "effective_limit n"] by (simp add: fetch_init_def s_def)
  with start go_on show "?R\<^sup>*\<^sup>* (fetch_init [a]) s" by (meson converse_rtranclp_into_rtranclp rtranclp.rtrancl_refl)
  show "fetch_done [a] s" by (simp add: s_def fetch_done_def running_def fetch_init_def)
qed

theorem fetch_all_result_witness:
  "\<exists>s. fetch_done [demo_account] s \<and> fs_results s = [Some (task_result Map.empty demo_account)]"
proof -
  define s where "s = (fetch_init [demo_account])\<lparr>fs_next := 1,
    fs_results := [Some (task_result Map.empty demo_account)]\<rparr>"
  have run: "(fetch_step [demo_account] Map.empty (effective_limit 3))\<^sup>*\<^sup>* (fetch_init [demo_account]) s"
    and fin: "fetch_done [demo_account] s"
    using one_account_run(1) [where a = demo_account and ingesters = Map.empty and n = 3]
      one_account_run(2) [where a = demo_account and ingesters = Map.empty] by (simp_all add: s_def)
  have "fs_ctx s = None" by (simp add: s_def fetch_init_def)
  then have "fs_results s = map (Some \<circ> task_result Map.empty) [demo_account]"
    using fetch_all_result [OF run fin] by blast
  with fin show ?thesis by auto
qed

text \<open>C10: \<open>FetchAll\<close> always returns: from every state that can be reached there is a step unless it has
  returned, and every step makes the remaining work smaller, so no run is longer than three steps
  for each account and one for the cancellation.\<close>

theorem fetch_all_terminates:
  assumes "(fetch_step accts ingesters (effective_limit n))\<^sup>*\<^sup>* (fetch_init accts) s"
  shows "(fetch_done accts s \<or> (\<exists>s'. fetch_step accts ingesters (effective_limit n) s s'))
    \<and> {s'. fetch_step accts ingesters (effective_limit n) s s'}
       \<subseteq> {s'. work_left accts s' < work_left accts s}
    \<and> work_left accts (fetch_init accts) = 3 * length accts + 1"
proof -
  have "0 < effective_limit n" by (simp add: effective_limit_def)
  then show ?thesis
    using fetch_progress [OF fetch_inv_reachable [OF assms]] fetch_step_decreases work_left_init by blast
qed

theorem fetch_all_terminates_witness:
  "\<exists>s'. fetch_step [demo_account] Map.empty (effective_limit 2) (fetch_init [demo_account]) s'"
  using fetch_all_terminates [of "[demo_account]" Map.empty 2 "fetch_init [demo_account]"]
  by (simp add: fetch_done_def fetch_init_def)

section \<open>The helpers\<close>

lemma flatten_messages_members:
  "m \<in> set (flatten_messages rs) \<longleftrightarrow> (\<exists>r \<in> set rs. ft_err r = None \<and> m \<in> set (ft_messages r))"
  by (auto simp: flatten_messages_def)

lemma account_errors_dom:
  "dom (account_errors rs) = {acct_label (ft_account r) | r. r \<in> set rs \<and> ft_err r \<noteq> None}"
proof -
  have "dom (fold (\<lambda>r m. case ft_err r of None \<Rightarrow> m | Some e \<Rightarrow> m(acct_label (ft_account r) \<mapsto> e)) rs m)
      = dom m \<union> {acct_label (ft_account r) | r. r \<in> set rs \<and> ft_err r \<noteq> None}" for m
    by (induction rs arbitrary: m) (auto split: option.splits)
  then show ?thesis by (simp add: account_errors_def)
qed

lemma semaphore_ok_new: "semaphore_ok (new_semaphore n)"
  by (simp add: semaphore_ok_def new_semaphore_def)

lemma semaphore_ok_acquire: "acquire ctx late p s = Some (e, s') \<Longrightarrow> semaphore_ok s \<Longrightarrow> semaphore_ok s'"
  by (auto simp: acquire_def semaphore_ok_def split: if_splits)

lemma semaphore_ok_release: "release s = Some s' \<Longrightarrow> semaphore_ok s \<Longrightarrow> semaphore_ok s'"
  by (auto simp: release_def semaphore_ok_def split: if_splits)

lemma acquire_cancelled: "acquire (Some e) late p s = Some (Some e, s)"
  by (simp add: acquire_def)

lemma acquire_release: "acquire None None p s = Some (None, s') \<Longrightarrow> release s' = Some s"
  by (auto simp: acquire_def release_def split: if_splits)

end
