(* ===== verification/Stats.thy ===== *)
theory Stats
  imports Digest Pool
begin

text \<open>
  The counting half of \<open>internal/orchestrator/orchestrator.go\<close>: senders and domains, the totals of a
  run and of its accounts.  The map from labels to \<open>*AccountStats\<close> together with the slice of labels
  in order of first use is the list of the accounts' statistics in that order.
\<close>

section \<open>Senders\<close>

definition extract_address :: "string \<Rightarrow> string" where
  "extract_address from =
     (let s = trim_space from in
      if s = [] then []
      else case last_index ''<'' s of
        None \<Rightarrow> s
      | Some lt \<Rightarrow>
          let gt = (case last_index ''>'' s of None \<Rightarrow> length s | Some k \<Rightarrow> k) in
          if lt < gt then trim_space (take (gt - (lt + 1)) (drop (lt + 1) s)) else s)"

definition parse_sender :: "string \<Rightarrow> string \<times> string" where
  "parse_sender from =
     (let addr = extract_address from in
      if addr = [] then ([], [])
      else case last_index ''@'' addr of
        None \<Rightarrow> ([], [])
      | Some i \<Rightarrow> if 0 < i \<and> i < length addr - 1 then (addr, to_lower (drop (i + 1) addr)) else ([], []))"

record sender_counts =
  sc_senders :: "string counter"
  sc_domains :: "string counter"
  sc_account_senders :: "string \<Rightarrow> string counter"
  sc_account_domains :: "string \<Rightarrow> string counter"

definition no_senders :: sender_counts where
  "no_senders = \<lparr>sc_senders = [], sc_domains = [], sc_account_senders = \<lambda>_. [], sc_account_domains = \<lambda>_. []\<rparr>"

definition track_message_senders :: "message \<Rightarrow> sender_counts \<Rightarrow> sender_counts" where
  "track_message_senders m c =
     (let (sender, domain) = parse_sender (msg_from m); a = msg_account m;
          c = (if sender \<noteq> [] then
                 c\<lparr>sc_senders := bump sender (sc_senders c),
                   sc_account_senders := (sc_account_senders c)(a := bump sender (sc_account_senders c a))\<rparr>
               else c)
      in if domain \<noteq> [] then
           c\<lparr>sc_domains := bump domain (sc_domains c),
             sc_account_domains := (sc_account_domains c)(a := bump domain (sc_account_domains c a))\<rparr>
         else c)"

definition top_format :: "string \<times> nat \<Rightarrow> string" where
  "top_format kv = fst kv @ '' ('' @ fmt_d (int (snd kv)) @ '')''"

definition top_order :: "string \<times> nat \<Rightarrow> int \<times> string" where
  "top_order kv = (- int (snd kv), fst kv)"

definition top_n :: "string counter \<Rightarrow> nat \<Rightarrow> string list" where
  "top_n counts n = map top_format (take n (sort_key top_order counts))"

section \<open>Statistics\<close>

definition new_account :: "string \<Rightarrow> account_stats" where
  "new_account label = \<lparr>as_label = label, as_fetched = 0, as_classified = 0, as_failed = 0, as_read = 0,
     as_unread = 0, as_labels = [], as_status = ''ok'', as_error = [], as_analysis_failed = 0,
     as_top_senders = [], as_top_domains = []\<rparr>"

text \<open>\<open>ensureAccount(label)\<close> followed by an update through the pointer.\<close>

fun with_account :: "string \<Rightarrow> (account_stats \<Rightarrow> account_stats) \<Rightarrow> account_stats list \<Rightarrow> account_stats list" where
  "with_account label f [] = [f (new_account label)]"
| "with_account label f (a # as) = (if as_label a = label then f a # as else a # with_account label f as)"

definition count_message :: "message \<Rightarrow> account_stats \<Rightarrow> account_stats" where
  "count_message m a =
     (if msg_is_read m then a\<lparr>as_fetched := Suc (as_fetched a), as_read := Suc (as_read a)\<rparr>
      else a\<lparr>as_fetched := Suc (as_fetched a), as_unread := Suc (as_unread a)\<rparr>)"

definition fetch_failed :: "err \<Rightarrow> account_stats \<Rightarrow> account_stats" where
  "fetch_failed e a = a\<lparr>as_status := ''error'', as_error := err_text e\<rparr>"

definition entry_account :: "message_entry \<Rightarrow> string" where
  "entry_account e = mk_account (cl_key (me_class e))"

definition count_entry :: "message_key set \<Rightarrow> message_entry \<Rightarrow> account_stats \<Rightarrow> account_stats" where
  "count_entry keys e a =
     (let a = a\<lparr>as_labels := bump (entry_label e) (as_labels a)\<rparr> in
      if cl_key (me_class e) \<in> keys then a\<lparr>as_classified := Suc (as_classified a)\<rparr>
      else a\<lparr>as_failed := Suc (as_failed a)\<rparr>)"

definition count_entry_global :: "message_key set \<Rightarrow> message_entry \<Rightarrow> digest_stats \<Rightarrow> digest_stats" where
  "count_entry_global keys e g =
     (let g = g\<lparr>gs_labels := map_option (bump (entry_label e)) (gs_labels g)\<rparr> in
      if cl_key (me_class e) \<in> keys then
        (if equal_fold (cl_priority (me_class e)) ''high'' then g\<lparr>gs_high_priority := Suc (gs_high_priority g)\<rparr> else g)
      else g\<lparr>gs_failed := Suc (gs_failed g)\<rparr>)"

fun process_classification_entries ::
  "message_key set \<Rightarrow> message_entry list \<Rightarrow> digest_stats \<times> account_stats list \<Rightarrow> digest_stats \<times> account_stats list" where
  "process_classification_entries keys [] st = st"
| "process_classification_entries keys (e # es) (g, as) =
     process_classification_entries keys es
       (count_entry_global keys e g, with_account (entry_account e) (count_entry keys e) as)"

definition start_stats :: "nat \<Rightarrow> nat \<Rightarrow> digest_stats" where
  "start_stats fetched classified =
     \<lparr>gs_fetched = fetched, gs_classified = classified, gs_failed = 0, gs_read = 0, gs_unread = 0, gs_labels = Some [],
      gs_accounts_checked = 0, gs_accounts_succeeded = 0, gs_accounts_failed = 0, gs_high_priority = 0,
      gs_analysis_failed = 0, gs_top_senders = [], gs_top_domains = []\<rparr>"

text \<open>\<open>errors\<close> is the map of the account errors in some iteration order.\<close>

definition build_digest_stats ::
  "message list \<Rightarrow> message_entry list \<Rightarrow> classification list \<Rightarrow> fetch_result list \<Rightarrow> (string \<times> err) list
   \<Rightarrow> digest_stats \<times> account_stats list \<times> string counter \<times> string counter" where
  "build_digest_stats messages entries classifications results errors =
     (let keys = set (map cl_key classifications);
          as = fold (\<lambda>r. with_account (acct_label (ft_account r)) (\<lambda>a. a)) results [];
          as = fold (\<lambda>(l, e). with_account l (fetch_failed e)) errors as;
          as = fold (\<lambda>m. with_account (msg_account m) (count_message m)) messages as;
          sc = fold track_message_senders messages no_senders;
          g = (start_stats (length messages) (length classifications))
                \<lparr>gs_read := length (filter msg_is_read messages),
                 gs_unread := length (filter (\<lambda>m. \<not> msg_is_read m) messages)\<rparr>;
          (g, as) = process_classification_entries keys entries (g, as);
          failed = length (filter (\<lambda>a. as_status a = ''error'') as);
          g = g\<lparr>gs_accounts_checked := length as, gs_accounts_failed := failed,
                gs_accounts_succeeded := length as - failed,
                gs_top_senders := top_n (sc_senders sc) 5, gs_top_domains := top_n (sc_domains sc) 5\<rparr>;
          as = map (\<lambda>a. a\<lparr>as_top_senders := top_n (sc_account_senders sc (as_label a)) 5,
                           as_top_domains := top_n (sc_account_domains sc (as_label a)) 5\<rparr>) as
      in (g, as, sc_senders sc, sc_domains sc))"

section \<open>Addresses\<close>

lemma drop_Suc_length: "drop (Suc (length s)) (s @ c # r) = r"
  by simp

lemma last_index_split:
  "last_index [c] s = Some i \<Longrightarrow> \<exists>a b. s = a @ c # b \<and> length a = i \<and> c \<notin> set b"
proof (induction s arbitrary: i)
  case (Cons x s)
  then show ?case
  proof (cases "last_index [c] s")
    case None
    then have "c \<notin> set s" using last_index_char [of c] split_list_last [of c s] by fastforce
    moreover have "x = c" "i = 0" using Cons.prems None by (auto simp: has_prefix_def split: if_splits)
    ultimately show ?thesis by (intro exI [of _ "[]"] exI [of _ s]) simp
  next
    case (Some j)
    then obtain a b where "s = a @ c # b" "length a = j" "c \<notin> set b" using Cons.IH by blast
    moreover have "i = Suc j" using Cons.prems Some by simp
    ultimately show ?thesis by (intro exI [of _ "x # a"] exI [of _ b]) simp
  qed
qed simp

text \<open>A sender is counted only when it is an address with something on both sides of its last at
  sign, and its domain is what follows that sign, in lower case.\<close>

theorem parse_sender_shape:
  "parse_sender from = ([], [])
   \<or> (\<exists>u d. extract_address from = u @ ''@'' @ d \<and> u \<noteq> [] \<and> d \<noteq> [] \<and> CHR ''@'' \<notin> set d
        \<and> parse_sender from = (u @ ''@'' @ d, to_lower d))"
proof (cases "parse_sender from = ([], [])")
  case False
  then obtain i where i: "last_index ''@'' (extract_address from) = Some i" "0 < i"
    "i < length (extract_address from) - 1"
    "parse_sender from = (extract_address from, to_lower (drop (i + 1) (extract_address from)))"
    by (auto simp: parse_sender_def Let_def split: if_splits option.splits)
  obtain u d where ud: "extract_address from = u @ CHR ''@'' # d" "length u = i" "CHR ''@'' \<notin> set d"
    using last_index_split [OF i(1)] by blast
  then have "u \<noteq> []" "d \<noteq> []" "drop (i + 1) (extract_address from) = d" using i(2,3) by auto
  then show ?thesis using ud i(4) by auto
qed simp

text \<open>The address in angle brackets is found whatever the display name in front of it contains,
  also further brackets and addresses.\<close>

theorem extract_address_bracketed:
  assumes "CHR ''<'' \<notin> set addr" and "CHR ''>'' \<notin> set addr"
  shows "extract_address (name @ '' <'' @ addr @ ''>'') = trim_space addr"
proof -
  have sp: "\<forall>p \<in> set space_encs. CHR ''<'' \<notin> set p \<and> CHR ''>'' \<notin> set p" by (simp add: space_encs_def)
  obtain s' t' where "trim_space ((name @ '' '') @ (CHR ''<'' # addr @ ''>'') @ [])
      = s' @ (CHR ''<'' # addr @ ''>'') @ t'" "set t' \<subseteq> set []"
    using trim_space_stop [OF sp] by metis
  then have s: "trim_space (name @ '' <'' @ addr @ ''>'') = s' @ CHR ''<'' # addr @ ''>''" by simp
  have "last_index ''<'' (s' @ CHR ''<'' # addr @ ''>'') = Some (length s')"
    using assms(1) by (intro last_index_char) simp
  moreover have "last_index ''>'' ((s' @ CHR ''<'' # addr) @ CHR ''>'' # []) = Some (length (s' @ CHR ''<'' # addr))"
    by (rule last_index_char) simp
  ultimately show ?thesis unfolding extract_address_def s by simp
qed

theorem extract_address_bracketed_witness:
  "extract_address (''Boss <boss@corp.com>'' @ '' <'' @ ''evil@spam.com'' @ ''>'') = ''evil@spam.com''"
proof -
  have "trim_space ''evil@spam.com'' = ''evil@spam.com''" by code_simp
  then show ?thesis using extract_address_bracketed [of "''evil@spam.com''" "''Boss <boss@corp.com>''"] by simp
qed

section \<open>The most frequent\<close>

lemma top_order_inj: "inj_on top_order (set counts)"
  by (auto simp: inj_on_def top_order_def)

lemma sort_key_mset_cong:
  assumes "mset xs = mset ys" and "inj_on f (set xs)"
  shows "sort_key f xs = sort_key f ys"
proof -
  have "set xs = set ys" using assms(1) by (rule mset_eq_setD)
  have "map f (sort_key f xs) = sort (map f xs)" for xs
    by (rule properties_for_sort [symmetric]) (metis mset_map mset_sort, simp)
  moreover have "sort (map f xs) = sort (map f ys)"
    using assms(1) by (intro properties_for_sort) (metis mset_map mset_sort, simp)
  ultimately have "map f (sort_key f xs) = map f (sort_key f ys)" by simp
  then show ?thesis using assms(2) \<open>set xs = set ys\<close> by (subst (asm) inj_on_map_eq_map) simp_all
qed

text \<open>The lists of top senders and domains are deterministic although they are computed from a Go
  map: they do not depend on the order in which the map is read; they name the keys with the
  highest counts, and have at most \<open>n\<close> entries.\<close>

theorem top_n_deterministic:
  assumes "mset counts = mset counts'"
  shows "top_n counts n = top_n counts' n \<and> length (top_n counts n) = min n (length counts)
    \<and> (\<exists>top rest. top_n counts n = map top_format top \<and> mset top + mset rest = mset counts
         \<and> {(x, y). x \<in> set top \<and> y \<in> set rest} \<subseteq> {(x, y). snd y \<le> snd x})"
proof (intro conjI exI)
  let ?s = "sort_key top_order counts"
  show "top_n counts n = top_n counts' n"
    using sort_key_mset_cong [OF assms top_order_inj] by (simp add: top_n_def)
  show "length (top_n counts n) = min n (length counts)" by (simp add: top_n_def)
  show "top_n counts n = map top_format (take n ?s)" by (simp add: top_n_def)
  show "mset (take n ?s) + mset (drop n ?s) = mset counts"
    by (metis append_take_drop_id mset_append mset_sort)
  have "top_order x \<le> top_order y" if "x \<in> set (take n ?s)" "y \<in> set (drop n ?s)" for x y
    using sorted_take_drop [OF sorted_sort_key that] .
  then show "{(x, y). x \<in> set (take n ?s) \<and> y \<in> set (drop n ?s)} \<subseteq> {(x, y). snd y \<le> snd x}"
    by (fastforce simp: top_order_def less_eq_prod_def)
qed

theorem top_n_deterministic_witness:
  "top_n [(''a'', 1), (''b'', 2)] 1 = top_n [(''b'', 2), (''a'', 1)] 1"
  using top_n_deterministic [of "[(''a'', 1), (''b'', 2)]" "[(''b'', 2), (''a'', 1)]" 1] by (simp add: add_mset_commute)


section \<open>Totals\<close>

lemma sum_with_account:
  "(\<And>a. f (g a) = f a + k) \<Longrightarrow> f (new_account l) = (0::nat) \<Longrightarrow>
     sum_list (map f (with_account l g as)) = sum_list (map f as) + k"
  by (induction as) auto

lemma labels_with_account:
  "(\<And>a. as_label (g a) = as_label a) \<Longrightarrow>
     set (map as_label (with_account l g as)) = insert l (set (map as_label as))
     \<and> (distinct (map as_label as) \<longrightarrow> distinct (map as_label (with_account l g as)))"
  by (induction as) (auto simp: new_account_def)

lemma sum_fold_account:
  assumes "\<And>x a. f (g x a) = f a + (c x :: nat)" and "\<And>l. f (new_account l) = 0"
  shows "sum_list (map f (fold (\<lambda>x. with_account (key x) (g x)) xs as)) = sum_list (map f as) + sum_list (map c xs)"
proof (induction xs arbitrary: as)
  case (Cons x xs)
  have "sum_list (map f (with_account (key x) (g x) as)) = sum_list (map f as) + c x"
    by (rule sum_with_account) (use assms in auto)
  then show ?case using Cons.IH [of "with_account (key x) (g x) as"] by simp
qed simp

lemma distinct_fold_account:
  assumes "\<And>x a. as_label (g x a) = as_label a"
  shows "distinct (map as_label as) \<Longrightarrow> distinct (map as_label (fold (\<lambda>x. with_account (key x) (g x)) xs as))"
  using labels_with_account [OF assms] by (induction xs arbitrary: as) simp_all

lemma new_account_simps [simp]:
  "as_label (new_account l) = l" "as_fetched (new_account l) = 0" "as_read (new_account l) = 0"
  "as_unread (new_account l) = 0" "as_classified (new_account l) = 0" "as_failed (new_account l) = 0"
  by (simp_all add: new_account_def)

lemma count_message_simps [simp]:
  "as_label (count_message m a) = as_label a" "as_fetched (count_message m a) = as_fetched a + 1"
  "as_read (count_message m a) = as_read a + (if msg_is_read m then 1 else 0)"
  "as_unread (count_message m a) = as_unread a + (if msg_is_read m then 0 else 1)"
  "as_classified (count_message m a) = as_classified a" "as_failed (count_message m a) = as_failed a"
  by (simp_all add: count_message_def)

lemma count_entry_simps [simp]:
  "as_label (count_entry keys e a) = as_label a" "as_fetched (count_entry keys e a) = as_fetched a"
  "as_read (count_entry keys e a) = as_read a" "as_unread (count_entry keys e a) = as_unread a"
  "as_classified (count_entry keys e a) = as_classified a + (if cl_key (me_class e) \<in> keys then 1 else 0)"
  "as_failed (count_entry keys e a) = as_failed a + (if cl_key (me_class e) \<in> keys then 0 else 1)"
  by (simp_all add: count_entry_def Let_def)

lemma fetch_failed_simps [simp]:
  "as_label (fetch_failed e a) = as_label a" "as_fetched (fetch_failed e a) = as_fetched a"
  "as_read (fetch_failed e a) = as_read a" "as_unread (fetch_failed e a) = as_unread a"
  "as_classified (fetch_failed e a) = as_classified a" "as_failed (fetch_failed e a) = as_failed a"
  by (simp_all add: fetch_failed_def)

lemma process_entries_accounts:
  "snd (process_classification_entries keys es (g, as)) = fold (\<lambda>e. with_account (entry_account e) (count_entry keys e)) es as"
  by (induction es arbitrary: g as) simp_all

lemma process_entries_global:
  assumes "gs_labels g = Some m"
  shows "\<exists>m'. gs_labels (fst (process_classification_entries keys es (g, as))) = Some m'
      \<and> sum_list (map snd m') = sum_list (map snd m) + length es
    \<and> gs_failed (fst (process_classification_entries keys es (g, as)))
      = gs_failed g + length (filter (\<lambda>e. cl_key (me_class e) \<notin> keys) es)
    \<and> gs_fetched (fst (process_classification_entries keys es (g, as))) = gs_fetched g
    \<and> gs_classified (fst (process_classification_entries keys es (g, as))) = gs_classified g
    \<and> gs_read (fst (process_classification_entries keys es (g, as))) = gs_read g
    \<and> gs_unread (fst (process_classification_entries keys es (g, as))) = gs_unread g"
  using assms
proof (induction es arbitrary: g as m)
  case (Cons e es)
  have "gs_labels (count_entry_global keys e g) = Some (bump (entry_label e) m)"
    using Cons.prems by (simp add: count_entry_global_def Let_def)
  from Cons.IH [OF this, of "with_account (entry_account e) (count_entry keys e) as"] show ?case
    by (simp add: sum_bump) (auto simp: count_entry_global_def Let_def)
qed simp

lemma sum_list_indicator: "sum_list (map (\<lambda>x. if P x then 1 else 0) xs) = length (filter P xs)"
  "sum_list (map (\<lambda>x. if P x then 0 else 1) xs) = length (filter (\<lambda>x. \<not> P x) xs)"
  "sum_list (map (\<lambda>x. Suc 0) xs) = length xs" "sum_list (map (\<lambda>x. 0) xs) = (0::nat)"
  by (induction xs) simp_all

definition total :: "(account_stats \<Rightarrow> nat) \<Rightarrow> account_stats list \<Rightarrow> nat" where
  "total f as = sum_list (map f as)"

text \<open>The accounts after the four loops, and what each counter adds up to.\<close>

definition counted_accounts ::
  "message list \<Rightarrow> message_entry list \<Rightarrow> message_key set \<Rightarrow> fetch_result list \<Rightarrow> (string \<times> err) list \<Rightarrow> account_stats list" where
  "counted_accounts messages entries keys results errors =
     fold (\<lambda>e. with_account (entry_account e) (count_entry keys e)) entries
      (fold (\<lambda>m. with_account (msg_account m) (count_message m)) messages
        (fold (\<lambda>p. with_account (fst p) (fetch_failed (snd p))) errors
          (fold (\<lambda>r. with_account (acct_label (ft_account r)) (\<lambda>a. a)) results [])))"

lemma total_counted:
  assumes "\<And>l. f (new_account l) = 0" and "\<And>e a. f (fetch_failed e a) = f a"
    and "\<And>m a. f (count_message m a) = f a + c m" and "\<And>e a. f (count_entry keys e a) = f a + d e"
  shows "total f (counted_accounts messages entries keys results errors) = sum_list (map c messages) + sum_list (map d entries)"
proof -
  have "total f (fold (\<lambda>r. with_account (acct_label (ft_account r)) (\<lambda>a. a)) results []) = 0"
    using sum_fold_account [of f "\<lambda>_ a. a" "\<lambda>_. 0" "\<lambda>r. acct_label (ft_account r)" results "[]"] assms(1)
    by (simp add: total_def sum_list_indicator)
  moreover have "total f (fold (\<lambda>p. with_account (fst p) (fetch_failed (snd p))) errors as) = total f as" for as
    using sum_fold_account [of f "\<lambda>p. fetch_failed (snd p)" "\<lambda>_. 0" fst errors as] assms(1,2)
    by (simp add: total_def sum_list_indicator)
  moreover have "total f (fold (\<lambda>m. with_account (msg_account m) (count_message m)) messages as)
      = total f as + sum_list (map c messages)" for as
    using sum_fold_account [of f count_message c msg_account messages as] assms(1,3) by (simp add: total_def)
  moreover have "total f (fold (\<lambda>e. with_account (entry_account e) (count_entry keys e)) entries as)
      = total f as + sum_list (map d entries)" for as
    using sum_fold_account [of f "count_entry keys" d entry_account entries as] assms(1,4) by (simp add: total_def)
  ultimately show ?thesis by (simp add: counted_accounts_def)
qed

lemma counted_accounts_totals:
  "total as_fetched (counted_accounts ms es keys rs errs) = length ms"
  "total as_read (counted_accounts ms es keys rs errs) = length (filter msg_is_read ms)"
  "total as_unread (counted_accounts ms es keys rs errs) = length (filter (\<lambda>m. \<not> msg_is_read m) ms)"
  "total as_classified (counted_accounts ms es keys rs errs) = length (filter (\<lambda>e. cl_key (me_class e) \<in> keys) es)"
  "total as_failed (counted_accounts ms es keys rs errs) = length (filter (\<lambda>e. cl_key (me_class e) \<notin> keys) es)"
proof -
  note count = total_counted [where messages = ms and entries = es and results = rs and errors = errs]
  show "total as_fetched (counted_accounts ms es keys rs errs) = length ms"
    by (subst count [where c = "\<lambda>_. 1" and d = "\<lambda>_. 0"]) (simp_all add: sum_list_indicator)
  show "total as_read (counted_accounts ms es keys rs errs) = length (filter msg_is_read ms)"
    by (subst count [where c = "\<lambda>m. if msg_is_read m then 1 else 0" and d = "\<lambda>_. 0"])
      (simp_all add: sum_list_indicator)
  show "total as_unread (counted_accounts ms es keys rs errs) = length (filter (\<lambda>m. \<not> msg_is_read m) ms)"
    by (subst count [where c = "\<lambda>m. if msg_is_read m then 0 else 1" and d = "\<lambda>_. 0"])
      (simp_all add: sum_list_indicator)
  show "total as_classified (counted_accounts ms es keys rs errs) = length (filter (\<lambda>e. cl_key (me_class e) \<in> keys) es)"
    by (subst count [where c = "\<lambda>_. 0" and d = "\<lambda>e. if cl_key (me_class e) \<in> keys then 1 else 0"])
      (simp_all add: sum_list_indicator)
  show "total as_failed (counted_accounts ms es keys rs errs) = length (filter (\<lambda>e. cl_key (me_class e) \<notin> keys) es)"
    by (subst count [where c = "\<lambda>_. 0" and d = "\<lambda>e. if cl_key (me_class e) \<in> keys then 0 else 1"])
      (simp_all add: sum_list_indicator)
qed

lemma counted_accounts_distinct: "distinct (map as_label (counted_accounts ms es keys rs errs))"
  unfolding counted_accounts_def by (intro distinct_fold_account) simp_all

text \<open>\<^const>\<open>build_digest_stats\<close> in terms of the counted accounts.\<close>

lemma build_digest_stats_split:
  assumes "build_digest_stats ms es cs rs errs = (g, as, senders, domains)"
  shows "\<exists>m. gs_labels g = Some m \<and> sum_list (map snd m) = length es"
    and "gs_fetched g = length ms" "gs_classified g = length cs"
    and "gs_read g = length (filter msg_is_read ms)" "gs_unread g = length (filter (\<lambda>m. \<not> msg_is_read m) ms)"
    and "gs_failed g = length (filter (\<lambda>e. cl_key (me_class e) \<notin> cl_key ` set cs) es)"
    and "gs_accounts_checked g = length as" "gs_accounts_failed g = length (filter (\<lambda>a. as_status a = ''error'') as)"
    and "gs_accounts_succeeded g = length as - length (filter (\<lambda>a. as_status a = ''error'') as)"
    and "\<exists>h. as = map h (counted_accounts ms es (cl_key ` set cs) rs errs)
           \<and> (\<forall>a. as_label (h a) = as_label a \<and> as_fetched (h a) = as_fetched a \<and> as_read (h a) = as_read a
                \<and> as_unread (h a) = as_unread a \<and> as_classified (h a) = as_classified a \<and> as_failed (h a) = as_failed a)"
proof -
  let ?keys = "cl_key ` set cs"
  let ?g = "(start_stats (length ms) (length cs))
      \<lparr>gs_read := length (filter msg_is_read ms), gs_unread := length (filter (\<lambda>m. \<not> msg_is_read m) ms)\<rparr>"
  let ?as = "fold (\<lambda>m. with_account (msg_account m) (count_message m)) ms
        (fold (\<lambda>(l, e). with_account l (fetch_failed e)) errs
          (fold (\<lambda>r. with_account (acct_label (ft_account r)) (\<lambda>a. a)) rs []))"
  obtain g1 as1 where p: "process_classification_entries ?keys es (?g, ?as) = (g1, as1)" by fastforce
  have "(\<lambda>(l, e). with_account l (fetch_failed e)) = (\<lambda>p. with_account (fst p) (fetch_failed (snd p)))" by auto
  then have as1: "as1 = counted_accounts ms es ?keys rs errs"
    using arg_cong [OF p, of snd] by (simp add: process_entries_accounts counted_accounts_def)
  have lab: "gs_labels ?g = Some []" by (simp add: start_stats_def)
  note glob = process_entries_global [OF lab, of ?keys es ?as, unfolded p fst_conv]
  have g: "gs_labels g = gs_labels g1" "gs_fetched g = gs_fetched g1" "gs_classified g = gs_classified g1"
    "gs_read g = gs_read g1" "gs_unread g = gs_unread g1" "gs_failed g = gs_failed g1"
    using assms by (auto simp: build_digest_stats_def Let_def p split: prod.splits)
  show "\<exists>m. gs_labels g = Some m \<and> sum_list (map snd m) = length es"
    and "gs_fetched g = length ms" "gs_classified g = length cs"
    and "gs_read g = length (filter msg_is_read ms)" "gs_unread g = length (filter (\<lambda>m. \<not> msg_is_read m) ms)"
    and "gs_failed g = length (filter (\<lambda>e. cl_key (me_class e) \<notin> cl_key ` set cs) es)"
    using glob by (auto simp: g start_stats_def)
  have as: "\<exists>h. as = map h as1 \<and> (\<forall>a. as_label (h a) = as_label a \<and> as_fetched (h a) = as_fetched a
      \<and> as_read (h a) = as_read a \<and> as_unread (h a) = as_unread a \<and> as_classified (h a) = as_classified a
      \<and> as_failed (h a) = as_failed a \<and> as_status (h a) = as_status a)"
    and counts: "gs_accounts_checked g = length as1" "gs_accounts_failed g = length (filter (\<lambda>a. as_status a = ''error'') as1)"
      "gs_accounts_succeeded g = length as1 - length (filter (\<lambda>a. as_status a = ''error'') as1)"
    using assms by (auto simp: build_digest_stats_def Let_def p)
  from as obtain h where h: "as = map h as1" "\<And>a. as_status (h a) = as_status a" by blast
  then have "length (filter (\<lambda>a. as_status a = ''error'') as) = length (filter (\<lambda>a. as_status a = ''error'') as1)"
    "length as = length as1" by (simp_all add: filter_map comp_def)
  then show "gs_accounts_checked g = length as" "gs_accounts_failed g = length (filter (\<lambda>a. as_status a = ''error'') as)"
    "gs_accounts_succeeded g = length as - length (filter (\<lambda>a. as_status a = ''error'') as)"
    using counts by simp_all
  show "\<exists>h. as = map h (counted_accounts ms es (cl_key ` set cs) rs errs)
           \<and> (\<forall>a. as_label (h a) = as_label a \<and> as_fetched (h a) = as_fetched a \<and> as_read (h a) = as_read a
                \<and> as_unread (h a) = as_unread a \<and> as_classified (h a) = as_classified a \<and> as_failed (h a) = as_failed a)"
    using as as1 by auto
qed

text \<open>C37: the totals of a run agree with each other and with those of its accounts: read and unread
  messages make up the fetched ones, the label counts make up the digest, succeeded and failed
  accounts make up the checked ones, each account has one entry, and the fetched, read, unread and
  failed messages of the accounts add up to those of the run.\<close>

theorem digest_stats_consistent:
  assumes "build_digest_stats messages entries classifications results errors = (g, as, senders, domains)"
  shows "gs_fetched g = length messages \<and> gs_read g + gs_unread g = gs_fetched g
    \<and> (\<exists>m. gs_labels g = Some m \<and> sum_list (map snd m) = length entries)
    \<and> gs_accounts_succeeded g + gs_accounts_failed g = gs_accounts_checked g \<and> gs_accounts_checked g = length as
    \<and> distinct (map as_label as)
    \<and> total as_fetched as = gs_fetched g \<and> total as_read as = gs_read g \<and> total as_unread as = gs_unread g
    \<and> total as_failed as = gs_failed g \<and> total as_classified as + total as_failed as = length entries"
proof -
  note b = build_digest_stats_split [OF assms]
  obtain h where h: "as = map h (counted_accounts messages entries (cl_key ` set classifications) results errors)"
    "\<And>a. as_label (h a) = as_label a" "\<And>a. as_fetched (h a) = as_fetched a" "\<And>a. as_read (h a) = as_read a"
    "\<And>a. as_unread (h a) = as_unread a" "\<And>a. as_classified (h a) = as_classified a"
    "\<And>a. as_failed (h a) = as_failed a"
    using b(10) by blast
  have tot: "total f as = total f (counted_accounts messages entries (cl_key ` set classifications) results errors)"
    if "\<And>a. f (h a) = f a" for f
    by (simp add: total_def h(1) comp_def that)
  have "distinct (map as_label as)"
    using counted_accounts_distinct by (simp add: h(1,2) comp_def)
  moreover have "gs_accounts_succeeded g + gs_accounts_failed g = gs_accounts_checked g"
    using b(7,8,9) length_filter_le [of "\<lambda>a. as_status a = ''error''" as] by simp
  ultimately show ?thesis
    using b h(3-7) sum_length_filter_compl [of msg_is_read messages]
      sum_length_filter_compl [of "\<lambda>e. cl_key (me_class e) \<in> cl_key ` set classifications" entries]
    by (simp add: tot counted_accounts_totals)
qed

theorem digest_stats_consistent_witness:
  "\<exists>g as s d. build_digest_stats [] [demo_entry ''Ads'' ''low'' 1] [] [] [(''work'', Err ''down'')] = (g, as, s, d)
     \<and> total as_failed as = gs_failed g"
proof -
  obtain g as s d where b: "build_digest_stats [] [demo_entry ''Ads'' ''low'' 1] [] [] [(''work'', Err ''down'')] = (g, as, s, d)"
    by (metis prod_cases4)
  from digest_stats_consistent [OF b] show ?thesis using b by blast
qed

text \<open>The number of classified messages can be wrong: a classification that the model returns for a
  message that was never sent to it is counted, while the accounts' counts leave it out.\<close>

theorem classified_count_phantom:
  assumes "build_digest_stats messages entries (classifications @ [c]) results errors = (g, as, senders, domains)"
    and "cl_key c \<notin> cl_key ` me_class ` set entries"
    and "length classifications = length (filter (\<lambda>e. cl_key (me_class e) \<in> cl_key ` set classifications) entries)"
  shows "gs_classified g = Suc (total as_classified as)"
proof -
  note b = build_digest_stats_split [OF assms(1)]
  obtain h where h: "as = map h (counted_accounts messages entries (cl_key ` set (classifications @ [c])) results errors)"
    "\<And>a. as_classified (h a) = as_classified a"
    using b(10) by blast
  have "total as_classified as
      = length (filter (\<lambda>e. cl_key (me_class e) \<in> cl_key ` set (classifications @ [c])) entries)"
    by (simp only: h(1) total_def map_map comp_def h(2)) (simp only: counted_accounts_totals flip: total_def)
  also have "\<dots> = length classifications"
  proof -
    have "filter (\<lambda>e. cl_key (me_class e) \<in> cl_key ` set (classifications @ [c])) entries
        = filter (\<lambda>e. cl_key (me_class e) \<in> cl_key ` set classifications) entries"
    proof (intro filter_cong refl)
      fix e assume "e \<in> set entries"
      then have "cl_key (me_class e) \<noteq> cl_key c" using assms(2) by (metis imageI)
      then show "(cl_key (me_class e) \<in> cl_key ` set (classifications @ [c]))
          = (cl_key (me_class e) \<in> cl_key ` set classifications)" by simp
    qed
    then show ?thesis using assms(3) by simp
  qed
  finally show ?thesis using b(3) by simp
qed

theorem classified_count_phantom_witness:
  "\<exists>g as s d. build_digest_stats [] [] [me_class (demo_entry ''Ads'' ''low'' 1)] [] [] = (g, as, s, d)
     \<and> gs_classified g = Suc (total as_classified as)"
proof -
  obtain g as s d where b: "build_digest_stats [] [] ([] @ [me_class (demo_entry ''Ads'' ''low'' 1)]) [] [] = (g, as, s, d)"
    by (metis prod_cases4)
  from classified_count_phantom [OF b] show ?thesis using b by simp
qed

end
