(* ===== verification/Store.thy ===== *)
theory Store
  imports MailTypes
begin

text \<open>
  \<open>internal/store/store.go\<close>: the records that a run persists and the \<open>Store\<close> interface.  A Go
  interface value is a record of operations here (\<open>store_ops\<close>), over the state of the
  implementation; \<open>NoopStore\<close> and \<open>SqliteStore\<close> give one each.  An operation returns an error or
  its result, and the state after it.  What an operation takes from outside the program is its
  first argument \<open>store_io\<close>: the clock, the random identifier, and whether the statements that it
  sends to the database succeed.

  The locale \<open>store\<close> states the contract that the pipeline relies on, and holds the
  consequences that are proved once for all implementations.
\<close>

section \<open>Records\<close>

datatype run_status =
    RunUnset
  | RunRunning
  | RunCompleted
  | RunDegraded
  | RunIngestFailed
  | RunPartial
  | RunPartiallyClassified
  | RunCancelled
  | RunOther string

fun status_text :: "run_status \<Rightarrow> string" where
  "status_text RunUnset = ''''"
| "status_text RunRunning = ''running''"
| "status_text RunCompleted = ''completed''"
| "status_text RunDegraded = ''degraded''"
| "status_text RunIngestFailed = ''ingest_failed''"
| "status_text RunPartial = ''partial''"
| "status_text RunPartiallyClassified = ''partially_classified''"
| "status_text RunCancelled = ''cancelled''"
| "status_text (RunOther s) = s"

text \<open>The conversion \<open>RunStatus(s)\<close> of a column that was read back.\<close>

definition named_statuses :: "run_status list" where
  "named_statuses = [RunUnset, RunRunning, RunCompleted, RunDegraded, RunIngestFailed, RunPartial,
     RunPartiallyClassified, RunCancelled]"

definition status_of_text :: "string \<Rightarrow> run_status" where
  "status_of_text s =
     (case find (\<lambda>st. status_text st = s) named_statuses of Some st \<Rightarrow> st | None \<Rightarrow> RunOther s)"

lemma status_text_of_text [simp]: "status_text (status_of_text s) = s"
  by (simp add: status_of_text_def split: option.split) (blast dest: find_SomeD)

lemma status_of_status_text:
  assumes "st \<in> set named_statuses"
  shows "status_of_text (status_text st) = st"
proof -
  have "list_all (\<lambda>st. status_of_text (status_text st) = st) named_statuses" by code_simp
  with assms show ?thesis by (simp add: list_all_iff)
qed

record run =
  run_id :: string
  run_started :: time
  run_finished :: "time option"
  run_state :: run_status
  run_count :: int
  run_error :: string

record processed_message =
  pm_run :: string
  pm_account :: string
  pm_uid :: uid
  pm_is_read :: bool
  pm_label :: string
  pm_excerpt :: string
  pm_at :: time

definition pm_key :: "processed_message \<Rightarrow> message_key" where
  "pm_key m = \<lparr>mk_account = pm_account m, mk_uid = pm_uid m\<rparr>"

record flag_record =
  fr_account :: string
  fr_uid :: uid
  fr_flag :: string
  fr_at :: time

definition fr_key :: "flag_record \<Rightarrow> message_key" where
  "fr_key r = \<lparr>mk_account = fr_account r, mk_uid = fr_uid r\<rparr>"

definition flag_id :: "flag_record \<Rightarrow> message_key \<times> string" where
  "flag_id r = (fr_key r, fr_flag r)"

lemma flag_id_at [simp]: "flag_id (r\<lparr>fr_at := t\<rparr>) = flag_id r"
  by (simp add: flag_id_def fr_key_def)

lemma pm_key_at [simp]: "pm_key (m\<lparr>pm_at := t\<rparr>) = pm_key m"
  by (simp add: pm_key_def)

datatype digest_status = DigestSent | DigestFailed | DigestSkipped

record digest_record =
  dr_run :: string
  dr_channel :: string
  dr_status :: digest_status
  dr_hash :: string

text \<open>The three maps of counts are association lists with distinct keys.\<close>

type_synonym counts = "(string \<times> int) list"

record digest_summary =
  ds_run :: string
  ds_finished :: time
  ds_labels :: counts
  ds_senders :: counts
  ds_domains :: counts
  ds_failed :: int
  ds_high :: int

section \<open>The interface\<close>

text \<open>
  \<open>io_random\<close> is what reading sixteen random bytes gives; \<open>io_fault i\<close> is the error with which
  the \<open>i\<close>-th call of the database driver fails, if it does; \<open>io_conflict\<close> is the driver's
  error for a violated primary key.
\<close>

record store_io =
  io_now :: time
  io_random :: "err + string"
  io_fault :: "nat \<Rightarrow> err option"
  io_conflict :: err

type_synonym ('a, 's) store_op = "'s \<Rightarrow> (err + 'a) \<times> 's"

record 's store_ops =
  so_record_run :: "store_io \<Rightarrow> run \<Rightarrow> (run, 's) store_op"
  so_finish_run :: "store_io \<Rightarrow> string \<Rightarrow> run_status \<Rightarrow> int \<Rightarrow> err option \<Rightarrow> (unit, 's) store_op"
  so_get_run :: "store_io \<Rightarrow> string \<Rightarrow> (run, 's) store_op"
  so_list_runs :: "store_io \<Rightarrow> int \<Rightarrow> (run list, 's) store_op"
  so_last_success :: "store_io \<Rightarrow> (time option, 's) store_op"
  so_record_message :: "store_io \<Rightarrow> processed_message \<Rightarrow> (unit, 's) store_op"
  so_already_processed :: "store_io \<Rightarrow> message_key list \<Rightarrow> (message_key set, 's) store_op"
  so_record_flag :: "store_io \<Rightarrow> flag_record \<Rightarrow> (unit, 's) store_op"
  so_record_digest :: "store_io \<Rightarrow> digest_record \<Rightarrow> (unit, 's) store_op"
  so_save_summary :: "store_io \<Rightarrow> digest_summary \<Rightarrow> (unit, 's) store_op"
  so_previous_summary :: "store_io \<Rightarrow> string \<Rightarrow> (digest_summary option, 's) store_op"

definition run_not_found :: err where
  "run_not_found = Sentinel ''run not found''"

definition err_string :: "err option \<Rightarrow> string" where
  "err_string e = (case e of None \<Rightarrow> [] | Some e \<Rightarrow> err_text e)"

text \<open>The defaults that both implementations fill in.\<close>

definition fill_run :: "time \<Rightarrow> string \<Rightarrow> run \<Rightarrow> run" where
  "fill_run now i r =
     (let r1 = (if run_id r = [] then r\<lparr>run_id := i\<rparr> else r);
          r2 = (if time_is_zero (run_started r1) then r1\<lparr>run_started := now\<rparr> else r1)
      in if run_state r2 = RunUnset then r2\<lparr>run_state := RunRunning\<rparr> else r2)"

lemma fill_run_simps [simp]:
  "run_finished (fill_run now i r) = run_finished r"
  "run_id (fill_run now i r) = (if run_id r = [] then i else run_id r)"
  "run_started (fill_run now i r) = (if run_started r = 0 then now else run_started r)"
  "run_state (fill_run now i r) = (if run_state r = RunUnset then RunRunning else run_state r)"
  "run_count (fill_run now i r) = run_count r"
  "run_error (fill_run now i r) = run_error r"
  by (simp_all add: fill_run_def Let_def time_is_zero_def)

definition finished_run :: "time \<Rightarrow> run_status \<Rightarrow> int \<Rightarrow> string \<Rightarrow> run \<Rightarrow> run" where
  "finished_run now st n e r =
     r\<lparr>run_finished := Some now, run_state := st, run_count := n, run_error := e\<rparr>"

text \<open>Recording a list of messages one after the other, stopping at the first error: this is the
  loop that the pipeline runs over a store.\<close>

fun record_messages ::
  "'s store_ops \<Rightarrow> (nat \<Rightarrow> store_io) \<Rightarrow> nat \<Rightarrow> processed_message list \<Rightarrow> (unit, 's) store_op" where
  "record_messages ops io i [] s = (Inr (), s)"
| "record_messages ops io i (m # ms) s =
     (case so_record_message ops (io i) m s of
        (Inl e, s') \<Rightarrow> (Inl e, s')
      | (Inr _, s') \<Rightarrow> record_messages ops io (Suc i) ms s')"

text \<open>A sequence of calls, with the answers of its queries, and what the answers should be.\<close>

datatype store_call =
    CallMessage processed_message
  | CallFlag flag_record
  | CallProcessed "message_key list"

fun run_calls :: "'s store_ops \<Rightarrow> store_io \<Rightarrow> store_call list \<Rightarrow> 's \<Rightarrow> message_key set list \<times> 's" where
  "run_calls ops io [] s = ([], s)"
| "run_calls ops io (CallMessage m # cs) s = run_calls ops io cs (snd (so_record_message ops io m s))"
| "run_calls ops io (CallFlag f # cs) s = run_calls ops io cs (snd (so_record_flag ops io f s))"
| "run_calls ops io (CallProcessed ks # cs) s =
     (case so_already_processed ops io ks s of
        (Inl e, s') \<Rightarrow> run_calls ops io cs s'
      | (Inr K, s') \<Rightarrow> (K # fst (run_calls ops io cs s'), snd (run_calls ops io cs s')))"

fun answers :: "store_call list \<Rightarrow> message_key set \<Rightarrow> message_key set list" where
  "answers [] K = []"
| "answers (CallMessage m # cs) K = answers cs (insert (pm_key m) K)"
| "answers (CallFlag f # cs) K = answers cs K"
| "answers (CallProcessed ks # cs) K = (set ks \<inter> K) # answers cs K"

fun messages_of :: "store_call list \<Rightarrow> message_key set" where
  "messages_of [] = {}"
| "messages_of (CallMessage m # cs) = insert (pm_key m) (messages_of cs)"
| "messages_of (c # cs) = messages_of cs"

fun flags_of :: "store_call list \<Rightarrow> (message_key \<times> string) set" where
  "flags_of [] = {}"
| "flags_of (CallFlag f # cs) = insert (flag_id f) (flags_of cs)"
| "flags_of (c # cs) = flags_of cs"

lemma not_isl_pair: "\<not> isl (fst p) \<Longrightarrow> \<exists>u s. p = (Inr u, s)"
  by (cases p; cases "fst p") auto

section \<open>The contract\<close>

text \<open>The instants that a stored timestamp can represent: years 1 to 9999.\<close>

definition max_time :: time where
  "max_time = 3652059 * 24 * hour_ns"

definition storable :: "time \<Rightarrow> bool" where
  "storable t \<longleftrightarrow> 0 \<le> t \<and> t < max_time"

text \<open>
  \<open>wf\<close> is the representation invariant, \<open>known\<close> the keys of the processed messages,
  \<open>flagged\<close> the recorded flags, and \<open>completed\<close> the finishing times of the completed runs.
  The last successful run time may be up to a second (exclusive) older than the latest one.
\<close>

locale store =
  fixes ops :: "'s store_ops"
    and wf :: "'s \<Rightarrow> bool"
    and known :: "'s \<Rightarrow> message_key set"
    and flagged :: "'s \<Rightarrow> (message_key \<times> string) set"
    and completed :: "'s \<Rightarrow> time set"
  assumes run_ok: "so_record_run ops io r s = (Inr r', s') \<Longrightarrow> wf s \<Longrightarrow> storable (io_now io) \<Longrightarrow>
        storable (run_started r) \<Longrightarrow> run_finished r = None \<Longrightarrow>
        wf s' \<and> known s' = known s \<and> flagged s' = flagged s \<and> completed s' = completed s"
    and run_fail: "so_record_run ops io r s = (Inl e, s') \<Longrightarrow> s' = s"
    and message_ok: "so_record_message ops io m s = (Inr u, s') \<Longrightarrow> wf s \<Longrightarrow>
        wf s' \<and> known s' = insert (pm_key m) (known s) \<and> flagged s' = flagged s
        \<and> completed s' = completed s"
    and message_fail: "so_record_message ops io m s = (Inl e, s') \<Longrightarrow> s' = s"
    and message_again: "so_record_message ops io m s = (Inr u, s') \<Longrightarrow> wf s \<Longrightarrow>
        pm_key m \<in> known s \<Longrightarrow> s' = s"
    and processed_ok: "so_already_processed ops io ks s = (Inr K, s') \<Longrightarrow> wf s \<Longrightarrow> K = set ks \<inter> known s"
    and processed_state: "so_already_processed ops io ks s = (pr, s') \<Longrightarrow> s' = s"
    and flag_ok: "so_record_flag ops io f s = (Inr u, s') \<Longrightarrow> wf s \<Longrightarrow>
        wf s' \<and> flagged s' = insert (flag_id f) (flagged s) \<and> known s' = known s
        \<and> completed s' = completed s"
    and flag_fail: "so_record_flag ops io f s = (Inl e, s') \<Longrightarrow> s' = s"
    and digest_ok: "so_record_digest ops io d s = (dr, s') \<Longrightarrow> wf s \<Longrightarrow>
        wf s' \<and> known s' = known s \<and> flagged s' = flagged s \<and> completed s' = completed s"
    and finish_ok: "so_finish_run ops io i st n eo s = (fin, s') \<Longrightarrow> wf s \<Longrightarrow> storable (io_now io) \<Longrightarrow>
        st \<in> set named_statuses \<Longrightarrow>
        wf s' \<and> known s' = known s \<and> flagged s' = flagged s
        \<and> completed s' \<subseteq> (if st = RunCompleted then insert (io_now io) (completed s) else completed s)
        \<and> (st = RunCompleted \<and> fin = Inr () \<longrightarrow> io_now io \<in> completed s')"
    and last_ok: "so_last_success ops io s = (Inr t, s') \<Longrightarrow> wf s \<Longrightarrow>
        (case t of None \<Rightarrow> completed s = {}
         | Some t \<Rightarrow> t \<in> completed s \<and> (\<forall>t' \<in> completed s. t' < t + second_ns))"
    and last_state: "so_last_success ops io s = (lr, s') \<Longrightarrow> s' = s"
    and previous_state: "so_previous_summary ops io i s = (p, s') \<Longrightarrow> s' = s"
begin

lemma record_messages_known:
  assumes "record_messages ops io i ms s = (r, s')" and "wf s"
  shows "wf s' \<and> known s \<subseteq> known s' \<and> known s' \<subseteq> known s \<union> pm_key ` set ms
    \<and> (r = Inr () \<longrightarrow> known s' = known s \<union> pm_key ` set ms)
    \<and> flagged s' = flagged s \<and> completed s' = completed s"
  using assms
proof (induction ms arbitrary: i s)
  case (Cons m ms)
  obtain q s1 where step: "so_record_message ops (io i) m s = (q, s1)" by fastforce
  show ?case
  proof (cases q)
    case (Inl e)
    with step Cons.prems message_fail [of "io i" m s e s1] show ?thesis by auto
  next
    case (Inr u)
    with step Cons.prems message_ok [of "io i" m s u s1] Cons.IH [of "Suc i" s1]
    show ?thesis by auto
  qed
qed auto

text \<open>Recording is idempotent: recording the same messages again changes nothing.\<close>

lemma record_messages_again:
  assumes "record_messages ops io i ms s = (Inr (), s')" and "pm_key ` set ms \<subseteq> known s" and "wf s"
  shows "s' = s"
  using assms
proof (induction ms arbitrary: i s)
  case (Cons m ms)
  then obtain u s1 where step: "so_record_message ops (io i) m s = (Inr u, s1)"
    "record_messages ops io (Suc i) ms s1 = (Inr (), s')"
    by (auto split: prod.splits sum.splits)
  then have "s1 = s" using message_again [of "io i" m s u s1] Cons.prems by simp
  then show ?case using Cons step by simp
qed simp

lemma record_then_processed:
  assumes "record_messages ops io i ms s = (Inr (), s1)" and "wf s"
    and "so_already_processed ops io' ks s1 = (Inr K, s2)"
  shows "K = {k \<in> set ks. k \<in> known s \<or> k \<in> pm_key ` set ms}" and "s2 = s1"
  using record_messages_known [OF assms(1,2)] processed_ok [OF assms(3)] processed_state [OF assms(3)]
  by blast+

lemma run_calls_answers:
  assumes "\<And>m s. \<not> isl (fst (so_record_message ops io m s))"
    and "\<And>f s. \<not> isl (fst (so_record_flag ops io f s))"
    and "\<And>ks s. \<not> isl (fst (so_already_processed ops io ks s))"
    and "wf s"
  shows "fst (run_calls ops io cs s) = answers cs (known s) \<and> wf (snd (run_calls ops io cs s))
    \<and> known (snd (run_calls ops io cs s)) = known s \<union> messages_of cs
    \<and> flagged (snd (run_calls ops io cs s)) = flagged s \<union> flags_of cs"
  using assms(4)
proof (induction cs arbitrary: s)
  case (Cons c cs)
  show ?case
  proof (cases c)
    case (CallMessage m)
    obtain u s1 where "so_record_message ops io m s = (Inr u, s1)"
      using not_isl_pair [OF assms(1) [of m s]] by blast
    then show ?thesis using Cons message_ok [of io m s u s1] CallMessage by simp
  next
    case (CallFlag f)
    obtain u s1 where "so_record_flag ops io f s = (Inr u, s1)"
      using not_isl_pair [OF assms(2) [of f s]] by blast
    then show ?thesis using Cons flag_ok [of io f s u s1] CallFlag by simp
  next
    case (CallProcessed ks)
    obtain K s1 where "so_already_processed ops io ks s = (Inr K, s1)"
      using not_isl_pair [OF assms(3) [of ks s]] by blast
    then show ?thesis
      using Cons processed_ok [of io ks s K s1] processed_state [of io ks s "Inr K" s1] CallProcessed
      by simp
  qed
qed simp

end

end
