(* ===== verification/LlmParse.thy ===== *)
theory LlmParse
  imports Sanitize Store
begin

text \<open>
  \<open>internal/llm/llm.go\<close> and \<open>internal/llm/parse.go\<close>: the request and response types and the parser
  that stands between a model's answer and the pipeline.  Decoding JSON into the wrapper struct is
  the parameter \<open>decode\<close>; the search for the JSON in the text, every check of an item and every
  error text are modelled.
\<close>

section \<open>Requests and responses\<close>

record input_message =
  im_key :: message_key
  im_subject :: string
  im_from :: string
  im_date :: time
  im_body :: string
  im_is_read :: bool

record llm_request =
  rq_model :: string
  rq_system :: string
  rq_classification :: string
  rq_labels :: "string list"
  rq_messages :: "input_message list"

record token_usage =
  tu_prompt :: int
  tu_completion :: int
  tu_total :: int

record llm_response =
  rs_classifications :: "classification list"
  rs_usage :: token_usage
  rs_raw :: string
  rs_version :: int

section \<open>The JSON structure\<close>

text \<open>The value that \<open>json.Unmarshal\<close> stores in a \<open>classificationsWrapper\<close>.\<close>

record llm_item =
  it_uid :: uid
  it_account :: string
  it_label :: string
  it_confidence :: rat
  it_reason :: string
  it_summary :: string
  it_key_points :: "string list"
  it_action_items :: "string list"
  it_priority :: string
  it_urgency :: string

record llm_wrapper =
  wr_version :: int
  wr_items :: "llm_item list"

record parse_result =
  ps_classifications :: "classification list"
  ps_version :: int

definition current_schema_version :: int where
  "current_schema_version = 1"

definition no_result :: parse_result where
  "no_result = \<lparr>ps_classifications = [], ps_version = 0\<rparr>"

section \<open>Cleaning the text\<close>

definition fence :: string where
  "fence = ''```''"

definition strip_fences :: "string \<Rightarrow> string" where
  "strip_fences s =
     (let s0 = trim_space s;
          s1 = (if has_prefix (fence @ ''json'') s0 then drop 7 s0
                else if has_prefix fence s0 then drop 3 s0 else s0);
          s2 = (case last_index fence s1 of Some k \<Rightarrow> take k s1 | None \<Rightarrow> s1)
      in trim_space s2)"

definition sanitize_response :: "string \<Rightarrow> string" where
  "sanitize_response raw =
     (let s = trim_space raw in
      case (index_of ''{'' s, last_index ''}'' s) of
        (Some a, Some b) \<Rightarrow> if b \<le> a then s else take (b + 1 - a) (drop a s)
      | _ \<Rightarrow> s)"

section \<open>Validating the items\<close>

definition valid_priority :: "string \<Rightarrow> bool" where
  "valid_priority p \<longleftrightarrow> p = ''high'' \<or> p = ''medium'' \<or> p = ''low''"

definition normalize_priority :: "string \<Rightarrow> string" where
  "normalize_priority p = to_lower (trim_space p)"

definition normalize_legacy_urgency :: "string \<Rightarrow> string" where
  "normalize_legacy_urgency u =
     (let n = normalize_priority u in if n = ''normal'' then ''medium'' else n)"

definition first_non_empty :: "string list \<Rightarrow> string" where
  "first_non_empty vs = (case find (\<lambda>v. \<not> is_blank v) vs of Some v \<Rightarrow> v | None \<Rightarrow> [])"

definition item_key :: "llm_item \<Rightarrow> message_key" where
  "item_key it = \<lparr>mk_account = it_account it, mk_uid = it_uid it\<rparr>"

definition item_priority :: "llm_item \<Rightarrow> string" where
  "item_priority it =
     (let p = normalize_priority (it_priority it) in
      if p = [] \<and> \<not> is_blank (it_urgency it) then normalize_legacy_urgency (it_urgency it) else p)"

text \<open>The messages: \<open>item %d: <what> for <account>/<uid>\<close>.\<close>

definition item_error :: "nat \<Rightarrow> string \<Rightarrow> string" where
  "item_error i what = ''item '' @ fmt_d (int i) @ '': '' @ what"

definition item_where :: "llm_item \<Rightarrow> string" where
  "item_where it = it_account it @ ''/'' @ fmt_d (uint (it_uid it))"

definition blank_points :: "nat \<Rightarrow> llm_item \<Rightarrow> string list" where
  "blank_points i it =
     map (\<lambda>(j, p). item_error i (''empty key_points['' @ fmt_d (int j) @ ''] for '' @ item_where it))
       (filter (\<lambda>(j, p). is_blank p) (enumerate 0 (it_key_points it)))"

text \<open>The checks of one item after the duplicate check, in the code's order: the errors, none of
  them when the item is accepted.\<close>

definition item_errors :: "string set \<Rightarrow> nat \<Rightarrow> llm_item \<Rightarrow> string list" where
  "item_errors labels i it =
     (if it_label it \<notin> labels
      then [item_error i (''unknown label '' @ go_quote (it_label it) @ '' for '' @ item_where it)]
      else if it_confidence it < 0 \<or> it_confidence it > 1
      then [item_error i (''confidence '' @ fmt_f (it_confidence it) @ '' out of range [0,1] for '' @ item_where it)]
      else if item_priority it \<noteq> [] \<and> \<not> valid_priority (item_priority it)
      then [item_error i (''invalid priority '' @ go_quote (first_non_empty [it_priority it, it_urgency it])
              @ '' for '' @ item_where it)]
      else if is_blank (it_summary it) then [item_error i (''empty summary for '' @ item_where it)]
      else if it_key_points it = [] then [item_error i (''empty key_points for '' @ item_where it)]
      else blank_points i it)"

definition item_classification :: "llm_item \<Rightarrow> classification" where
  "item_classification it =
     \<lparr>cl_key = item_key it, cl_label = it_label it, cl_confidence = it_confidence it,
      cl_reason = it_reason it, cl_summary = it_summary it, cl_key_points = it_key_points it,
      cl_action_items = it_action_items it, cl_priority = item_priority it,
      cl_urgency = it_urgency it, cl_error = None\<rparr>"

fun parse_items ::
  "string set \<Rightarrow> nat \<Rightarrow> message_key set \<Rightarrow> llm_item list \<Rightarrow> classification list \<times> string list" where
  "parse_items labels i seen [] = ([], [])"
| "parse_items labels i seen (it # its) =
     (if item_key it \<in> seen
      then let (cs, es) = parse_items labels (Suc i) seen its
           in (cs, item_error i (''duplicate key '' @ item_where it) # es)
      else let (cs, es) = parse_items labels (Suc i) (insert (item_key it) seen) its;
               errs = item_errors labels i it
           in if errs = [] then (item_classification it # cs, es) else (cs, errs @ es))"

definition label_names :: "string list \<Rightarrow> string set" where
  "label_names ls = insert ''Unknown'' (set ls)"

definition finish_parse :: "llm_wrapper \<Rightarrow> string list \<Rightarrow> parse_result \<times> err option" where
  "finish_parse w labels =
     (let (cs, es) = parse_items (label_names labels) 0 {} (wr_items w);
          n = fmt_d (int (length (wr_items w)));
          res = \<lparr>ps_classifications = cs, ps_version = wr_version w\<rparr>
      in if es = [] then (res, None)
         else if cs \<noteq> []
         then (res, Some (Err (''parse: '' @ fmt_d (int (length es)) @ ''/'' @ n @ '' items invalid: ''
                 @ join_with ''; '' es)))
         else (no_result, Some (Err (''parse: all '' @ n @ '' items invalid: '' @ join_with ''; '' es))))"

text \<open>\<open>decode\<close> is \<open>json.Unmarshal\<close> into a fresh wrapper.\<close>

definition parse_response ::
  "(string \<Rightarrow> err + llm_wrapper) \<Rightarrow> string \<Rightarrow> string list \<Rightarrow> parse_result \<times> err option" where
  "parse_response decode raw labels =
     (if is_blank raw then (no_result, Some (Err ''parse: empty response''))
      else case decode (sanitize_response (strip_fences raw)) of
        Inl e \<Rightarrow> (no_result, Some (Wrap ''parse: invalid JSON: '' e))
      | Inr w \<Rightarrow>
          if wr_version w < 0
          then (no_result, Some (Err (''parse: invalid schema_version '' @ fmt_d (wr_version w)
                  @ '' (must be >= 0)'')))
          else if wr_version w > current_schema_version
          then (no_result, Some (Err (''parse: unsupported schema_version '' @ fmt_d (wr_version w)
                  @ '' (max supported: '' @ fmt_d current_schema_version @ '')'')))
          else if wr_items w = [] then (no_result, Some (Err ''parse: empty classifications array''))
          else finish_parse w labels)"

section \<open>Repair and extra validation\<close>

definition format_labels :: "string list \<Rightarrow> string" where
  "format_labels ls =
     join_with [CHR 0x0A] (map (\<lambda>l. ''- '' @ l)
       (if ls = [] then [''Useful'', ''ToDelete'', ''Ads'', ''Unknown''] else ls))"

definition validate_errors :: "classification list \<Rightarrow> string list" where
  "validate_errors cs =
     concat (map (\<lambda>(i, c).
        (if cl_label c = []
         then [item_error i (''empty label for '' @ mk_account (cl_key c) @ ''/'' @ fmt_d (uint (mk_uid (cl_key c))))]
         else [])
        @ (if cl_confidence c < 0 \<or> cl_confidence c > 1
           then [item_error i (''confidence '' @ fmt_f (cl_confidence c) @ '' out of range'')] else []))
       (enumerate 0 cs))"

definition validate_response :: "classification list \<Rightarrow> int \<Rightarrow> err option" where
  "validate_response cs expected =
     (if cs = [] then Some (Err ''validate: no classifications'')
      else if expected > 0 \<and> int (length cs) \<noteq> expected
      then Some (Err (''validate: expected '' @ fmt_d expected @ '' classifications, got ''
              @ fmt_d (int (length cs))))
      else let es = validate_errors cs in
        if es = [] then None else Some (Err (''validate: '' @ join_with ''; '' es)))"

definition nl :: string where
  "nl = [CHR 0x0A]"

definition en_dash :: string where
  "en_dash = [CHR 0xE2, CHR 0x80, CHR 0x93]"

definition schema_example :: string where
  \<open>schema_example =
     ''{"uid": ..., "account": "...", "label": "...", "confidence": 0.0, "reason": "...", ''
     @ ''"summary": "...", "key_points": ["..."], "action_items": ["..."], "priority": "medium"}''\<close>

definition repair_with_prompt :: "string \<Rightarrow> err option \<Rightarrow> string list \<Rightarrow> err + string" where
  \<open>repair_with_prompt raw parse_err labels =
     (if is_blank raw then Inl (Err ''repair: empty raw response'')
      else case parse_err of
        None \<Rightarrow> Inl (Err (''repair: parseErr is nil '' @ [CHR 0xE2, CHR 0x80, CHR 0x94] @ '' nothing to repair''))
      | Some e \<Rightarrow> Inr (
          ''The following JSON response from an email classifier is invalid:'' @ nl @ nl
          @ fence @ nl @ raw @ nl @ fence @ nl @ nl
          @ ''Parse error: '' @ err_text e @ nl @ nl
          @ ''Please fix the JSON and output ONLY valid JSON in this exact format (no markdown fences, no extra text):'' @ nl @ nl
          @ ''{"schema_version": '' @ fmt_d current_schema_version @ '', "classifications": [''
          @ nl @ ''  '' @ schema_example @ nl @ '']}'' @ nl @ nl
          @ ''Valid labels:'' @ nl @ format_labels labels @ nl @ nl @ ''Rules:'' @ nl
          @ ''- Each item must have: uid (number), account (string), label (string from the list above), confidence (0.0''
          @ en_dash @ ''1.0), reason (string), summary (non-empty string), key_points (non-empty array of strings)'' @ nl
          @ ''- No duplicate (account, uid) pairs'' @ nl
          @ ''- Confidence must be between 0.0 and 1.0'' @ nl
          @ ''- action_items are optional'' @ nl
          @ ''- priority is optional when unavailable; when present it must be one of: high, medium, low'' @ nl
          @ ''- schema_version must be '' @ fmt_d current_schema_version @ nl
          @ ''- Output ONLY the JSON object, nothing else'' @ nl))\<close>

section \<open>What a parsed response guarantees\<close>

definition well_analysed :: "string list \<Rightarrow> classification \<Rightarrow> bool" where
  "well_analysed labels c \<longleftrightarrow>
     cl_label c \<in> label_names labels \<and> 0 \<le> cl_confidence c \<and> cl_confidence c \<le> 1
     \<and> (cl_priority c = [] \<or> valid_priority (cl_priority c)) \<and> \<not> is_blank (cl_summary c)
     \<and> cl_key_points c \<noteq> [] \<and> list_all (\<lambda>p. \<not> is_blank p) (cl_key_points c) \<and> cl_error c = None"

definition item_ok :: "string list \<Rightarrow> llm_item \<Rightarrow> bool" where
  "item_ok labels it \<longleftrightarrow> well_analysed labels (item_classification it)"

lemma item_classification_key [simp]: "cl_key (item_classification it) = item_key it"
  by (simp add: item_classification_def)

lemma blank_points_Nil: "blank_points i it = [] \<longleftrightarrow> list_all (\<lambda>p. \<not> is_blank p) (it_key_points it)"
  by (auto simp: blank_points_def filter_empty_conv in_set_enumerate_eq list_all_length)

lemma item_errors_Nil: "item_errors (label_names labels) i it = [] \<longleftrightarrow> item_ok labels it"
  by (auto simp: item_errors_def item_ok_def well_analysed_def item_classification_def blank_points_Nil)

lemma parse_items_sound:
  assumes "parse_items (label_names labels) i seen its = (cs, es)"
  shows "list_all (well_analysed labels) cs \<and> distinct (map cl_key cs)
    \<and> cl_key ` set cs \<inter> seen = {} \<and> set cs \<subseteq> item_classification ` set its"
  using assms
proof (induction "label_names labels" i seen its arbitrary: cs es rule: parse_items.induct)
  case (2 i seen it its)
  show ?case
  proof (cases "item_key it \<in> seen")
    case True
    with 2 show ?thesis by (fastforce split: prod.splits)
  next
    case False
    obtain cs1 es1 where rec: "parse_items (label_names labels) (Suc i) (insert (item_key it) seen) its = (cs1, es1)"
      by fastforce
    note IH = "2.hyps"(2) [OF False rec]
    show ?thesis
    proof (cases "item_errors (label_names labels) i it = []")
      case True
      then have "well_analysed labels (item_classification it)" by (simp add: item_errors_Nil item_ok_def)
      then show ?thesis using IH 2 False rec True by (auto; blast)
    next
      case errs: False
      then show ?thesis using IH 2 False rec by auto
    qed
  qed
qed simp

lemma parse_items_complete:
  "snd (parse_items (label_names labels) i seen its) = [] \<longleftrightarrow>
     distinct (map item_key its) \<and> item_key ` set its \<inter> seen = {} \<and> list_all (item_ok labels) its"
  "snd (parse_items (label_names labels) i seen its) = [] \<Longrightarrow>
     fst (parse_items (label_names labels) i seen its) = map item_classification its"
proof (induction "label_names labels" i seen its rule: parse_items.induct)
  case (2 i seen it its)
  {
    case 1
    show ?case using 2 by (auto simp: Let_def item_errors_Nil split: prod.splits; blast)
  next
    case 2
    then show ?case using "2.hyps" by (auto simp: Let_def split: prod.splits if_splits)
  }
qed simp_all

text \<open>C18: whatever text a model returns, every classification that \<open>ParseResponse\<close> hands on, also in
  a partial result, has a configured label or Unknown, a confidence in [0, 1], a priority that is
  empty, high, medium or low, a summary and key points that are not blank, and no two of them
  have the same message key.\<close>

theorem parse_response_sound:
  "list_all (well_analysed labels) (ps_classifications (fst (parse_response decode raw labels)))
   \<and> distinct (map cl_key (ps_classifications (fst (parse_response decode raw labels))))"
proof -
  have "list_all (well_analysed labels) (ps_classifications (fst (finish_parse w labels)))
    \<and> distinct (map cl_key (ps_classifications (fst (finish_parse w labels))))" for w
    using parse_items_sound [of labels 0 "{}" "wr_items w"]
    by (auto simp: finish_parse_def no_result_def Let_def split: prod.splits)
  then show ?thesis
    by (simp add: parse_response_def no_result_def split: sum.split)
qed

text \<open>\<open>ParseResponse\<close> succeeds exactly when the cleaned text decodes to a supported schema version
  with at least one item, all keys distinct and every item acceptable, and then returns one
  classification per item, in order.\<close>

theorem parse_response_succeeds:
  "parse_response decode raw labels = (r, None) \<longleftrightarrow>
     \<not> is_blank raw \<and>
     (\<exists>w. decode (sanitize_response (strip_fences raw)) = Inr w \<and> wr_version w \<in> {0, 1}
        \<and> wr_items w \<noteq> [] \<and> distinct (map item_key (wr_items w)) \<and> list_all (item_ok labels) (wr_items w)
        \<and> r = \<lparr>ps_classifications = map item_classification (wr_items w), ps_version = wr_version w\<rparr>)"
proof -
  have fin: "finish_parse w labels = (r, None) \<longleftrightarrow> distinct (map item_key (wr_items w))
      \<and> list_all (item_ok labels) (wr_items w)
      \<and> r = \<lparr>ps_classifications = map item_classification (wr_items w), ps_version = wr_version w\<rparr>"
    for w
    using parse_items_complete [of labels 0 "{}" "wr_items w"]
    by (auto simp: finish_parse_def Let_def split: prod.splits)
  have version: "\<not> v < 0 \<and> \<not> current_schema_version < v \<longleftrightarrow> v \<in> {0, 1}" for v
    by (auto simp: current_schema_version_def)
  show ?thesis
    using version
    by (auto simp: parse_response_def fin split: sum.split if_splits)
qed

text \<open>When no item is acceptable there is an error and no classification at all.\<close>

lemma parse_response_error_text:
  "parse_response decode raw labels = (r, Some e) \<Longrightarrow> has_prefix ''parse: '' (err_text e)"
  by (auto simp: parse_response_def finish_parse_def Let_def has_prefix_def split: if_splits sum.splits prod.splits)

section \<open>Finding the JSON in the text\<close>

lemma braces_not_space: "\<forall>p \<in> set space_encs. CHR ''{'' \<notin> set p \<and> CHR ''}'' \<notin> set p"
  by (simp add: space_encs_def)

lemma ticks_not_space: "\<forall>p \<in> set space_encs. CHR 0x60 \<notin> set p \<and> CHR 0x60 \<notin> set p"
  by (simp add: space_encs_def)

lemma sanitize_response_braces:
  assumes "CHR ''{'' \<notin> set pre" and "CHR ''}'' \<notin> set post"
  shows "sanitize_response (pre @ (CHR ''{'' # b @ ''}'') @ post) = CHR ''{'' # b @ ''}''"
proof -
  obtain pre' post' where t: "trim_space (pre @ (CHR ''{'' # b @ ''}'') @ post) = pre' @ (CHR ''{'' # b @ ''}'') @ post'"
    "set pre' \<subseteq> set pre" "set post' \<subseteq> set post"
    using trim_space_stop [OF braces_not_space] by metis
  define s where "s = pre' @ (CHR ''{'' # b @ ''}'') @ post'"
  have "index_of ''{'' s = Some (length pre')"
    using index_of_char [of "CHR ''{''" pre' "b @ ''}'' @ post'"] t assms by (auto simp: s_def)
  moreover have "last_index ''}'' s = Some (length pre' + 1 + length b)"
    using last_index_char [of "CHR ''}''" post' "pre' @ CHR ''{'' # b"] t assms by (auto simp: s_def)
  ultimately show ?thesis
    unfolding sanitize_response_def t(1) s_def [symmetric] Let_def by (simp add: s_def)
qed

lemma trim_fenced: "trim_space (fence @ m @ fence) = fence @ m @ fence"
proof -
  have "fence @ m @ fence = [] @ (CHR 0x60 # ''``'' @ m @ ''``'' @ [CHR 0x60]) @ []" by (simp add: fence_def)
  then show ?thesis
    using trim_space_stop [OF ticks_not_space, of "[]" "''``'' @ m @ ''``''" "[]"] by auto
qed

text \<open>The same inside a fenced block.\<close>

lemma sanitize_fenced:
  "sanitize_response (strip_fences (fence @ ''json'' @ nl @ (CHR ''{'' # b @ ''}'') @ nl @ fence)) = CHR ''{'' # b @ ''}''"
proof -
  define m where "m = nl @ (CHR ''{'' # b @ ''}'') @ nl"
  define raw where "raw = fence @ ''json'' @ m @ fence"
  have "trim_space raw = raw" using trim_fenced [of "''json'' @ m"] by (simp add: raw_def)
  moreover have "has_prefix (fence @ ''json'') raw" "drop 7 raw = m @ fence"
    by (simp_all add: raw_def has_prefix_def fence_def)
  moreover have "last_index fence (m @ fence) = Some (length m)"
    by (rule last_index_end) (simp add: fence_def)
  ultimately have "strip_fences raw = trim_space m" by (simp add: strip_fences_def Let_def)
  moreover have "sanitize_response (trim_space m) = sanitize_response m"
    by (simp add: sanitize_response_def trim_space_idem)
  moreover have "sanitize_response m = CHR ''{'' # b @ ''}''"
    unfolding m_def by (rule sanitize_response_braces) (simp_all add: nl_def)
  ultimately show ?thesis by (simp add: raw_def m_def)
qed

text \<open>The JSON object of a response is found whatever surrounds it: text without an opening brace
  before it and text without a closing brace after it are dropped, and an object inside a fenced
  block comes out unchanged, also when it contains a fence itself.\<close>

theorem json_extracted:
  assumes "CHR ''{'' \<notin> set pre" and "CHR ''}'' \<notin> set post"
  shows "sanitize_response (pre @ (CHR ''{'' # b @ ''}'') @ post) = CHR ''{'' # b @ ''}''
    \<and> sanitize_response (strip_fences (fence @ ''json'' @ nl @ (CHR ''{'' # b @ ''}'') @ nl @ fence))
      = CHR ''{'' # b @ ''}''"
  using sanitize_response_braces [OF assms] sanitize_fenced by simp

theorem json_extracted_witness:
  "sanitize_response (''Sure! '' @ (CHR ''{'' # ''...'' @ ''}'') @ '' Done.'') = ''{...}''"
  using json_extracted [of "''Sure! ''" "'' Done.''" "''...''"] by simp

text \<open>A response without an opening fence is not returned as it is when three backticks occur in
  it: everything from the last occurrence on is cut off, which breaks valid JSON whose summary
  quotes a code block.\<close>

theorem strip_fences_truncates:
  \<open>strip_fences ''{"summary":"use ``` here"}'' = ''{"summary":"use''\<close>
  by code_simp

end
