(* ===== verification/Prompt.thy ===== *)
theory Prompt
  imports LlmParse
begin

text \<open>
  \<open>internal/llm/prompt.go\<close>: the classification prompt.  The built-in template is written out as
  the text that \<open>text/template\<close> produces from it.  A prompt configured by the user is itself a
  template; running it is the parameter \<open>custom\<close>, which gets the template, the formatted labels
  and the messages.  \<open>fmt_date\<close> prints a date in the RFC 2822 layout in the time zone that the
  date carries.
\<close>

definition prompt_intro :: string where
  \<open>prompt_intro = join_with nl
     [''You are an email classifier. Your task is to classify each email below into one of the following labels:'',
      [],
      []]\<close>

definition prompt_fields :: string where
  \<open>prompt_fields = join_with nl
     [[],
      [],
      ''For each email, output a JSON object with these fields:'',
      ''  - "uid": the email's UID (number)'',
      ''  - "account": the account label (string)'',
      ''  - "label": the classification label from the list above (string)'',
      ''  - "confidence": your confidence in this classification, 0.0 to 1.0 (float)'',
      ''  - "reason": a short justification for the classification (string)'',
      ''  - "summary": a concise summary of the email (string)'',
      ''  - "key_points": important facts or details from the email (array of strings)'',
      ''  - "action_items": follow-up tasks requested by the email, if any (optional array of strings)'',
      ''  - "priority": one of "high", "medium", or "low" (string)'',
      [],
      ''Assess priority using these signals:'',
      ''  - high: explicit deadlines or due dates soon, payment or security risk, direct requests to the recipient, calendar/time-sensitive commitments, or important sender context.'',
      ''  - medium: useful business or personal updates that may need review but have no immediate deadline or risk.'',
      ''  - low: informational, promotional, automated, or non-actionable messages with little time sensitivity.'',
      [],
      []]\<close>

definition prompt_output :: string where
  \<open>prompt_output = join_with nl
     [[],
      [],
      ''Output ONLY valid JSON in this exact format (no markdown fences, no extra text):'',
      [],
      ''{"schema_version": 1, "classifications": ['',
      ''  {"uid": ..., "account": "...", "label": "...", "confidence": 0.0, "reason": "...", "summary": "...", "key_points": ["..."], "action_items": ["..."], "priority": "medium"}'',
      '']}'',
      [],
      ''If you cannot classify an email, use label "Unknown" with confidence 0.0.'']\<close>

definition email_tag :: "input_message \<Rightarrow> string" where
  "email_tag m = mk_account (im_key m) @ ''/'' @ fmt_d (uint (mk_uid (im_key m)))"

definition email_block :: "(time \<Rightarrow> string) \<Rightarrow> input_message \<Rightarrow> string" where
  "email_block fmt_date m =
     nl @ ''<<< EMAIL '' @ email_tag m @ '' >>>'' @ nl
     @ ''From: '' @ im_from m @ nl
     @ ''Subject: '' @ im_subject m @ nl
     @ ''Date: '' @ fmt_date (im_date m) @ nl
     @ ''Status: '' @ (if im_is_read m then ''Read'' else ''Unread'') @ nl @ nl
     @ ''Body:'' @ nl @ im_body m @ nl
     @ ''<<< END EMAIL '' @ email_tag m @ '' >>>'' @ nl"

definition default_prompt :: "(time \<Rightarrow> string) \<Rightarrow> string \<Rightarrow> input_message list \<Rightarrow> string" where
  "default_prompt fmt_date labels ms =
     prompt_intro @ labels @ prompt_fields @ concat (map (email_block fmt_date) ms) @ prompt_output"

text \<open>The error of a custom template is already one of the two that \<open>BuildPrompt\<close> wraps:
  \<^const>\<open>Inl\<close> of a pair tells parsing (\<^const>\<open>True\<close>) from execution.\<close>

type_synonym template_engine = "string \<Rightarrow> string \<Rightarrow> input_message list \<Rightarrow> (bool \<times> err) + string"

definition build_prompt :: "(time \<Rightarrow> string) \<Rightarrow> template_engine \<Rightarrow> llm_request \<Rightarrow> err + string" where
  "build_prompt fmt_date custom req =
     (let labels = format_labels (rq_labels req) in
      if rq_classification req = [] then Inr (default_prompt fmt_date labels (rq_messages req))
      else case custom (rq_classification req) labels (rq_messages req) of
        Inl (parsing, e) \<Rightarrow>
          Inl (Wrap (if parsing then ''prompt.parse_template: '' else ''prompt.execute: '') e)
      | Inr p \<Rightarrow> Inr p)"

definition build_prompt_from_messages ::
  "(time \<Rightarrow> string) \<Rightarrow> template_engine \<Rightarrow> string \<Rightarrow> string \<Rightarrow> string list \<Rightarrow> input_message list
   \<Rightarrow> err + string" where
  "build_prompt_from_messages fmt_date custom system classification labels ms =
     build_prompt fmt_date custom
       \<lparr>rq_model = [], rq_system = system, rq_classification = classification, rq_labels = labels,
        rq_messages = ms\<rparr>"

definition default_labels_list :: string where
  "default_labels_list = join_with '', '' [''Useful'', ''ToDelete'', ''Ads'', ''Unknown'']"

definition body_rune_kept :: "nat \<Rightarrow> bool" where
  "body_rune_kept r \<longleftrightarrow> r = 10 \<or> r = 9 \<or> r = 13 \<or> \<not> r < 32"

definition sanitize_body :: "string \<Rightarrow> string" where
  "sanitize_body body = string_of_runes (filter body_rune_kept (runes_of (trim_space body)))"


section \<open>Delimiters\<close>

text \<open>The lines in front of a body.\<close>

definition block_head :: "(time \<Rightarrow> string) \<Rightarrow> input_message \<Rightarrow> string" where
  "block_head fmt_date m =
     nl @ ''<<< EMAIL '' @ email_tag m @ '' >>>'' @ nl
     @ ''From: '' @ im_from m @ nl
     @ ''Subject: '' @ im_subject m @ nl
     @ ''Date: '' @ fmt_date (im_date m) @ nl
     @ ''Status: '' @ (if im_is_read m then ''Read'' else ''Unread'') @ nl @ nl
     @ ''Body:'' @ nl"

lemma email_block_split:
  "email_block f m = block_head f m @ im_body m @ nl @ ''<<< END EMAIL '' @ email_tag m @ '' >>>'' @ nl"
  by (simp only: email_block_def block_head_def append_assoc)

text \<open>The delimiters around a message do not isolate it: for every message and every text that
  somebody wants to smuggle in as another message, there is a body that makes the block of the one
  message read exactly like three blocks, the forged message in the middle.\<close>

theorem prompt_delimiters_forgeable:
  "\<exists>body. default_prompt f labels (ms @ [m\<lparr>im_body := body\<rparr>] @ ms')
     = default_prompt f labels (ms @ [m\<lparr>im_body := b1\<rparr>, forged, m\<lparr>im_body := b2\<rparr>] @ ms')"
proof -
  have head: "block_head f (m\<lparr>im_body := b\<rparr>) = block_head f m"
    and tag: "email_tag (m\<lparr>im_body := b\<rparr>) = email_tag m" for b
    by (simp_all add: block_head_def email_tag_def)
  let ?close = "nl @ ''<<< END EMAIL '' @ email_tag m @ '' >>>'' @ nl"
  have "email_block f (m\<lparr>im_body := b1 @ ?close @ email_block f forged @ block_head f m @ b2\<rparr>)
    = email_block f (m\<lparr>im_body := b1\<rparr>) @ email_block f forged @ email_block f (m\<lparr>im_body := b2\<rparr>)"
    by (simp add: email_block_split [of f "m\<lparr>im_body := _\<rparr>"] head tag)
  then show ?thesis
    by (intro exI [of _ "b1 @ ?close @ email_block f forged @ block_head f m @ b2"]) (simp add: default_prompt_def)
qed

end
