(* ===== verification/Providers.thy ===== *)
theory Providers
  imports Prompt
begin

text \<open>
  \<open>internal/llm/{gemini,mistral,ollama,openrouter}\<close> and the provider registry of
  \<open>internal/llm/llm.go\<close>.  What a provider takes from outside is its environment: marshalling the
  request, sending it and reading the answer, and decoding the answer into the provider's response
  struct.  Each \<open>Classify\<close> is modelled with all its error branches and the response that goes with
  each error; an HTTP error is not retried by any of them.

  All four share one contract, the locale \<open>validating_provider\<close>: a provider that reports success
  has itself parsed the raw text without error.
\<close>

section \<open>Environment\<close>

record provider =
  pv_key :: string
  pv_endpoint :: string
  pv_model :: string

record http_request =
  hq_url :: string
  hq_headers :: "(string \<times> string) list"
  hq_body :: string

record http_reply =
  hp_code :: int
  hp_status :: string
  hp_body :: "err + string"

record ('req, 'resp) provider_env =
  pe_provider :: provider
  pe_marshal :: "'req \<Rightarrow> err + string"
  pe_new_request :: "string \<Rightarrow> err option"
  pe_do :: "http_request \<Rightarrow> err + http_reply"
  pe_decode :: "string \<Rightarrow> err + 'resp"
  pe_json :: "string \<Rightarrow> err + llm_wrapper"
  pe_date :: "time \<Rightarrow> string"
  pe_template :: template_engine

definition no_usage :: token_usage where
  "no_usage = \<lparr>tu_prompt = 0, tu_completion = 0, tu_total = 0\<rparr>"

definition empty_response :: llm_response where
  "empty_response = \<lparr>rs_classifications = [], rs_usage = no_usage, rs_raw = [], rs_version = 0\<rparr>"

text \<open>The part of \<open>Classify\<close> from marshalling to the decoded response, the same in every provider
  up to the name in the error texts, the URL and the headers.\<close>

definition exchange ::
  "string \<Rightarrow> ('req, 'resp) provider_env \<Rightarrow> string \<Rightarrow> (string \<times> string) list \<Rightarrow> 'req \<Rightarrow> err + 'resp" where
  "exchange name env url headers req =
     (case pe_marshal env req of
        Inl e \<Rightarrow> Inl (Wrap (name @ ''.classify.marshal: '') e)
      | Inr body \<Rightarrow>
     (case pe_new_request env url of
        Some e \<Rightarrow> Inl (Wrap (name @ ''.classify.new_request: '') e)
      | None \<Rightarrow>
     (case pe_do env \<lparr>hq_url = url, hq_headers = headers, hq_body = body\<rparr> of
        Inl e \<Rightarrow> Inl (Wrap (name @ ''.classify.request: '') e)
      | Inr rep \<Rightarrow>
     (case hp_body rep of
        Inl e \<Rightarrow> Inl (Wrap (name @ ''.classify.read_body: '') e)
      | Inr text \<Rightarrow>
          if hp_code rep \<noteq> 200 then Inl (Err (name @ ''.classify: '' @ hp_status rep @ '': '' @ text))
          else (case pe_decode env text of
            Inl e \<Rightarrow> Inl (Wrap (name @ ''.classify.unmarshal: '') e)
          | Inr resp \<Rightarrow> Inr resp)))))"

text \<open>The end of \<open>Classify\<close>: parse the text of the answer.\<close>

definition parse_text ::
  "string \<Rightarrow> (string \<Rightarrow> err + llm_wrapper) \<Rightarrow> string list \<Rightarrow> string \<Rightarrow> token_usage
   \<Rightarrow> llm_response \<times> err option" where
  "parse_text name decode labels text usage =
     (case parse_response decode text labels of
        (r, Some e) \<Rightarrow>
          (empty_response\<lparr>rs_raw := text, rs_usage := usage\<rparr>, Some (Wrap (name @ ''.classify.parse: '') e))
      | (r, None) \<Rightarrow>
          (\<lparr>rs_classifications = ps_classifications r, rs_usage = usage, rs_raw = text,
            rs_version = ps_version r\<rparr>, None))"

section \<open>Chat completion providers\<close>

record chat_msg =
  ch_role :: string
  ch_content :: string

record chat_request =
  cq_model :: string
  cq_messages :: "chat_msg list"
  cq_stream :: bool
  cq_temperature :: rat

text \<open>The messages of a conversation: the system prompt, when there is one, and the classification prompt.\<close>

definition chat_messages :: "string \<Rightarrow> string \<Rightarrow> chat_msg list" where
  "chat_messages system prompt =
     (if system \<noteq> [] then [\<lparr>ch_role = ''system'', ch_content = system\<rparr>] else [])
     @ [\<lparr>ch_role = ''user'', ch_content = prompt\<rparr>]"

definition mistral_request :: "string \<Rightarrow> string \<Rightarrow> string \<Rightarrow> chat_request" where
  "mistral_request model system prompt =
     \<lparr>cq_model = model, cq_messages = chat_messages system prompt, cq_stream = False, cq_temperature = 0\<rparr>"

definition openrouter_request :: "string \<Rightarrow> string \<Rightarrow> string \<Rightarrow> chat_request" where
  "openrouter_request model system prompt =
     \<lparr>cq_model = model, cq_messages = chat_messages system prompt, cq_stream = False, cq_temperature = 0\<rparr>"

record chat_choice =
  cc_index :: int
  cc_message :: chat_msg
  cc_finish :: string

record chat_response =
  cr_choices :: "chat_choice list"
  cr_usage :: "token_usage option"

definition mistral_usage :: "chat_response \<Rightarrow> token_usage" where
  "mistral_usage r = (case cr_usage r of None \<Rightarrow> no_usage | Some u \<Rightarrow> u)"

definition openrouter_usage :: "chat_response \<Rightarrow> token_usage" where
  "openrouter_usage r = (case cr_usage r of None \<Rightarrow> no_usage | Some u \<Rightarrow> u)"

text \<open>\<open>Classify\<close> of Mistral and OpenRouter, which differ in the name and in the functions they call.\<close>

definition chat_classify ::
  "string \<Rightarrow> (string \<Rightarrow> string \<Rightarrow> string \<Rightarrow> chat_request) \<Rightarrow> (chat_response \<Rightarrow> token_usage)
   \<Rightarrow> (chat_request, chat_response) provider_env \<Rightarrow> llm_request \<Rightarrow> llm_response \<times> err option" where
  "chat_classify name build usage env req =
     (case build_prompt (pe_date env) (pe_template env) req of
        Inl e \<Rightarrow> (empty_response, Some (Wrap (name @ ''.classify.build_prompt: '') e))
      | Inr prompt \<Rightarrow>
     (case exchange name env (pv_endpoint (pe_provider env) @ ''/chat/completions'')
             [(''Content-Type'', ''application/json''),
              (''Authorization'', ''Bearer '' @ pv_key (pe_provider env))]
             (build (pv_model (pe_provider env)) (rq_system req) prompt) of
        Inl e \<Rightarrow> (empty_response, Some e)
      | Inr resp \<Rightarrow>
     (case cr_choices resp of
        [] \<Rightarrow> (empty_response\<lparr>rs_usage := usage resp\<rparr>,
               Some (Err (name @ ''.classify: no choices in response'')))
      | c # _ \<Rightarrow>
          let text = ch_content (cc_message c) in
          if text = [] then (empty_response\<lparr>rs_usage := usage resp\<rparr>,
               Some (Err (name @ ''.classify: empty response content'')))
          else parse_text name (pe_json env) (rq_labels req) text (usage resp))))"

definition mistral_classify ::
  "(chat_request, chat_response) provider_env \<Rightarrow> llm_request \<Rightarrow> llm_response \<times> err option" where
  "mistral_classify = chat_classify ''mistral'' mistral_request mistral_usage"

definition openrouter_classify ::
  "(chat_request, chat_response) provider_env \<Rightarrow> llm_request \<Rightarrow> llm_response \<times> err option" where
  "openrouter_classify = chat_classify ''openrouter'' openrouter_request openrouter_usage"

text \<open>Ollama takes the temperature in an options object, whose address is never nil.\<close>

record ollama_request =
  oq_model :: string
  oq_messages :: "chat_msg list"
  oq_stream :: bool
  oq_options :: "rat option"

definition build_ollama_request :: "string \<Rightarrow> string \<Rightarrow> string \<Rightarrow> ollama_request" where
  "build_ollama_request model system prompt =
     \<lparr>oq_model = model, oq_messages = chat_messages system prompt, oq_stream = False, oq_options = Some 0\<rparr>"

record ollama_response =
  or_message :: chat_msg
  or_done :: bool
  or_prompt_eval :: int
  or_eval :: int

definition ollama_usage :: "ollama_response \<Rightarrow> token_usage" where
  "ollama_usage r =
     (if or_prompt_eval r = 0 \<and> or_eval r = 0 then no_usage
      else \<lparr>tu_prompt = or_prompt_eval r, tu_completion = or_eval r,
            tu_total = or_prompt_eval r + or_eval r\<rparr>)"

definition ollama_classify ::
  "(ollama_request, ollama_response) provider_env \<Rightarrow> llm_request \<Rightarrow> llm_response \<times> err option" where
  "ollama_classify env req =
     (case build_prompt (pe_date env) (pe_template env) req of
        Inl e \<Rightarrow> (empty_response, Some (Wrap ''ollama.classify.build_prompt: '' e))
      | Inr prompt \<Rightarrow>
     (case exchange ''ollama'' env (pv_endpoint (pe_provider env) @ ''/chat'')
             [(''Content-Type'', ''application/json'')]
             (build_ollama_request (pv_model (pe_provider env)) (rq_system req) prompt) of
        Inl e \<Rightarrow> (empty_response, Some e)
      | Inr resp \<Rightarrow>
          if \<not> or_done resp then (empty_response, Some (Err ''ollama.classify: response not complete''))
          else let text = ch_content (or_message resp) in
          if text = [] then (empty_response\<lparr>rs_usage := ollama_usage resp\<rparr>,
               Some (Err ''ollama.classify: empty response content''))
          else parse_text ''ollama'' (pe_json env) (rq_labels req) text (ollama_usage resp)))"

section \<open>Gemini\<close>

record gemini_request =
  gq_system :: "string list option"
  gq_contents :: "string list list"

record gemini_candidate =
  gc_parts :: "string list"
  gc_finish :: string

record gemini_response =
  gr_candidates :: "gemini_candidate list"
  gr_usage :: "token_usage option"
  gr_block_reason :: "string option"

definition build_gemini_request :: "string \<Rightarrow> string \<Rightarrow> gemini_request" where
  "build_gemini_request system prompt =
     \<lparr>gq_system = (if system \<noteq> [] then Some [system] else None), gq_contents = [[prompt]]\<rparr>"

definition extract_text :: "gemini_candidate \<Rightarrow> string" where
  "extract_text c = concat (gc_parts c)"

definition gemini_usage :: "gemini_response \<Rightarrow> token_usage" where
  "gemini_usage r = (case gr_usage r of None \<Rightarrow> no_usage | Some u \<Rightarrow> u)"

definition gemini_classify ::
  "(gemini_request, gemini_response) provider_env \<Rightarrow> llm_request \<Rightarrow> llm_response \<times> err option" where
  "gemini_classify env req =
     (case build_prompt (pe_date env) (pe_template env) req of
        Inl e \<Rightarrow> (empty_response, Some (Wrap ''gemini.classify.build_prompt: '' e))
      | Inr prompt \<Rightarrow>
     (case exchange ''gemini'' env
             (pv_endpoint (pe_provider env) @ ''/models/'' @ pv_model (pe_provider env) @ '':generateContent'')
             [(''Content-Type'', ''application/json''), (''x-goog-api-key'', pv_key (pe_provider env))]
             (build_gemini_request (rq_system req) prompt) of
        Inl e \<Rightarrow> (empty_response, Some e)
      | Inr resp \<Rightarrow>
          if gr_block_reason resp \<noteq> None \<and> gr_block_reason resp \<noteq> Some []
          then (empty_response, Some (Err (''gemini.classify: prompt blocked: '' @ the (gr_block_reason resp))))
          else (case gr_candidates resp of
            [] \<Rightarrow> (empty_response\<lparr>rs_usage := gemini_usage resp\<rparr>,
                   Some (Err ''gemini.classify: no candidates returned''))
          | c # _ \<Rightarrow>
              let text = extract_text c in
              if text = [] then (empty_response\<lparr>rs_usage := gemini_usage resp\<rparr>,
                   Some (Err ''gemini.classify: empty candidate text''))
              else if gc_finish c = ''SAFETY''
              then (empty_response\<lparr>rs_raw := text, rs_usage := gemini_usage resp\<rparr>,
                   Some (Err ''gemini.classify: response blocked by safety filters''))
              else parse_text ''gemini'' (pe_json env) (rq_labels req) text (gemini_usage resp))))"

section \<open>Construction and registry\<close>

definition make_provider :: "string \<Rightarrow> string \<Rightarrow> string \<Rightarrow> string \<Rightarrow> provider" where
  "make_provider default_endpoint key endpoint model =
     \<lparr>pv_key = key, pv_endpoint = (if endpoint = [] then default_endpoint else endpoint), pv_model = model\<rparr>"

definition keyed_factory :: "string \<Rightarrow> string \<Rightarrow> string \<Rightarrow> string \<Rightarrow> string \<Rightarrow> err + provider" where
  "keyed_factory name default_endpoint key endpoint model =
     (if key = [] then Inl (Err (name @ '': api key is required''))
      else if model = [] then Inl (Err (name @ '': model name is required''))
      else Inr (make_provider default_endpoint key endpoint model))"

definition gemini_factory :: "string \<Rightarrow> string \<Rightarrow> string \<Rightarrow> err + provider" where
  "gemini_factory = keyed_factory ''gemini'' ''https://generativelanguage.googleapis.com/v1beta''"

definition mistral_factory :: "string \<Rightarrow> string \<Rightarrow> string \<Rightarrow> err + provider" where
  "mistral_factory = keyed_factory ''mistral'' ''https://api.mistral.ai/v1''"

definition openrouter_factory :: "string \<Rightarrow> string \<Rightarrow> string \<Rightarrow> err + provider" where
  "openrouter_factory = keyed_factory ''openrouter'' ''https://openrouter.ai/api/v1''"

definition ollama_factory :: "string \<Rightarrow> string \<Rightarrow> string \<Rightarrow> err + provider" where
  "ollama_factory key endpoint model =
     (if model = [] then Inl (Err ''ollama: model name is required'')
      else Inr (make_provider ''http://localhost:11434/api'' key endpoint model))"

text \<open>A registry is a map from names to factories; registering a name twice panics (\<^const>\<open>None\<close>).\<close>

definition register_factory :: "string \<Rightarrow> 'f \<Rightarrow> (string \<times> 'f) list \<Rightarrow> (string \<times> 'f) list option" where
  "register_factory name f r = (if map_of r name \<noteq> None then None else Some (r @ [(name, f)]))"

definition lookup_factory :: "(string \<times> 'f) list \<Rightarrow> string \<Rightarrow> 'f option" where
  "lookup_factory r name = map_of r name"

definition registered :: "(string \<times> 'f) list \<Rightarrow> string list" where
  "registered r = map fst r"

section \<open>The contract of a provider\<close>

locale validating_provider =
  fixes classify :: "llm_request \<Rightarrow> llm_response \<times> err option"
    and decode :: "string \<Rightarrow> err + llm_wrapper"
  assumes success: "classify req = (r, None) \<Longrightarrow>
    parse_response decode (rs_raw r) (rq_labels req) =
      (\<lparr>ps_classifications = rs_classifications r, ps_version = rs_version r\<rparr>, None)"
begin

lemma success_parses:
  "classify req = (r, None) \<Longrightarrow> snd (parse_response decode (rs_raw r) (rq_labels req)) = None"
  using success by simp

lemma success_classifications:
  "classify req = (r, None) \<Longrightarrow>
     ps_classifications (fst (parse_response decode (rs_raw r) (rq_labels req))) = rs_classifications r"
  using success by simp

end

lemma parse_text_success:
  "parse_text name decode labels text usage = (r, None) \<Longrightarrow>
     parse_response decode (rs_raw r) labels =
       (\<lparr>ps_classifications = rs_classifications r, ps_version = rs_version r\<rparr>, None)"
  by (auto simp: parse_text_def split: prod.splits option.splits)

lemma chat_classify_success:
  "chat_classify name build usage env req = (r, None) \<Longrightarrow>
     parse_response (pe_json env) (rs_raw r) (rq_labels req) =
       (\<lparr>ps_classifications = rs_classifications r, ps_version = rs_version r\<rparr>, None)"
  by (auto simp: chat_classify_def Let_def split: sum.splits list.splits if_splits
      intro: parse_text_success)

interpretation mistral: validating_provider "mistral_classify env" "pe_json env" for env
  by unfold_locales (simp add: mistral_classify_def chat_classify_success)

interpretation openrouter: validating_provider "openrouter_classify env" "pe_json env" for env
  by unfold_locales (simp add: openrouter_classify_def chat_classify_success)

interpretation ollama: validating_provider "ollama_classify env" "pe_json env" for env
  by unfold_locales
    (auto simp: ollama_classify_def Let_def split: sum.splits if_splits intro: parse_text_success)

interpretation gemini: validating_provider "gemini_classify env" "pe_json env" for env
  by unfold_locales
    (auto simp: gemini_classify_def Let_def split: sum.splits list.splits if_splits
      intro: parse_text_success)

end
