(* ===== verification/Classify.thy ===== *)
theory Classify
  imports Providers
begin

text \<open>
  The reasoning step of \<open>internal/orchestrator/orchestrator.go\<close>: building the request, and
  \<open>classifyWithPartialFallback\<close>, which parses the answer once more, asks the model for a repair when
  items are invalid, and marks what stays invalid as failed.  The provider is a parameter over a
  world \<open>'w\<close>; \<open>decode\<close> is the JSON decoder of \<open>ParseResponse\<close>.
\<close>

section \<open>The request\<close>

definition build_label_set :: "config \<Rightarrow> string list" where
  "build_label_set cfg = default_labels @ lb_custom (cfg_labels cfg)"

definition messages_to_inputs :: "message list \<Rightarrow> input_message list" where
  "messages_to_inputs = map (\<lambda>m.
     \<lparr>im_key = \<lparr>mk_account = msg_account m, mk_uid = msg_uid m\<rparr>, im_subject = msg_subject m, im_from = msg_from m,
      im_date = msg_date m, im_body = msg_body m, im_is_read = msg_is_read m\<rparr>)"

definition build_request :: "config \<Rightarrow> message list \<Rightarrow> llm_request" where
  "build_request cfg messages =
     \<lparr>rq_model = llm_model (cfg_llm cfg), rq_system = pr_system (cfg_prompts cfg),
      rq_classification = pr_classification (cfg_prompts cfg), rq_labels = build_label_set cfg,
      rq_messages = messages_to_inputs messages\<rparr>"

section \<open>Repair\<close>

type_synonym 'w provider_call = "llm_request \<Rightarrow> 'w \<Rightarrow> (llm_response \<times> err option) \<times> 'w"

definition failed_classification :: "message_key \<Rightarrow> classification" where
  "failed_classification key =
     \<lparr>cl_key = key, cl_label = ''Unknown'', cl_confidence = 0, cl_reason = [], cl_summary = [], cl_key_points = [],
      cl_action_items = [], cl_priority = [], cl_urgency = [], cl_error = None\<rparr>"

definition repair_request :: "config \<Rightarrow> string list \<Rightarrow> string \<Rightarrow> llm_request" where
  "repair_request cfg labels prompt =
     \<lparr>rq_model = llm_model (cfg_llm cfg), rq_system = pr_system (cfg_prompts cfg), rq_classification = prompt,
      rq_labels = labels, rq_messages = []\<rparr>"

definition repair_once ::
  "'w provider_call \<Rightarrow> config \<Rightarrow> string \<Rightarrow> err option \<Rightarrow> string list \<Rightarrow> 'w \<Rightarrow> (err + string) \<times> 'w" where
  "repair_once classify cfg raw parse_err labels w =
     (case repair_with_prompt raw parse_err labels of
        Inl e \<Rightarrow> (Inl (Wrap ''repair: build prompt: '' e), w)
      | Inr prompt \<Rightarrow>
     (case classify (repair_request cfg labels prompt) w of
        ((_, Some e), w) \<Rightarrow> (Inl (Wrap ''repair: provider classify: '' e), w)
      | ((resp, None), w) \<Rightarrow> (Inr (rs_raw resp), w)))"

record classify_outcome =
  co_valid :: "classification list"
  co_failed :: "classification list"
  co_errors :: "analysis_error list"
  co_err :: "err option"

definition missing_keys :: "input_message list \<Rightarrow> message_key set \<Rightarrow> message_key list" where
  "missing_keys ms valid = filter (\<lambda>k. k \<notin> valid) (map im_key ms)"

definition analysis_errors :: "string \<Rightarrow> string \<Rightarrow> message_key list \<Rightarrow> analysis_error list" where
  "analysis_errors what stage keys = map (\<lambda>k. \<lparr>ae_key = k, ae_error = what, ae_stage = stage\<rparr>) keys"

text \<open>The loop that takes over repaired items: \<open>valid\<close> and the set of their keys.\<close>

fun merge_repaired :: "classification list \<Rightarrow> classification list \<times> message_key set \<Rightarrow> classification list \<times> message_key set" where
  "merge_repaired [] st = st"
| "merge_repaired (c # cs) (valid, keys) =
     merge_repaired cs (if cl_key c \<in> keys then (valid, keys) else (valid @ [c], insert (cl_key c) keys))"

definition partial_outcome :: "classification list \<Rightarrow> message_key list \<Rightarrow> analysis_error list \<Rightarrow> classify_outcome" where
  "partial_outcome valid missing errors =
     \<lparr>co_valid = valid, co_failed = map failed_classification missing, co_errors = errors, co_err = None\<rparr>"

definition classify_with_partial_fallback ::
  "'w provider_call \<Rightarrow> (string \<Rightarrow> err + llm_wrapper) \<Rightarrow> config \<Rightarrow> llm_request \<Rightarrow> 'w \<Rightarrow> classify_outcome \<times> 'w" where
  "classify_with_partial_fallback classify decode cfg request w =
     (let labels = build_label_set cfg;
          max_attempts = (if llm_repair_max_attempts (cfg_llm cfg) < 0 then 1 else llm_repair_max_attempts (cfg_llm cfg))
      in case classify request w of
        ((_, Some e), w) \<Rightarrow>
          (\<lparr>co_valid = [], co_failed = [], co_errors = [], co_err = Some (Wrap ''initial classify: '' e)\<rparr>, w)
      | ((resp, None), w) \<Rightarrow>
     (case parse_response decode (rs_raw resp) labels of
        (pr, None) \<Rightarrow> (\<lparr>co_valid = ps_classifications pr, co_failed = [], co_errors = [], co_err = None\<rparr>, w)
      | (pr, Some pe) \<Rightarrow>
          let valid = ps_classifications pr;
              keys = cl_key ` set valid;
              missing = missing_keys (rq_messages request) keys
          in if missing = []
             then (\<lparr>co_valid = valid, co_failed = [], co_errors = [], co_err = None\<rparr>, w)
             else if max_attempts = 0
             then (partial_outcome valid missing
                     (analysis_errors (''parse/validation failed: '' @ err_text pe) ''parse'' missing), w)
             else (case repair_once classify cfg (rs_raw resp) (Some pe) labels w of
                 (Inl re, w) \<Rightarrow>
                   (partial_outcome valid missing
                      (analysis_errors (''repair failed: '' @ err_text re) ''repair'' missing), w)
               | (Inr repaired, w) \<Rightarrow>
                   (case parse_response decode repaired labels of
                      (_, Some re) \<Rightarrow>
                        (partial_outcome valid missing
                           (analysis_errors (''repair produced invalid response: '' @ err_text re) ''repair'' missing), w)
                    | (rr, None) \<Rightarrow>
                        let (valid', keys') = merge_repaired (ps_classifications rr) (valid, keys);
                            missing' = missing_keys (rq_messages request) keys'
                        in (partial_outcome valid' missing'
                              (analysis_errors ''repair did not produce valid analysis for this item'' ''repair'' missing'),
                            w)))))"

section \<open>What the outcome guarantees\<close>

lemma parse_response_items:
  assumes "parse_response decode raw labels = (r, e)"
  shows "list_all (well_analysed labels) (ps_classifications r)" and "distinct (map cl_key (ps_classifications r))"
proof -
  have "list_all (well_analysed labels) (ps_classifications (fst (finish_parse w labels)))
    \<and> distinct (map cl_key (ps_classifications (fst (finish_parse w labels))))" for w
    using parse_items_sound [of labels 0 "{}" "wr_items w"]
    by (auto simp: finish_parse_def no_result_def Let_def split: prod.splits)
  then have "list_all (well_analysed labels) (ps_classifications (fst (parse_response decode raw labels)))
    \<and> distinct (map cl_key (ps_classifications (fst (parse_response decode raw labels))))"
    by (simp add: parse_response_def no_result_def split: sum.split)
  then show "list_all (well_analysed labels) (ps_classifications r)" "distinct (map cl_key (ps_classifications r))"
    using assms by simp_all
qed

lemma merge_repaired_sound:
  assumes "merge_repaired cs (valid, keys) = (valid', keys')" and "keys = cl_key ` set valid"
    and "distinct (map cl_key valid)" and "list_all P valid" and "list_all P cs"
  shows "keys' = cl_key ` set valid' \<and> distinct (map cl_key valid') \<and> list_all P valid'
    \<and> (\<exists>added. valid' = valid @ added) \<and> cl_key ` set valid' = cl_key ` set valid \<union> cl_key ` set cs"
  using assms
proof (induction cs arbitrary: valid keys)
  case (Cons c cs)
  show ?case
  proof (cases "cl_key c \<in> keys")
    case True
    then show ?thesis using Cons.IH [of valid keys] Cons.prems by auto
  next
    case False
    then have "merge_repaired cs (valid @ [c], insert (cl_key c) keys) = (valid', keys')" using Cons.prems(1) by simp
    from Cons.IH [OF this] False Cons.prems(2-) show ?thesis by auto
  qed
qed simp

lemma keys_of_errors: "map ae_key (analysis_errors what stage keys) = keys"
  by (simp add: analysis_errors_def comp_def)

lemma failed_classification_key [simp]: "cl_key (failed_classification k) = k"
  by (simp add: failed_classification_def)

text \<open>The invariant of an outcome.\<close>

definition outcome_ok :: "string list \<Rightarrow> input_message list \<Rightarrow> classify_outcome \<Rightarrow> bool" where
  "outcome_ok labels ms out \<longleftrightarrow>
     list_all (well_analysed labels) (co_valid out) \<and> distinct (map cl_key (co_valid out))
     \<and> map ae_key (co_errors out) = map cl_key (co_failed out)
     \<and> cl_key ` set (co_valid out) \<inter> cl_key ` set (co_failed out) = {}
     \<and> cl_key ` set (co_failed out) \<subseteq> im_key ` set ms
     \<and> (co_failed out \<noteq> [] \<longrightarrow> im_key ` set ms \<subseteq> cl_key ` set (co_valid out) \<union> cl_key ` set (co_failed out))"

lemma partial_outcome_ok:
  assumes "list_all (well_analysed labels) valid" and "distinct (map cl_key valid)"
  shows "outcome_ok labels ms (partial_outcome valid (missing_keys ms (cl_key ` set valid))
      (analysis_errors what stage (missing_keys ms (cl_key ` set valid))))"
  using assms
  by (auto simp: outcome_ok_def partial_outcome_def keys_of_errors missing_keys_def image_image comp_def)

text \<open>C21: every classification that the step accepts is well formed, no two have the same message, the
  failed ones are paired with their errors in order and are all messages of the request, none is
  both accepted and failed, and when some failed every message of the request is one or the other.\<close>

theorem classify_outcome_ok:
  "outcome_ok (build_label_set cfg) (rq_messages request)
     (fst (classify_with_partial_fallback classify decode cfg request w))"
proof -
  let ?labels = "build_label_set cfg" and ?ms = "rq_messages request"
  have plain: "outcome_ok ?labels ?ms \<lparr>co_valid = ps_classifications pr, co_failed = [], co_errors = [], co_err = None\<rparr>"
    if "parse_response decode raw ?labels = (pr, e)" for raw pr e
    using parse_response_items [OF that] by (simp add: outcome_ok_def)
  have partial: "outcome_ok ?labels ?ms (partial_outcome (ps_classifications pr)
        (missing_keys ?ms (cl_key ` set (ps_classifications pr)))
        (analysis_errors what stage (missing_keys ?ms (cl_key ` set (ps_classifications pr)))))"
    if "parse_response decode raw ?labels = (pr, e)" for raw pr e what stage
    using partial_outcome_ok parse_response_items [OF that] .
  have merged: "outcome_ok ?labels ?ms (partial_outcome valid' (missing_keys ?ms keys')
        (analysis_errors what stage (missing_keys ?ms keys')))"
    if "parse_response decode raw ?labels = (pr, e)" "parse_response decode raw' ?labels = (rr, e')"
      "merge_repaired (ps_classifications rr) (ps_classifications pr, cl_key ` set (ps_classifications pr)) = (valid', keys')"
    for raw pr e raw' rr e' valid' keys' what stage
  proof -
    note m = merge_repaired_sound [OF that(3) refl parse_response_items(2) [OF that(1)]
        parse_response_items(1) [OF that(1)] parse_response_items(1) [OF that(2)]]
    have keys: "keys' = cl_key ` set valid'" using m by (rule conjunct1)
    have "list_all (well_analysed ?labels) valid'" "distinct (map cl_key valid')" using m by simp_all
    then show ?thesis unfolding keys by (rule partial_outcome_ok)
  qed
  have none: "outcome_ok ?labels ?ms \<lparr>co_valid = [], co_failed = [], co_errors = [], co_err = e\<rparr>" for e
    by (simp add: outcome_ok_def)
  obtain resp e w1 where c: "classify request w = ((resp, e), w1)" by (metis prod.exhaust)
  show ?thesis
  proof (cases e)
    case (Some x)
    then show ?thesis using c none by (simp add: classify_with_partial_fallback_def Let_def)
  next
    case None
    obtain pr pe where p: "parse_response decode (rs_raw resp) ?labels = (pr, pe)" by fastforce
    note unfold = classify_with_partial_fallback_def Let_def c None p prod.case option.case
    show ?thesis
    proof (cases pe)
      case None
      then show ?thesis using plain [OF p] by (simp add: unfold)
    next
      case (Some x)
      obtain rr w2 where r: "repair_once classify cfg (rs_raw resp) (Some x) ?labels w1 = (rr, w2)" by fastforce
      show ?thesis
      proof (cases rr)
        case (Inl y)
        then show ?thesis
          unfolding unfold Some by (simp only: r split: if_split) (auto intro!: plain [OF p] partial [OF p])
      next
        case (Inr raw')
        show ?thesis
          unfolding unfold Some
          by (simp only: r Inr split: if_split sum.split option.split prod.split)
            (auto intro!: plain [OF p] partial [OF p] intro: merged [OF p])
      qed
    qed
  qed
qed

text \<open>The step calls the provider at most twice, and only once when repairs are switched off.\<close>

theorem classify_calls:
  fixes calls :: "'w \<Rightarrow> nat"
  assumes "\<And>req w. calls (snd (classify req w)) = Suc (calls w)"
  shows "calls (snd (classify_with_partial_fallback classify decode cfg request w)) \<le> calls w + 2
    \<and> (llm_repair_max_attempts (cfg_llm cfg) = 0 \<longrightarrow>
        calls (snd (classify_with_partial_fallback classify decode cfg request w)) = calls w + 1)"
proof -
  have step: "calls w2 = Suc (calls w1)" if "classify req w1 = (r, w2)" for req w1 r w2
    using assms [of req w1] that by simp
  have repair: "calls w2 \<le> Suc (calls w1)" if "repair_once classify cfg raw pe labels w1 = (r, w2)" for raw pe labels w1 r w2
    using that by (auto simp: repair_once_def dest: step split: sum.splits prod.splits option.splits)
  show ?thesis
    unfolding classify_with_partial_fallback_def Let_def
    by (auto dest!: step repair split: prod.split option.split sum.split)
qed

definition echo_provider :: "string \<Rightarrow> nat provider_call" where
  "echo_provider raw req n = ((empty_response\<lparr>rs_raw := raw\<rparr>, None), Suc n)"

theorem classify_calls_witness:
  "snd (classify_with_partial_fallback (echo_provider []) (\<lambda>_. Inl (Err ''bad'')) default_config
     (build_request default_config []) 0) \<le> (0::nat) + 2"
  using classify_calls [of "\<lambda>n. n" "echo_provider []"] by (simp add: echo_provider_def)

section \<open>Providers that validate\<close>

context validating_provider
begin

text \<open>A provider that parses the text itself leaves nothing to repair.\<close>

lemma outcome_of_success:
  assumes "rq_labels request = build_label_set cfg" and "classify request = (r, None)"
  shows "classify_with_partial_fallback (\<lambda>req n. (classify req, Suc n)) decode cfg request n =
    (\<lparr>co_valid = rs_classifications r, co_failed = [], co_errors = [], co_err = None\<rparr>, Suc n)"
  using success [OF assms(2)] assms by (simp add: classify_with_partial_fallback_def Let_def)

lemma no_partial_fallback:
  assumes "rq_labels request = build_label_set cfg"
  shows "co_failed (fst (classify_with_partial_fallback (\<lambda>req n. (classify req, Suc n)) decode cfg request n)) = []
    \<and> co_errors (fst (classify_with_partial_fallback (\<lambda>req n. (classify req, Suc n)) decode cfg request n)) = []
    \<and> snd (classify_with_partial_fallback (\<lambda>req n. (classify req, Suc n)) decode cfg request n) = Suc n"
proof (cases "classify request")
  case (Pair r e)
  then show ?thesis
  proof (cases e)
    case None
    with Pair show ?thesis using outcome_of_success [OF assms] by simp
  next
    case (Some x)
    with Pair show ?thesis by (simp add: classify_with_partial_fallback_def Let_def)
  qed
qed

end

text \<open>With each of the four providers the partial fallback is dead code: a response with one invalid
  item is an error of the provider already, so the step never reports failed items, never repairs,
  and always makes exactly one call.\<close>

theorem partial_fallback_unreachable:
  assumes "rq_labels request = build_label_set cfg"
  shows "list_all (\<lambda>(out, n). co_failed out = [] \<and> co_errors out = [] \<and> n = 1)
    [classify_with_partial_fallback (\<lambda>req n. (mistral_classify e1 req, Suc n)) (pe_json e1) cfg request 0,
     classify_with_partial_fallback (\<lambda>req n. (openrouter_classify e2 req, Suc n)) (pe_json e2) cfg request 0,
     classify_with_partial_fallback (\<lambda>req n. (ollama_classify e3 req, Suc n)) (pe_json e3) cfg request 0,
     classify_with_partial_fallback (\<lambda>req n. (gemini_classify e4 req, Suc n)) (pe_json e4) cfg request 0]"
  using mistral.no_partial_fallback [OF assms, of e1 0] openrouter.no_partial_fallback [OF assms, of e2 0]
    ollama.no_partial_fallback [OF assms, of e3 0] gemini.no_partial_fallback [OF assms, of e4 0]
  by (simp add: case_prod_unfold)

text \<open>A service that answers everything with an error.\<close>

definition silent_service :: "('req, 'resp) provider_env" where
  "silent_service =
     \<lparr>pe_provider = \<lparr>pv_key = ''k'', pv_endpoint = ''http://llm'', pv_model = ''m''\<rparr>, pe_marshal = (\<lambda>_. Inr []),
      pe_new_request = (\<lambda>_. None), pe_do = (\<lambda>_. Inl (Err ''down'')), pe_decode = (\<lambda>_. Inl (Err ''bad'')),
      pe_json = (\<lambda>_. Inl (Err ''bad'')), pe_date = (\<lambda>_. []), pe_template = (\<lambda>_ _ _. Inl (False, Err ''bad''))\<rparr>"

theorem partial_fallback_unreachable_witness:
  "co_failed (fst (classify_with_partial_fallback (\<lambda>req n. (mistral_classify silent_service req, Suc n))
     (pe_json (silent_service :: (chat_request, chat_response) provider_env)) default_config
     (build_request default_config []) 0)) = []"
  using partial_fallback_unreachable [of "build_request default_config []" default_config silent_service silent_service
      silent_service silent_service]
  by (simp add: build_request_def case_prod_unfold)

end
