(* ===== verification/Pipeline.thy ===== *)
theory Pipeline
  imports Stats Classify Store "HOL-Library.AList"
begin

text \<open>
  \<open>internal/orchestrator/orchestrator.go\<close>: one run of the agent, from recording the run over fetching,
  filtering, classifying, rendering, flagging and sending to recording what was done.  Everything
  that a \<open>Pipeline\<close> holds is in the record \<open>pipeline_env\<close>: the store is a record of operations, the
  ingesters, the provider and the channel act on a world \<open>'w\<close>, and the \<open>i\<close>-th reading of the clock
  or call of the store sees \<open>pn_io i\<close>.  Go's map iteration orders are functions of the environment.
  Logging is left out.
\<close>

section \<open>Options, results, environment\<close>

record run_options =
  ro_window :: "duration option"
  ro_force :: bool
  ro_dry_run :: bool
  ro_stateless :: bool

record run_result =
  res_run :: string
  res_status :: run_status
  res_fetched :: nat
  res_classified :: nat
  res_failed :: nat
  res_analysis_failed :: nat
  res_err :: "err option"

record ('s, 'w) world =
  w_store :: 's
  w_ticks :: nat
  w_ext :: 'w

record ('s, 'w) pipeline_env =
  pn_store :: "'s store_ops"
  pn_io :: "nat \<Rightarrow> store_io"
  pn_fetch_all :: "imap_account list \<Rightarrow> fetch_options \<Rightarrow> int \<Rightarrow> 'w \<Rightarrow> fetch_result list \<times> 'w"
  pn_has_ingester :: "string \<Rightarrow> bool"
  pn_apply_flags :: "imap_account \<Rightarrow> flag list \<Rightarrow> 'w \<Rightarrow> err option \<times> 'w"
  pn_classify :: "'w provider_call"
  pn_decode :: "string \<Rightarrow> err + llm_wrapper"
  pn_render :: "digest_data \<Rightarrow> err + string"
  pn_fallback :: "digest_data \<Rightarrow> err + string"
  pn_channel :: string
  pn_send :: "string \<Rightarrow> 'w \<Rightarrow> err option \<times> 'w"
  pn_hash :: "string \<Rightarrow> string"
  pn_error_order :: "(string \<times> err) list \<Rightarrow> (string \<times> err) list"
  pn_group_order :: "(string \<times> flag list) list \<Rightarrow> (string \<times> flag list) list"
  pn_sender_order :: "string counter \<Rightarrow> string counter"
  pn_cfg :: config

definition now :: "('s, 'w) pipeline_env \<Rightarrow> ('s, 'w) world \<Rightarrow> time \<times> ('s, 'w) world" where
  "now env w = (io_now (pn_io env (w_ticks w)), w\<lparr>w_ticks := Suc (w_ticks w)\<rparr>)"

definition with_store ::
  "('s, 'w) pipeline_env \<Rightarrow> ('s store_ops \<Rightarrow> store_io \<Rightarrow> ('a, 's) store_op) \<Rightarrow> ('s, 'w) world
   \<Rightarrow> (err + 'a) \<times> ('s, 'w) world" where
  "with_store env f w =
     (case f (pn_store env) (pn_io env (w_ticks w)) (w_store w) of
        (r, s) \<Rightarrow> (r, w\<lparr>w_store := s, w_ticks := Suc (w_ticks w)\<rparr>))"

text \<open>A call of the outside world.\<close>

definition with_ext :: "('w \<Rightarrow> 'a \<times> 'w) \<Rightarrow> ('s, 'w) world \<Rightarrow> 'a \<times> ('s, 'w) world" where
  "with_ext f w = (case f (w_ext w) of (r, x) \<Rightarrow> (r, w\<lparr>w_ext := x\<rparr>))"

section \<open>The fetch window\<close>

definition fetch_window ::
  "('s, 'w) pipeline_env \<Rightarrow> run_options \<Rightarrow> ('s, 'w) world \<Rightarrow> (err + time) \<times> ('s, 'w) world" where
  "fetch_window env opts w =
     (case ro_window opts of
        Some d \<Rightarrow> (case now env w of (t, w) \<Rightarrow> (Inr (t - d), w))
      | None \<Rightarrow>
     (case with_store env so_last_success w of
        (Inl e, w) \<Rightarrow> (Inl (Wrap ''orchestrator.window: '' e), w)
      | (Inr last_run, w) \<Rightarrow>
     (case now env w of (t, w) \<Rightarrow>
        let since = (case last_run of None \<Rightarrow> t - 24 * hour_ns | Some l \<Rightarrow> l);
            max_win = (if cfg_max_window (pn_cfg env) \<le> 0 then 72 * hour_ns else cfg_max_window (pn_cfg env))
        in case now env w of (t', w) \<Rightarrow>
             (Inr (if since < t' - max_win then t' - max_win else since), w))))"

section \<open>Filtering\<close>

definition store_key :: "message \<Rightarrow> message_key" where
  "store_key m = \<lparr>mk_account = msg_account m, mk_uid = msg_uid m\<rparr>"

definition filter_processed ::
  "('s, 'w) pipeline_env \<Rightarrow> message list \<Rightarrow> ('s, 'w) world \<Rightarrow> message list \<times> ('s, 'w) world" where
  "filter_processed env messages w =
     (case with_store env (\<lambda>ops io. so_already_processed ops io (map store_key messages)) w of
        (Inl e, w) \<Rightarrow> (messages, w)
      | (Inr processed, w) \<Rightarrow>
          if processed = {} then (messages, w)
          else (filter_already_processed messages (\<lambda>k. if k \<in> processed then Some True else None), w))"

section \<open>The digest data\<close>

definition plural :: "nat \<Rightarrow> string" where
  "plural n = (if n = 1 then [] else ''s'')"

definition account_highlight :: "account_stats \<Rightarrow> string list" where
  "account_highlight a =
     (if as_status a = ''error''
      then [''Account '' @ go_quote (as_label a) @ '' failed: ''
            @ (if 80 < length (as_error a) then take 77 (as_error a) @ ''...'' else as_error a)]
      else [])"

definition burst_highlight :: "counts \<Rightarrow> string \<times> nat \<Rightarrow> string list" where
  "burst_highlight prev sc =
     (let (sender, n) = sc; before = (case map_of prev sender of None \<Rightarrow> 0 | Some k \<Rightarrow> k) in
      if 3 \<le> n \<and> before < int n
      then [''Burst from '' @ sender @ '': '' @ fmt_d (int n) @ '' messages (was '' @ fmt_d before @ '')'']
      else [])"

definition delta_highlights ::
  "(string counter \<Rightarrow> string counter) \<Rightarrow> digest_stats \<Rightarrow> string counter \<Rightarrow> digest_summary \<Rightarrow> string list" where
  "delta_highlights order g senders prev =
     (let before = (case map_of (ds_labels prev) ''Ads'' of None \<Rightarrow> 0 | Some k \<Rightarrow> k);
          current = int (case gs_labels g of None \<Rightarrow> 0 | Some m \<Rightarrow> count_of m ''Ads'')
      in (if before < current \<and> 0 < before
          then [''Advertisements up by '' @ fmt_d (current - before) @ '' (was '' @ fmt_d before @ '', now ''
                @ fmt_d current @ '')''] else [])
         @ concat (map (burst_highlight (ds_senders prev)) (order senders))
         @ (if ds_failed prev < int (gs_accounts_failed g) \<and> 0 \<le> ds_failed prev
            then [''Account failures increased: '' @ fmt_d (int (gs_accounts_failed g)) @ '' (was ''
                  @ fmt_d (ds_failed prev) @ '')''] else []))"

definition build_highlights ::
  "('s, 'w) pipeline_env \<Rightarrow> string \<Rightarrow> digest_stats \<Rightarrow> account_stats list \<Rightarrow> string counter
   \<Rightarrow> ('s, 'w) world \<Rightarrow> string list \<times> ('s, 'w) world" where
  "build_highlights env run g as senders w =
     (let h = (if 0 < gs_high_priority g
               then [fmt_d (int (gs_high_priority g)) @ '' high-priority email'' @ plural (gs_high_priority g)
                     @ '' require attention''] else [])
              @ concat (map account_highlight as)
      in case with_store env (\<lambda>ops io. so_previous_summary ops io run) w of
           (Inl e, w) \<Rightarrow> (h, w)
         | (Inr None, w) \<Rightarrow> (h, w)
         | (Inr (Some prev), w) \<Rightarrow> (h @ delta_highlights (pn_sender_order env) g senders prev, w))"

definition make_entry :: "(message_key \<rightharpoonup> classification) \<Rightarrow> message \<Rightarrow> message_entry" where
  "make_entry classes m =
     \<lparr>me_subject = msg_subject m, me_from = msg_from m, me_date = msg_date m, me_is_read = msg_is_read m,
      me_class = (case classes (msg_key m) of None \<Rightarrow> failed_classification (msg_key m) | Some c \<Rightarrow> c),
      me_excerpt = msg_body m\<rparr>"

definition attach_error :: "analysis_error list \<Rightarrow> nat \<Rightarrow> classification \<Rightarrow> classification" where
  "attach_error errors i c =
     c\<lparr>cl_error := Some (if i < length errors then errors ! i
        else \<lparr>ae_key = cl_key c, ae_error = ''analysis failed'', ae_stage = ''unknown''\<rparr>)\<rparr>"

definition class_map :: "classification list \<Rightarrow> classification list \<Rightarrow> analysis_error list \<Rightarrow> message_key \<rightharpoonup> classification" where
  "class_map valid failed errors =
     fold (\<lambda>(i, c) m. m(cl_key c \<mapsto> attach_error errors i c)) (enumerate 0 failed) (index_by cl_key valid)"

definition digest_of ::
  "('s, 'w) pipeline_env \<Rightarrow> string \<Rightarrow> message list \<Rightarrow> message_entry list \<Rightarrow> classification list
   \<Rightarrow> fetch_result list \<Rightarrow> (string \<times> err) list \<Rightarrow> nat \<Rightarrow> (string \<Rightarrow> nat \<Rightarrow> nat)
   \<Rightarrow> ('s, 'w) world \<Rightarrow> digest_data \<times> ('s, 'w) world" where
  "digest_of env run messages entries valid results errors failed_analyses per_account w =
     (case build_digest_stats messages entries valid results (pn_error_order env errors) of
        (g, as, senders, domains) \<Rightarrow>
          let g = g\<lparr>gs_analysis_failed := failed_analyses\<rparr>;
              as = map (\<lambda>a. a\<lparr>as_analysis_failed := per_account (as_label a) (as_analysis_failed a)\<rparr>) as
          in case build_highlights env run g as senders w of (h, w) \<Rightarrow>
            case now env w of (t, w) \<Rightarrow>
              (\<lparr>dd_run_id = run, dd_generated = t, dd_account = [], dd_messages = entries,
                dd_fetched = gs_fetched g, dd_classified = gs_classified g, dd_failed = gs_failed g,
                dd_global = g, dd_accounts = as, dd_analysis_failed = failed_analyses,
                dd_highlights = Some h\<rparr>, w))"

definition build_digest_data ::
  "('s, 'w) pipeline_env \<Rightarrow> string \<Rightarrow> message list \<Rightarrow> classification list \<Rightarrow> fetch_result list
   \<Rightarrow> (string \<times> err) list \<Rightarrow> ('s, 'w) world \<Rightarrow> digest_data \<times> ('s, 'w) world" where
  "build_digest_data env run messages classifications results errors w =
     digest_of env run messages (map (make_entry (index_by cl_key classifications)) messages) classifications
       results errors 0 (\<lambda>_ n. n) w"

definition build_digest_data_partial ::
  "('s, 'w) pipeline_env \<Rightarrow> string \<Rightarrow> message list \<Rightarrow> classify_outcome \<Rightarrow> fetch_result list
   \<Rightarrow> (string \<times> err) list \<Rightarrow> ('s, 'w) world \<Rightarrow> digest_data \<times> ('s, 'w) world" where
  "build_digest_data_partial env run messages out results errors w =
     (let entries = map (make_entry (class_map (co_valid out) (co_failed out) (co_errors out))) messages;
          failed = filter (\<lambda>(m, e). cl_error (me_class e) \<noteq> None) (zip messages entries)
      in digest_of env run messages entries (co_valid out) results errors (length failed)
           (\<lambda>l _. length (filter (\<lambda>(m, e). msg_account m = l) failed)) w)"

section \<open>Acting\<close>

definition flags_for :: "config \<Rightarrow> classification list \<Rightarrow> flag list" where
  "flags_for cfg cs =
     filter (\<lambda>f. fl_keyword f \<noteq> []) (map (\<lambda>c. classification_to_flag c (cfg_labels cfg)) cs)"

fun apply_groups ::
  "('s, 'w) pipeline_env \<Rightarrow> (string \<times> flag list) list \<Rightarrow> ('s, 'w) world \<Rightarrow> ('s, 'w) world" where
  "apply_groups env [] w = w"
| "apply_groups env ((label, fs) # gs) w =
     (case index_by acct_label (imap_accounts (cfg_imap (pn_cfg env))) label of
        None \<Rightarrow> apply_groups env gs w
      | Some a \<Rightarrow>
          if \<not> pn_has_ingester env label then apply_groups env gs w
          else apply_groups env gs (snd (with_ext (pn_apply_flags env a fs) w)))"

definition apply_classification_flags ::
  "('s, 'w) pipeline_env \<Rightarrow> classification list \<Rightarrow> ('s, 'w) world \<Rightarrow> ('s, 'w) world" where
  "apply_classification_flags env cs w =
     (let flags = flags_for (pn_cfg env) cs in
      if flags = [] then w
      else apply_groups env (pn_group_order env (group_by (\<lambda>f. mk_account (fl_key f)) flags)) w)"

definition truncate_excerpt :: "string \<Rightarrow> int \<Rightarrow> string" where
  "truncate_excerpt body limit = truncate_bytes limit body"

definition excerpt_limit :: "config \<Rightarrow> int" where
  "excerpt_limit cfg = (if dg_max_excerpt (cfg_digest cfg) \<le> 0 then 500 else dg_max_excerpt (cfg_digest cfg))"

fun record_processed ::
  "('s, 'w) pipeline_env \<Rightarrow> string \<Rightarrow> (message_key \<rightharpoonup> classification) \<Rightarrow> message list \<Rightarrow> ('s, 'w) world \<Rightarrow> ('s, 'w) world" where
  "record_processed env run classes [] w = w"
| "record_processed env run classes (m # ms) w =
     (case classes (msg_key m) of
        None \<Rightarrow> record_processed env run classes ms w
      | Some c \<Rightarrow>
     (case now env w of (t, w) \<Rightarrow>
        let pm = \<lparr>pm_run = run, pm_account = msg_account m, pm_uid = msg_uid m, pm_is_read = msg_is_read m,
                  pm_label = cl_label c, pm_excerpt = truncate_excerpt (msg_body m) (excerpt_limit (pn_cfg env)),
                  pm_at = t\<rparr>
        in record_processed env run classes ms (snd (with_store env (\<lambda>ops io. so_record_message ops io pm) w))))"

fun record_flags ::
  "('s, 'w) pipeline_env \<Rightarrow> classification list \<Rightarrow> ('s, 'w) world \<Rightarrow> ('s, 'w) world" where
  "record_flags env [] w = w"
| "record_flags env (c # cs) w =
     (let flag = classification_to_flag c (cfg_labels (pn_cfg env)) in
      if fl_keyword flag = [] then record_flags env cs w
      else case now env w of (t, w) \<Rightarrow>
        let rec = \<lparr>fr_account = mk_account (cl_key c), fr_uid = mk_uid (cl_key c), fr_flag = fl_keyword flag, fr_at = t\<rparr>
        in record_flags env cs (snd (with_store env (\<lambda>ops io. so_record_flag ops io rec) w)))"

section \<open>The run\<close>

definition finish_run ::
  "('s, 'w) pipeline_env \<Rightarrow> string \<Rightarrow> run_status \<Rightarrow> nat \<Rightarrow> err option \<Rightarrow> ('s, 'w) world \<Rightarrow> ('s, 'w) world" where
  "finish_run env run st n e w = snd (with_store env (\<lambda>ops io. so_finish_run ops io run st (int n) e) w)"

definition ingest_failed :: "string \<Rightarrow> nat \<Rightarrow> err \<Rightarrow> run_result" where
  "ingest_failed run fetched e = \<lparr>res_run = run, res_status = RunIngestFailed, res_fetched = fetched, res_classified = 0,
     res_failed = 0, res_analysis_failed = 0, res_err = Some e\<rparr>"

text \<open>The status after classification: \<open>partial\<close> is the status that a failed account has set.\<close>

definition classified_status :: "run_status \<Rightarrow> classify_outcome \<Rightarrow> nat \<Rightarrow> run_status" where
  "classified_status partial out analysis_failed =
     (if co_err out \<noteq> None then RunDegraded
      else if co_valid out = [] then RunDegraded
      else if 0 < analysis_failed then RunPartiallyClassified
      else partial)"

definition final_status :: "run_status \<Rightarrow> nat \<Rightarrow> run_status" where
  "final_status st analysis_failed =
     (if st = RunPartial \<or> st = RunDegraded \<or> st = RunPartiallyClassified then st
      else if 0 < analysis_failed then RunPartiallyClassified else RunCompleted)"

text \<open>Steps 7 to 10: from the rendered digest to the finished run.\<close>

definition act ::
  "('s, 'w) pipeline_env \<Rightarrow> run_options \<Rightarrow> run_result \<Rightarrow> message list \<Rightarrow> classify_outcome \<Rightarrow> string
   \<Rightarrow> ('s, 'w) world \<Rightarrow> run_result \<times> ('s, 'w) world" where
  "act env opts res messages out rendered w =
     (let run = res_run res;
          w = (if \<not> ro_dry_run opts \<and> co_err out = None then apply_classification_flags env (co_valid out) w else w);
          record_digest = (\<lambda>st w. snd (with_store env (\<lambda>ops io. so_record_digest ops io
             \<lparr>dr_run = run, dr_channel = pn_channel env, dr_status = st, dr_hash = pn_hash env rendered\<rparr>) w))
      in case (if ro_dry_run opts then (None, w) else with_ext (pn_send env rendered) w) of
           (Some e, w) \<Rightarrow>
             let w = finish_run env run RunDegraded (length messages) (Some e) (record_digest DigestFailed w)
             in (res\<lparr>res_status := RunDegraded, res_err := Some e\<rparr>, w)
         | (None, w) \<Rightarrow>
             let w = (if ro_dry_run opts then w else record_digest DigestSent w);
                 w = (if \<not> ro_stateless opts \<and> co_err out = None
                      then record_flags env (co_valid out)
                             (record_processed env run (index_by cl_key (co_valid out)) messages w)
                      else w);
                 st = final_status (res_status res) (res_analysis_failed res)
             in (res\<lparr>res_status := st\<rparr>, finish_run env run st (length messages) None w))"

text \<open>Steps 4 to 6: classification and the digest.\<close>

definition reason ::
  "('s, 'w) pipeline_env \<Rightarrow> run_options \<Rightarrow> run_result \<Rightarrow> message list \<Rightarrow> fetch_result list \<Rightarrow> (string \<times> err) list
   \<Rightarrow> ('s, 'w) world \<Rightarrow> run_result \<times> ('s, 'w) world" where
  "reason env opts res messages results errors w =
     (case with_ext (classify_with_partial_fallback (pn_classify env) (pn_decode env) (pn_cfg env)
             (build_request (pn_cfg env) messages)) w of (out, w) \<Rightarrow>
      case build_digest_data_partial env (res_run res) messages out results errors w of (d, w) \<Rightarrow>
        let res = res\<lparr>res_classified := length (dd_messages d), res_failed := dd_failed d,
                      res_analysis_failed := dd_analysis_failed d\<rparr>
        in case (if co_err out = None \<and> co_valid out \<noteq> [] then pn_render env d else pn_fallback env d) of
             Inl e \<Rightarrow> (res\<lparr>res_status := RunDegraded, res_err := Some e\<rparr>,
                       finish_run env (res_run res) RunDegraded (length messages) (Some e) w)
           | Inr rendered \<Rightarrow>
               act env opts (res\<lparr>res_status := classified_status (res_status res) out (dd_analysis_failed d)\<rparr>)
                 messages out rendered w)"

definition error_list :: "fetch_result list \<Rightarrow> (string \<times> err) list" where
  "error_list rs = fold (\<lambda>r m. case ft_err r of None \<Rightarrow> m | Some e \<Rightarrow> AList.update (acct_label (ft_account r)) e m) rs []"

text \<open>Steps 2 and 3 after the fetch: failed accounts, filtering, and the early returns.\<close>

definition after_fetch ::
  "('s, 'w) pipeline_env \<Rightarrow> run_options \<Rightarrow> string \<Rightarrow> fetch_result list \<Rightarrow> ('s, 'w) world \<Rightarrow> run_result \<times> ('s, 'w) world" where
  "after_fetch env opts run results w =
     (let errors = error_list results;
          messages = flatten_messages results
      in if errors \<noteq> [] \<and> messages = []
         then let e = Err (''all '' @ fmt_d (int (length errors)) @ '' account(s) failed to fetch messages'')
              in (ingest_failed run 0 e, finish_run env run RunIngestFailed 0 (Some e) w)
         else case (if \<not> ro_force opts \<and> messages \<noteq> [] then filter_processed env messages w else (messages, w)) of
           (messages, w) \<Rightarrow>
             let res = \<lparr>res_run = run, res_status = (if errors = [] then RunUnset else RunPartial),
                        res_fetched = length messages, res_classified = 0, res_failed = 0, res_analysis_failed = 0,
                        res_err = None\<rparr>
             in if messages = []
                then (res\<lparr>res_status := RunCompleted\<rparr>, finish_run env run RunCompleted 0 None w)
                else reason env opts res messages results errors w)"

definition fetch_options_of :: "config \<Rightarrow> time \<Rightarrow> fetch_options" where
  "fetch_options_of cfg since =
     \<lparr>fo_since = since, fo_unread_only = cfg_fetch_unread_only cfg, fo_folders = [],
      fo_batch = cc_fetch_batch (cfg_concurrency cfg)\<rparr>"

definition after_record ::
  "('s, 'w) pipeline_env \<Rightarrow> run_options \<Rightarrow> string \<Rightarrow> ('s, 'w) world \<Rightarrow> run_result \<times> ('s, 'w) world" where
  "after_record env opts run w =
     (case fetch_window env opts w of
        (Inl e, w) \<Rightarrow> (ingest_failed run 0 e, finish_run env run RunIngestFailed 0 (Some e) w)
      | (Inr since, w) \<Rightarrow>
     (case with_ext (pn_fetch_all env (imap_accounts (cfg_imap (pn_cfg env))) (fetch_options_of (pn_cfg env) since)
             (cc_max_accounts (cfg_concurrency (pn_cfg env)))) w of
        (results, w) \<Rightarrow> after_fetch env opts run results w))"

definition run_pipeline ::
  "('s, 'w) pipeline_env \<Rightarrow> run_options \<Rightarrow> ('s, 'w) world \<Rightarrow> run_result \<times> ('s, 'w) world" where
  "run_pipeline env opts w =
     (case now env w of (t, w) \<Rightarrow>
     (case with_store env (\<lambda>ops io. so_record_run ops io
             \<lparr>run_id = [], run_started = t, run_finished = None, run_state = RunRunning, run_count = 0, run_error = []\<rparr>) w of
        (Inl e, w) \<Rightarrow> (ingest_failed [] 0 (Wrap ''orchestrator.record_run: '' e), w)
      | (Inr r, w) \<Rightarrow> after_record env opts (run_id r) w))"

end
