(* ===== verification/NoopStore.thy ===== *)
theory NoopStore
  imports Store
begin

text \<open>
  \<open>internal/store/noop_store.go\<close>: the in-memory store of stateless mode.  The map of messages is
  only looked up, so it is a partial function; the map of summaries likewise.  Every method runs
  under the store's mutex, so each is one atomic step on the state.
\<close>

record noop_store =
  ns_runs :: "run list"
  ns_messages :: "message_key \<rightharpoonup> processed_message"
  ns_flags :: "flag_record list"
  ns_digests :: "digest_record list"
  ns_summaries :: "string \<rightharpoonup> digest_summary"
  ns_next :: int

definition new_noop_store :: noop_store where
  "new_noop_store =
     \<lparr>ns_runs = [], ns_messages = Map.empty, ns_flags = [], ns_digests = [],
      ns_summaries = Map.empty, ns_next = 0\<rparr>"

definition noop_run_id :: "int \<Rightarrow> string" where
  "noop_run_id n = ''noop-run-'' @ fmt_d n"

definition noop_record_run :: "store_io \<Rightarrow> run \<Rightarrow> (run, noop_store) store_op" where
  "noop_record_run io r s =
     (let n = ns_next s + 1; r' = fill_run (io_now io) (noop_run_id n) r
      in (Inr r', s\<lparr>ns_next := n, ns_runs := ns_runs s @ [r']\<rparr>))"

fun update_first :: "('a \<Rightarrow> bool) \<Rightarrow> ('a \<Rightarrow> 'a) \<Rightarrow> 'a list \<Rightarrow> 'a list option" where
  "update_first P f [] = None"
| "update_first P f (x # xs) =
     (if P x then Some (f x # xs) else map_option ((#) x) (update_first P f xs))"

definition noop_finish_run ::
  "store_io \<Rightarrow> string \<Rightarrow> run_status \<Rightarrow> int \<Rightarrow> err option \<Rightarrow> (unit, noop_store) store_op" where
  "noop_finish_run io i st n e s =
     (case update_first (\<lambda>r. run_id r = i) (finished_run (io_now io) st n (err_string e)) (ns_runs s) of
        None \<Rightarrow> (Inl run_not_found, s)
      | Some rs \<Rightarrow> (Inr (), s\<lparr>ns_runs := rs\<rparr>))"

definition noop_get_run :: "store_io \<Rightarrow> string \<Rightarrow> (run, noop_store) store_op" where
  "noop_get_run io i s =
     (case find (\<lambda>r. run_id r = i) (ns_runs s) of
        None \<Rightarrow> (Inl run_not_found, s) | Some r \<Rightarrow> (Inr r, s))"

definition noop_list_runs :: "store_io \<Rightarrow> int \<Rightarrow> (run list, noop_store) store_op" where
  "noop_list_runs io limit s =
     (Inr (take (nat (if limit \<le> 0 then 10 else limit)) (rev (ns_runs s))), s)"

text \<open>The loop that keeps the latest finishing time of a completed run.\<close>

definition later :: "time option \<Rightarrow> run \<Rightarrow> time option" where
  "later latest r =
     (case run_finished r of
        None \<Rightarrow> latest
      | Some t \<Rightarrow>
          if run_state r = RunCompleted \<and> (case latest of None \<Rightarrow> True | Some l \<Rightarrow> l < t)
          then Some t else latest)"

definition noop_last_success :: "store_io \<Rightarrow> (time option, noop_store) store_op" where
  "noop_last_success io s = (Inr (foldl later None (ns_runs s)), s)"

definition noop_record_message :: "store_io \<Rightarrow> processed_message \<Rightarrow> (unit, noop_store) store_op" where
  "noop_record_message io m s =
     (if ns_messages s (pm_key m) \<noteq> None then (Inr (), s)
      else let m' = (if time_is_zero (pm_at m) then m\<lparr>pm_at := io_now io\<rparr> else m)
        in (Inr (), s\<lparr>ns_messages := (ns_messages s)(pm_key m \<mapsto> m')\<rparr>))"

definition noop_already_processed ::
  "store_io \<Rightarrow> message_key list \<Rightarrow> (message_key set, noop_store) store_op" where
  "noop_already_processed io ks s = (Inr (set (filter (\<lambda>k. ns_messages s k \<noteq> None) ks)), s)"

definition same_flag :: "flag_record \<Rightarrow> flag_record \<Rightarrow> bool" where
  "same_flag a b \<longleftrightarrow> fr_account a = fr_account b \<and> fr_uid a = fr_uid b \<and> fr_flag a = fr_flag b"

definition noop_record_flag :: "store_io \<Rightarrow> flag_record \<Rightarrow> (unit, noop_store) store_op" where
  "noop_record_flag io r s =
     (let r' = (if time_is_zero (fr_at r) then r\<lparr>fr_at := io_now io\<rparr> else r)
      in if \<exists>f \<in> set (ns_flags s). same_flag f r' then (Inr (), s)
         else (Inr (), s\<lparr>ns_flags := ns_flags s @ [r']\<rparr>))"

definition noop_record_digest :: "store_io \<Rightarrow> digest_record \<Rightarrow> (unit, noop_store) store_op" where
  "noop_record_digest io d s = (Inr (), s\<lparr>ns_digests := ns_digests s @ [d]\<rparr>)"

definition noop_save_summary :: "store_io \<Rightarrow> digest_summary \<Rightarrow> (unit, noop_store) store_op" where
  "noop_save_summary io d s = (Inr (), s\<lparr>ns_summaries := (ns_summaries s)(ds_run d \<mapsto> d)\<rparr>)"

text \<open>The loop over the runs in \<open>GetPreviousRunDigestSummary\<close>: the summary found so far and the
  finishing time of its run.\<close>

definition better_summary ::
  "(string \<rightharpoonup> digest_summary) \<Rightarrow> time \<Rightarrow> (digest_summary \<times> time) option \<Rightarrow> run
   \<Rightarrow> (digest_summary \<times> time) option" where
  "better_summary summaries bound prior r =
     (case run_finished r of
        None \<Rightarrow> prior
      | Some t \<Rightarrow>
          if run_state r = RunCompleted \<and> t < bound
             \<and> (case prior of None \<Rightarrow> True | Some (_, pt) \<Rightarrow> pt < t)
          then (case summaries (run_id r) of Some d \<Rightarrow> Some (d, t) | None \<Rightarrow> prior)
          else prior)"

definition noop_previous_summary :: "store_io \<Rightarrow> string \<Rightarrow> (digest_summary option, noop_store) store_op" where
  "noop_previous_summary io before s =
     (case find (\<lambda>r. run_id r = before) (ns_runs s) of
        None \<Rightarrow> (Inr None, s)
      | Some r \<Rightarrow>
          (case run_finished r of
             None \<Rightarrow> (Inr None, s)
           | Some t \<Rightarrow>
               let bound = (if time_is_zero t then io_now io else t)
               in (Inr (map_option fst
                     (foldl (better_summary (ns_summaries s) bound) None (ns_runs s))), s)))"

definition noop_ops :: "noop_store store_ops" where
  "noop_ops =
     \<lparr>so_record_run = noop_record_run, so_finish_run = noop_finish_run, so_get_run = noop_get_run,
      so_list_runs = noop_list_runs, so_last_success = noop_last_success,
      so_record_message = noop_record_message, so_already_processed = noop_already_processed,
      so_record_flag = noop_record_flag, so_record_digest = noop_record_digest,
      so_save_summary = noop_save_summary, so_previous_summary = noop_previous_summary\<rparr>"

section \<open>The contract holds\<close>

definition noop_wf :: "noop_store \<Rightarrow> bool" where
  "noop_wf s \<longleftrightarrow>
     (\<forall>k m. ns_messages s k = Some m \<longrightarrow> pm_key m = k)
     \<and> distinct (map flag_id (ns_flags s))"

definition noop_known :: "noop_store \<Rightarrow> message_key set" where
  "noop_known s = dom (ns_messages s)"

definition noop_flagged :: "noop_store \<Rightarrow> (message_key \<times> string) set" where
  "noop_flagged s = flag_id ` set (ns_flags s)"

definition completed_times :: "run list \<Rightarrow> time set" where
  "completed_times rs = {t. \<exists>r \<in> set rs. run_state r = RunCompleted \<and> run_finished r = Some t}"

definition noop_completed :: "noop_store \<Rightarrow> time set" where
  "noop_completed s = completed_times (ns_runs s)"

lemma completed_times_simps [simp]:
  "completed_times [] = {}"
  "completed_times (rs @ rs') = completed_times rs \<union> completed_times rs'"
  "completed_times (r # rs) =
     (case run_finished r of
        Some t \<Rightarrow> if run_state r = RunCompleted then insert t (completed_times rs) else completed_times rs
      | None \<Rightarrow> completed_times rs)"
  by (auto simp: completed_times_def split: option.splits)

lemma later_latest:
  "case foldl later None rs of
     None \<Rightarrow> completed_times rs = {}
   | Some t \<Rightarrow> t \<in> completed_times rs \<and> (\<forall>t' \<in> completed_times rs. t' \<le> t)"
proof (induction rs rule: rev_induct)
  case (snoc r rs)
  define l where "l = foldl later None rs"
  have "case l of None \<Rightarrow> completed_times rs = {}
      | Some t \<Rightarrow> t \<in> completed_times rs \<and> (\<forall>t' \<in> completed_times rs. t' \<le> t)"
    using snoc by (simp add: l_def)
  then have "case later l r of None \<Rightarrow> completed_times (rs @ [r]) = {}
      | Some t \<Rightarrow> t \<in> completed_times (rs @ [r]) \<and> (\<forall>t' \<in> completed_times (rs @ [r]). t' \<le> t)"
    by (cases l; cases "run_finished r") (auto simp: later_def intro: order_trans)
  then show ?case by (simp only: l_def foldl_append foldl.simps)
qed simp

lemma update_first_finish:
  assumes "update_first (\<lambda>r. run_id r = i) (finished_run now st n e) rs = Some rs'"
  shows "completed_times rs' \<subseteq> (if st = RunCompleted then insert now (completed_times rs) else completed_times rs)
    \<and> (st = RunCompleted \<longrightarrow> now \<in> completed_times rs')"
  using assms
proof (induction rs arbitrary: rs')
  case (Cons r rs)
  then show ?case
    by (cases "run_id r = i") (auto simp: finished_run_def split: option.splits if_splits)
qed simp

lemmas noop_abs = noop_wf_def noop_known_def noop_flagged_def noop_completed_def

lemma noop_run_contract:
  assumes "noop_record_run io r s = (Inr r', s')" and "run_finished r = None"
  shows "noop_wf s' = noop_wf s \<and> noop_known s' = noop_known s \<and> noop_flagged s' = noop_flagged s
    \<and> noop_completed s' = noop_completed s"
  using assms by (auto simp: noop_record_run_def Let_def noop_abs)

lemma noop_message_contract:
  assumes "noop_record_message io m s = (Inr u, s')" and "noop_wf s"
  shows "noop_wf s' \<and> noop_known s' = insert (pm_key m) (noop_known s) \<and> noop_flagged s' = noop_flagged s
    \<and> noop_completed s' = noop_completed s"
  using assms by (auto simp: noop_record_message_def Let_def noop_abs pm_key_def split: if_splits)

lemma same_flag_iff: "same_flag a b \<longleftrightarrow> flag_id a = flag_id b"
  by (auto simp: same_flag_def flag_id_def fr_key_def)

lemma noop_flag_contract:
  assumes "noop_record_flag io f s = (Inr u, s')" and "noop_wf s"
  shows "noop_wf s' \<and> noop_flagged s' = insert (flag_id f) (noop_flagged s)
    \<and> noop_known s' = noop_known s \<and> noop_completed s' = noop_completed s"
proof -
  have present: "(\<exists>g \<in> set (ns_flags s). flag_id g = flag_id f) \<longleftrightarrow> flag_id f \<in> flag_id ` set (ns_flags s)"
    by (auto simp: image_iff eq_commute)
  show ?thesis
    using assms
    by (cases "flag_id f \<in> flag_id ` set (ns_flags s)"; cases "time_is_zero (fr_at f)")
      (simp_all add: noop_record_flag_def noop_abs same_flag_iff present insert_absorb
        split: if_splits, auto)
qed

lemma noop_finish_contract:
  assumes "noop_finish_run io i st n eo s = (fin, s')"
  shows "noop_wf s' = noop_wf s \<and> noop_known s' = noop_known s \<and> noop_flagged s' = noop_flagged s
    \<and> noop_completed s' \<subseteq> (if st = RunCompleted then insert (io_now io) (noop_completed s) else noop_completed s)
    \<and> (st = RunCompleted \<and> fin = Inr () \<longrightarrow> io_now io \<in> noop_completed s')"
  using assms update_first_finish [of i "io_now io" st n "err_string eo" "ns_runs s"]
  by (auto simp: noop_finish_run_def noop_abs split: option.splits)

lemma noop_last_contract:
  assumes "noop_last_success io s = (Inr t, s')"
  shows "case t of None \<Rightarrow> noop_completed s = {}
    | Some t \<Rightarrow> t \<in> noop_completed s \<and> (\<forall>t' \<in> noop_completed s. t' \<le> t)"
  using assms later_latest [of "ns_runs s"]
  by (auto simp: noop_last_success_def noop_completed_def split: option.splits)

interpretation noop: store noop_ops noop_wf noop_known noop_flagged noop_completed
proof (unfold_locales, goal_cases)
  case (1 io r s r' s')
  then show ?case using noop_run_contract [of io r s r' s'] by (simp add: noop_ops_def)
next
  case (3 io m s u s')
  then show ?case using noop_message_contract [of io m s u s'] by (simp add: noop_ops_def)
next
  case (8 io f s u s')
  then show ?case using noop_flag_contract [of io f s u s'] by (simp add: noop_ops_def)
next
  case (11 io i st n eo s fin s')
  then show ?case using noop_finish_contract [of io i st n eo s fin s'] by (simp add: noop_ops_def)
next
  case (12 io s t s')
  then show ?case
    using noop_last_contract [of io s t s']
    by (auto simp: noop_ops_def second_ns_def split: option.splits)
qed (auto simp: noop_ops_def noop_record_run_def noop_record_message_def noop_already_processed_def
    noop_record_flag_def noop_record_digest_def noop_finish_run_def noop_last_success_def
    noop_previous_summary_def noop_abs Let_def split: if_splits option.splits)

end
