(* ===== verification/TimeText.thy ===== *)
theory TimeText
  imports Store "HOL-Library.Monad_Syntax"
begin

text \<open>
  \<open>formatTime\<close> and \<open>parseTime\<close> of \<open>internal/store/sqlite.go\<close>: the text form in which SQLite
  keeps a timestamp.  An instant counts nanoseconds since the first of January of year 1, UTC,
  which is Go's zero time, so the calendar below is the one of \<open>time.Time\<close>.  The text is
  \<open>RFC3339Nano\<close>: trailing zeros of the fraction are dropped, and with them the property that
  texts compare like instants; what is left of it is proved here (up to one second).
\<close>

section \<open>The calendar\<close>

definition is_leap :: "nat \<Rightarrow> bool" where
  "is_leap y \<longleftrightarrow> y mod 4 = 0 \<and> (y mod 100 \<noteq> 0 \<or> y mod 400 = 0)"

text \<open>The days before the first of January of year \<open>y\<close>, for \<open>1 \<le> y\<close>.\<close>

definition days_before :: "nat \<Rightarrow> nat" where
  "days_before y = 365 * (y - 1) + (y - 1) div 4 - (y - 1) div 100 + (y - 1) div 400"

definition month_lengths :: "nat \<Rightarrow> nat list" where
  "month_lengths y = [31, if is_leap y then 29 else 28, 31, 30, 31, 30, 31, 31, 30, 31, 30, 31]"

lemma div_mult_le: "n div 100 \<le> n div 4" "n div 400 \<le> n div 100" for n :: nat
  by (rule div_le_mono2, simp_all)+

lemma mod_dvd: "a dvd b \<Longrightarrow> n mod b = 0 \<Longrightarrow> n mod a = 0" for n a b :: nat
  by (metis dvd_eq_mod_eq_0 dvd_trans)

lemma leap_arith:
  fixes a b c n :: nat
  assumes "Q \<Longrightarrow> P" "R \<Longrightarrow> Q" "b \<le> a" "c \<le> b"
  shows "365 * Suc n + (if P then Suc a else a) - (if Q then Suc b else b) + (if R then Suc c else c)
    = 365 * n + a - b + c + (if P \<and> (\<not> Q \<or> R) then 366 else 365)"
  by (cases P; cases Q; cases R) (use assms in auto)

lemma days_before_Suc:
  assumes "1 \<le> y"
  shows "days_before (Suc y) = days_before y + (if is_leap y then 366 else 365)"
proof -
  obtain n where y: "y = Suc n" using assms by (cases y) auto
  have "Suc n mod 100 = 0 \<Longrightarrow> Suc n mod 4 = 0" by (rule mod_dvd [of _ 100]) simp_all
  moreover have "Suc n mod 400 = 0 \<Longrightarrow> Suc n mod 100 = 0" by (rule mod_dvd [of _ 400]) simp_all
  ultimately show ?thesis
    unfolding y days_before_def is_leap_def diff_Suc_1 div_Suc [of n]
    by (rule leap_arith) (simp_all add: div_mult_le)
qed

lemma days_before_le: "days_before (Suc k) \<le> 366 * k"
proof -
  have "k div 4 \<le> k" by simp
  then show ?thesis using div_mult_le [of k] by (simp add: days_before_def; linarith)
qed

lemma days_before_ge: "365 * (y - 1) \<le> days_before y"
  using div_mult_le [of "y - 1"] unfolding days_before_def by linarith

function year_from :: "nat \<Rightarrow> nat \<Rightarrow> nat" where
  "year_from y d = (if days_before (Suc y) \<le> d then year_from (Suc y) d else y)"
  by pat_completeness auto
termination
proof (relation "measure (\<lambda>(y, d). Suc d - y)")
  fix y d
  assume "days_before (Suc y) \<le> d"
  then have "365 * y \<le> d" using days_before_ge [of "Suc y"] by simp
  then show "((Suc y, d), (y, d)) \<in> measure (\<lambda>(y, d). Suc d - y)" by simp
qed simp

declare year_from.simps [simp del]

definition year_of :: "nat \<Rightarrow> nat" where
  "year_of d = year_from (Suc (d div 366)) d"

fun month_day :: "nat \<Rightarrow> nat list \<Rightarrow> nat \<Rightarrow> nat \<times> nat" where
  "month_day m [] d = (m, Suc d)"
| "month_day m (l # ls) d = (if d < l then (m, Suc d) else month_day (Suc m) ls (d - l))"

fun day_of_year :: "nat list \<Rightarrow> nat \<Rightarrow> nat \<Rightarrow> nat" where
  "day_of_year ls m d = sum_list (take (m - 1) ls) + (d - 1)"

lemma year_from_bounds:
  "1 \<le> y \<Longrightarrow> days_before y \<le> d \<Longrightarrow>
     y \<le> year_from y d \<and> days_before (year_from y d) \<le> d \<and> d < days_before (Suc (year_from y d))"
proof (induction y d rule: year_from.induct)
  case (1 y d)
  then show ?case by (cases "days_before (Suc y) \<le> d") (auto simp: year_from.simps [of y d])
qed

lemma year_of_bounds:
  "1 \<le> year_of d" "days_before (year_of d) \<le> d" "d < days_before (Suc (year_of d))"
proof -
  have "days_before (Suc (d div 366)) \<le> d" using days_before_le [of "d div 366"] by simp
  then show "1 \<le> year_of d" "days_before (year_of d) \<le> d" "d < days_before (Suc (year_of d))"
    using year_from_bounds [of "Suc (d div 366)" d] by (auto simp: year_of_def)
qed

lemma days_before_mono: "1 \<le> y \<Longrightarrow> y \<le> z \<Longrightarrow> days_before y \<le> days_before z"
proof (induction z)
  case (Suc z)
  then show ?case by (cases "y = Suc z") (auto simp: days_before_Suc)
qed simp

lemma year_of_unique:
  assumes "1 \<le> y" "days_before y \<le> d" "d < days_before (Suc y)"
  shows "year_of d = y"
proof (rule antisym)
  show "year_of d \<le> y"
    using days_before_mono [of "Suc y" "year_of d"] year_of_bounds [of d] assms by force
  show "y \<le> year_of d"
    using days_before_mono [of "Suc (year_of d)" y] year_of_bounds [of d] assms by force
qed

lemma year_of_mono: "d \<le> e \<Longrightarrow> year_of d \<le> year_of e"
  using days_before_mono [of "Suc (year_of e)" "year_of d"] year_of_bounds [of d] year_of_bounds [of e]
  by (force simp: not_le)

lemma sum_month_lengths: "sum_list (month_lengths y) = (if is_leap y then 366 else 365)"
  by (simp add: month_lengths_def)

lemma month_day_bounds:
  assumes "month_day m ls d = (m', d')" "d < sum_list ls"
  shows "m \<le> m' \<and> m' < m + length ls \<and> 1 \<le> d' \<and> d' \<le> ls ! (m' - m)
    \<and> sum_list (take (m' - m) ls) + (d' - 1) = d"
  using assms
proof (induction m ls d rule: month_day.induct)
  case (2 m l ls d)
  show ?case
  proof (cases "d < l")
    case False
    have "Suc m \<le> m' \<and> m' < Suc m + length ls \<and> 1 \<le> d' \<and> d' \<le> ls ! (m' - Suc m)
      \<and> sum_list (take (m' - Suc m) ls) + (d' - 1) = d - l"
      by (rule "2.IH" [OF False]) (use 2 False in simp_all)
    moreover from this have "m' - m = Suc (m' - Suc m)" by (metis Suc_diff_Suc Suc_le_lessD)
    ultimately show ?thesis using False by (simp del: One_nat_def; linarith)
  qed (use 2 in auto)
qed simp

lemma month_day_mono:
  assumes "d < e" "month_day m ls d = (m1, d1)" "month_day m ls e = (m2, d2)"
  shows "m1 < m2 \<or> m1 = m2 \<and> d1 < d2"
  using assms
proof (induction m ls d arbitrary: e rule: month_day.induct)
  case (2 m l ls d)
  have "m < m2" if "month_day (Suc m) ls (e - l) = (m2, d2)"
  proof -
    have "Suc m \<le> fst (month_day (Suc m) ls x)" for x m ls
      by (induction "Suc m" ls x arbitrary: m rule: month_day.induct) (auto intro: Suc_leD)
    with that show ?thesis by (metis fst_conv Suc_le_lessD)
  qed
  moreover have "m1 < m2 \<or> m1 = m2 \<and> d1 < d2" if "\<not> d < l" "\<not> e < l"
    using "2.IH" [of "e - l"] "2.prems" that by (simp add: diff_less_mono not_less)
  ultimately show ?case using 2 by (cases "d < l"; cases "e < l") auto
qed auto

text \<open>The fields of a day: \<open>civil days\<close> is the year, the month and the day of the month.\<close>

definition civil :: "nat \<Rightarrow> nat \<times> nat \<times> nat" where
  "civil days = (let y = year_of days in (y, month_day 1 (month_lengths y) (days - days_before y)))"

section \<open>The text of an instant\<close>

fun pad :: "nat \<Rightarrow> nat \<Rightarrow> string" where
  "pad 0 n = []"
| "pad (Suc k) n = pad k (n div 10) @ [chr (48 + n mod 10)]"

definition second_text :: "nat \<Rightarrow> string" where
  "second_text secs =
     (let sod = secs mod 86400; (y, m, d) = civil (secs div 86400)
      in pad 4 y @ ''-'' @ pad 2 m @ ''-'' @ pad 2 d @ ''T''
         @ pad 2 (sod div 3600) @ '':'' @ pad 2 (sod div 60 mod 60) @ '':'' @ pad 2 (sod mod 60))"

definition strip_zeros :: "string \<Rightarrow> string" where
  "strip_zeros s = rev (dropWhile (\<lambda>c. c = CHR ''0'') (rev s))"

definition frac_text :: "nat \<Rightarrow> string" where
  "frac_text ns = (if ns = 0 then [] else ''.'' @ strip_zeros (pad 9 ns))"

definition format_time :: "time \<Rightarrow> string" where
  "format_time t =
     (let n = nat t in
      second_text (n div 1000000000) @ frac_text (n mod 1000000000) @ ''Z'')"

text \<open>The strict form of RFC 3339, from year 1 on.\<close>

definition take_num :: "nat \<Rightarrow> nat \<Rightarrow> nat \<Rightarrow> string \<Rightarrow> (nat \<times> string) option" where
  "take_num k lo hi s =
     (let n = nat_of_digits (take k s) in
      if k \<le> length s \<and> list_all is_digit (take k s) \<and> lo \<le> n \<and> n \<le> hi then Some (n, drop k s) else None)"

definition expect :: "char \<Rightarrow> string \<Rightarrow> string option" where
  "expect c s = (case s of x # r \<Rightarrow> if x = c then Some r else None | [] \<Rightarrow> None)"

definition take_frac :: "string \<Rightarrow> (nat \<times> string) option" where
  "take_frac s =
     (case s of
        CHR ''.'' # r \<Rightarrow>
          let ds = takeWhile is_digit r in
          if ds = [] then None
          else Some (nat_of_digits (take 9 (ds @ replicate 9 (CHR ''0''))), drop (length ds) r)
      | _ \<Rightarrow> Some (0, s))"

definition take_zone :: "string \<Rightarrow> int option" where
  "take_zone s =
     (if s = ''Z'' then Some 0
      else do {
        let sign = take 1 s;
        _ \<leftarrow> (if sign = ''+'' \<or> sign = ''-'' then Some () else None);
        (h, s1) \<leftarrow> take_num 2 0 23 (drop 1 s);
        s2 \<leftarrow> expect CHR '':'' s1;
        (m, s3) \<leftarrow> take_num 2 0 59 s2;
        let off = int (h * 3600 + m * 60);
        if s3 = [] then Some (if sign = ''-'' then - off else off) else None
      })"

definition parse_rfc3339 :: "string \<Rightarrow> time option" where
  "parse_rfc3339 s = do {
     (y, s) \<leftarrow> take_num 4 1 9999 s; s \<leftarrow> expect CHR ''-'' s;
     (mo, s) \<leftarrow> take_num 2 1 12 s; s \<leftarrow> expect CHR ''-'' s;
     (d, s) \<leftarrow> take_num 2 1 (month_lengths y ! (mo - 1)) s; s \<leftarrow> expect CHR ''T'' s;
     (h, s) \<leftarrow> take_num 2 0 23 s; s \<leftarrow> expect CHR '':'' s;
     (mi, s) \<leftarrow> take_num 2 0 59 s; s \<leftarrow> expect CHR '':'' s;
     (se, s) \<leftarrow> take_num 2 0 59 s;
     (ns, s) \<leftarrow> take_frac s;
     off \<leftarrow> take_zone s;
     let days = days_before y + day_of_year (month_lengths y) mo d;
     Some ((int (days * 86400 + h * 3600 + mi * 60 + se) - off) * second_ns + int ns)
   }"

text \<open>
  \<open>parseTime\<close>: a monotonic-clock suffix is cut off, and a text that is not RFC 3339 is tried with
  the layouts of old rows, which no code of the program writes any more (\<open>legacy\<close>).
\<close>

definition parse_time :: "(string \<Rightarrow> time option) \<Rightarrow> string \<Rightarrow> err + time" where
  "parse_time legacy s =
     (let s' = (case index_of '' m='' s of Some k \<Rightarrow> take k s | None \<Rightarrow> s) in
      case parse_rfc3339 s' of
        Some t \<Rightarrow> Inr t
      | None \<Rightarrow>
          (case legacy s' of
             Some t \<Rightarrow> Inr t
           | None \<Rightarrow> Inl (Err (''parse time '' @ go_quote s' @ '': no matching format''))))"

section \<open>Reading back\<close>

lemma length_pad [simp]: "length (pad k n) = k"
  by (induction k n rule: pad.induct) auto

lemma digits_pad: "list_all is_digit (pad k n)"
  by (induction k n rule: pad.induct) (auto simp: is_digit_def)

lemma nat_of_digits_snoc: "nat_of_digits (s @ [c]) = 10 * nat_of_digits s + digit_val c"
  by (simp add: nat_of_digits_def)

lemma nat_of_digits_pad: "nat_of_digits (pad k n) = n mod 10 ^ k"
proof (induction k n rule: pad.induct)
  case (2 k n)
  have "n mod (10 * 10 ^ k) = 10 * (n div 10 mod 10 ^ k) + n mod 10" by (rule mod_mult2_eq)
  with 2 show ?case by (simp add: nat_of_digits_snoc digit_val_def)
qed (simp add: nat_of_digits_def)

lemma take_num_pad [simp]:
  "n < 10 ^ k \<Longrightarrow> lo \<le> n \<Longrightarrow> n \<le> hi \<Longrightarrow> take_num k lo hi (pad k n @ r) = Some (n, r)"
  by (simp add: take_num_def nat_of_digits_pad digits_pad)

lemma expect_Cons [simp]: "expect c (c # r) = Some r"
  by (simp add: expect_def)

lemma strip_zeros_append: "\<exists>j. s = strip_zeros s @ replicate j (CHR ''0'')"
proof -
  have "\<exists>j. t = replicate j (CHR ''0'') @ dropWhile (\<lambda>c. c = CHR ''0'') t" for t :: string
    by (induction t) (auto intro: exI [of _ "Suc _"] exI [of _ 0])
  from this [of "rev s"] obtain j where "rev s = replicate j (CHR ''0'') @ rev (strip_zeros s)"
    by (auto simp: strip_zeros_def)
  then have "s = strip_zeros s @ replicate j (CHR ''0'')"
    by (metis rev_append rev_replicate rev_rev_ident)
  then show ?thesis by blast
qed

lemma take_frac_text:
  assumes "ns < 10 ^ 9"
  shows "take_frac (frac_text ns @ ''Z'') = Some (ns, ''Z'')"
proof (cases "ns = 0")
  case False
  obtain j where j: "pad 9 ns = strip_zeros (pad 9 ns) @ replicate j (CHR ''0'')"
    using strip_zeros_append by blast
  define z where "z = strip_zeros (pad 9 ns)"
  have dz: "list_all is_digit z" using digits_pad [of 9 ns] j
    by (simp only: z_def [symmetric] list_all_append)
  have "\<not> is_digit CHR ''Z''" by code_simp
  then have tw: "takeWhile is_digit (z @ ''Z'') = z"
    using dz by (simp add: takeWhile_append2 list_all_iff)
  have "length z + j = 9" using arg_cong [OF j, of length] by (simp add: z_def)
  then have "take 9 (z @ replicate 9 (CHR ''0'')) = pad 9 ns"
    using j by (simp add: z_def [symmetric] take_replicate)
  moreover have "z \<noteq> []"
  proof
    assume "z = []"
    then have "pad 9 ns = replicate j (CHR ''0'')" using j by (simp add: z_def)
    moreover have "nat_of_digits (replicate j (CHR ''0'')) = 0"
      by (induction j) (simp_all add: nat_of_digits_def digit_val_def byte_def)
    ultimately have "ns = 0" using nat_of_digits_pad [of 9 ns] assms by simp
    with False show False by simp
  qed
  ultimately show ?thesis
    using False tw assms nat_of_digits_pad [of 9 ns]
    by (simp add: take_frac_def frac_text_def z_def [symmetric] Let_def)
qed (simp add: frac_text_def take_frac_def)

lemma days_before_10000: "days_before 10000 = 3652059"
  by (simp add: days_before_def)

lemma civil_bounds:
  assumes "civil days = (y, m, d)"
  shows "1 \<le> y" "1 \<le> m" "m \<le> 12" "1 \<le> d" "d \<le> month_lengths y ! (m - 1)"
    "days_before y + day_of_year (month_lengths y) m d = days"
    "days < 3652059 \<Longrightarrow> y \<le> 9999"
proof -
  have y: "y = year_of days" and md: "month_day 1 (month_lengths y) (days - days_before y) = (m, d)"
    using assms by (auto simp: civil_def Let_def)
  have b: "1 \<le> y" "days_before y \<le> days" "days < days_before (Suc y)"
    using year_of_bounds [of days] y by auto
  then have "days - days_before y < sum_list (month_lengths y)"
    using days_before_Suc [of y] by (simp add: sum_month_lengths)
  from month_day_bounds [OF md this]
  have m: "1 \<le> m" "m < 1 + length (month_lengths y)" "1 \<le> d" "d \<le> month_lengths y ! (m - 1)"
    "sum_list (take (m - 1) (month_lengths y)) + (d - 1) = days - days_before y" by blast+
  have "length (month_lengths y) = 12" by (simp add: month_lengths_def)
  with m b show "1 \<le> y" "1 \<le> m" "m \<le> 12" "1 \<le> d" "d \<le> month_lengths y ! (m - 1)"
    "days_before y + day_of_year (month_lengths y) m d = days" by (simp_all del: One_nat_def)
  show "y \<le> 9999" if "days < 3652059"
  proof (rule ccontr)
    assume "\<not> y \<le> 9999"
    then have "days_before 10000 \<le> days_before y" by (intro days_before_mono) auto
    then show False using that b days_before_10000 by linarith
  qed
qed

lemma civil_mono:
  assumes "a < b" "civil a = (y, m, d)" "civil b = (y', m', d')"
  shows "y < y' \<or> y = y' \<and> (m < m' \<or> m = m' \<and> d < d')"
proof (cases "y = y'")
  case True
  have "days_before y \<le> a" using assms(2) year_of_bounds(2) [of a] by (auto simp: civil_def Let_def)
  then have "a - days_before y < b - days_before y" using assms(1) by (simp add: diff_less_mono)
  then show ?thesis
    using month_day_mono [of "a - days_before y" "b - days_before y" 1 "month_lengths y" m d m' d'] assms True
    by (auto simp: civil_def Let_def simp del: One_nat_def)
next
  case False
  then show ?thesis
    using year_of_mono [of a b] assms by (auto simp: civil_def Let_def)
qed

lemma month_length_le: "month_lengths y ! (m - 1) \<le> 31" if "1 \<le> m" "m \<le> 12"
proof -
  have "\<forall>l \<in> set (month_lengths y). l \<le> 31" by (simp add: month_lengths_def)
  moreover have "m - 1 < length (month_lengths y)" using that by (simp add: month_lengths_def)
  ultimately show ?thesis using nth_mem by blast
qed

lemma parse_second_text:
  assumes "secs < 3652059 * 86400" "take_frac r = Some (ns, ''Z'')"
  shows "parse_rfc3339 (second_text secs @ r) = Some (int secs * second_ns + int ns)"
proof -
  define days sod where "days = secs div 86400" and "sod = secs mod 86400"
  obtain y m d where c: "civil days = (y, m, d)" by (cases "civil days") auto
  have "days < 3652059" using assms(1) by (simp add: days_def less_mult_imp_div_less)
  note b = civil_bounds(1-6) [OF c] civil_bounds(7) [OF c this] month_length_le [OF civil_bounds(2,3) [OF c]]
  have s: "sod < 86400" "secs = days * 86400 + sod" by (simp_all add: days_def sod_def)
  define h mi se where "h = sod div 3600" and "mi = sod div 60 mod 60" and "se = sod mod 60"
  have t: "h < 24" "mi < 60" "se < 60" using s by (auto simp: h_def mi_def se_def)
  have sum: "h * 3600 + mi * 60 + se = sod"
  proof -
    have "h = sod div 60 div 60" by (simp add: h_def div_mult2_eq [symmetric])
    then have "h * 60 + mi = sod div 60" by (simp add: mi_def)
    then have "(h * 60 + mi) * 60 + se = sod" by (simp add: se_def)
    then show ?thesis by simp
  qed
  have shape: "second_text secs = pad 4 y @ ''-'' @ pad 2 m @ ''-'' @ pad 2 d @ ''T''
         @ pad 2 h @ '':'' @ pad 2 mi @ '':'' @ pad 2 se"
    using c by (simp add: second_text_def Let_def days_def sod_def h_def mi_def se_def)
  have z: "take_zone ''Z'' = Some 0" by (simp add: take_zone_def)
  have "parse_rfc3339 (second_text secs @ r) =
      Some (int ((days_before y + day_of_year (month_lengths y) m d) * 86400 + h * 3600 + mi * 60 + se)
        * second_ns + int ns)"
    unfolding parse_rfc3339_def shape append_assoc
    using assms(2) b(1-5,7) order_trans [OF b(5) b(8)] t z
    by (simp add: Let_def del: day_of_year.simps of_nat_add of_nat_mult)
  moreover have "(days_before y + day_of_year (month_lengths y) m d) * 86400 + h * 3600 + mi * 60 + se = secs"
    using b(6) sum s by simp
  ultimately show ?thesis by simp
qed

lemma parse_format_strict:
  assumes "storable t"
  shows "parse_rfc3339 (format_time t) = Some t"
proof -
  define n where "n = nat t"
  have n: "t = int n" "n < 3652059 * 86400 * 1000000000"
    using assms by (auto simp: storable_def max_time_def hour_ns_def second_ns_def n_def)
  then have "n div 1000000000 < 3652059 * 86400" by (simp add: less_mult_imp_div_less)
  moreover have "take_frac (frac_text (n mod 1000000000) @ ''Z'') = Some (n mod 1000000000, ''Z'')"
    by (rule take_frac_text) simp
  ultimately have "parse_rfc3339 (format_time t) =
      Some (int (n div 1000000000) * second_ns + int (n mod 1000000000))"
    by (simp add: format_time_def n_def [symmetric] Let_def parse_second_text)
  moreover have "int (n div 1000000000) * second_ns + int (n mod 1000000000) = t"
    using n(1) by (simp add: second_ns_def zdiv_int zmod_int)
  ultimately show ?thesis by simp
qed

text \<open>None of the characters of a formatted instant is a space, so nothing is cut off.\<close>

lemma pad_not_blank: "CHR '' '' \<notin> set (pad k n)"
  using digits_pad [of k n] by (auto simp: list_all_iff is_digit_def byte_def)

lemma format_not_blank: "CHR '' '' \<notin> set (format_time t)"
proof -
  have "set (strip_zeros s) \<subseteq> set s" for s
    by (auto simp: strip_zeros_def dest: set_dropWhileD)
  then show ?thesis
    using pad_not_blank by (auto simp: format_time_def second_text_def frac_text_def Let_def split: prod.splits)
qed

lemma index_of_absent: "c \<notin> set s \<Longrightarrow> index_of (c # p) s = None"
  by (induction s) (auto simp: has_prefix_def)

lemma parse_format_time:
  assumes "storable t"
  shows "parse_time legacy (format_time t) = Inr t"
  using parse_format_strict [OF assms] index_of_absent [OF format_not_blank]
  by (simp add: parse_time_def Let_def)

section \<open>Texts in order\<close>

lemma lex_append:
  fixes xs :: "'a::linorder list"
  assumes "length xs = length ys"
  shows "xs @ a < ys @ b \<longleftrightarrow> xs < ys \<or> (xs = ys \<and> a < b)"
  using assms
proof (induction xs ys rule: list_induct2)
  case (Cons x xs y ys)
  then show ?case by (auto simp: Cons_less_Cons)
qed (simp add: not_less)

lemma digit_less: "m < n \<Longrightarrow> n < 10 \<Longrightarrow> chr (48 + m) < chr (48 + n)"
  by (simp add: less_char_def chr_def)

lemma pad_mono: "a < b \<Longrightarrow> b < 10 ^ k \<Longrightarrow> pad k a < pad k b"
proof (induction k a arbitrary: b rule: pad.induct)
  case (2 k a)
  have q: "b div 10 < 10 ^ k" using 2 by (simp add: less_mult_imp_div_less mult.commute)
  show ?case
  proof (cases "a div 10 = b div 10")
    case True
    have "10 * (a div 10) + a mod 10 = a" "10 * (b div 10) + b mod 10 = b" by simp_all
    with True 2 have "a mod 10 < b mod 10" by linarith
    with True show ?thesis by (simp add: lex_append digit_less)
  next
    case False
    then have "a div 10 < b div 10" using 2 div_le_mono [of a b 10] by linarith
    with 2 q show ?thesis by (simp add: lex_append)
  qed
qed simp

lemma pad_lex:
  assumes "a < b \<or> a = b \<and> r < r'" "b < 10 ^ k"
  shows "pad k a @ r < pad k b @ r'"
  using assms pad_mono [of a b k] by (auto simp: lex_append)

lemma sep_lex: "r < r' \<Longrightarrow> sep @ r < sep @ r'" for sep :: string
  by (simp add: lex_append)

lemma second_text_mono:
  assumes "a < b" "b < 3652059 * 86400"
  shows "second_text a < second_text b"
proof -
  define hms where "hms sod = pad 2 (sod div 3600) @ '':'' @ pad 2 (sod div 60 mod 60) @ '':'' @ pad 2 (sod mod 60)"
    for sod
  have hms: "hms u < hms v" if "u < v" "v < 86400" for u v
  proof (cases "u div 3600 < v div 3600")
    case True
    then show ?thesis unfolding hms_def using that by (intro pad_lex) auto
  next
    case False
    then have h: "u div 3600 = v div 3600" using div_le_mono [of u v 3600] that by simp
    have m: "x div 3600 * 60 + x div 60 mod 60 = x div 60" for x :: nat
      by (simp add: div_mult2_eq [of x 60 60, simplified])
    show ?thesis
    proof (cases "u div 60 mod 60 < v div 60 mod 60")
      case True
      then show ?thesis unfolding hms_def h by (intro pad_lex sep_lex disjI2 conjI disjI1) auto
    next
      case False
      then have "u div 60 mod 60 = v div 60 mod 60"
        using m [of u] m [of v] h div_le_mono [of u v 60] that by linarith
      moreover from this have "u div 60 = v div 60" by (metis m h)
      then have "u mod 60 < v mod 60"
        using that by (metis mult_div_mod_eq nat_add_left_cancel_less)
      ultimately show ?thesis unfolding hms_def h by (simp add: lex_append pad_mono)
    qed
  qed
  obtain y m d where c: "civil (a div 86400) = (y, m, d)" by (cases "civil (a div 86400)") auto
  obtain y' m' d' where c': "civil (b div 86400) = (y', m', d')" by (cases "civil (b div 86400)") auto
  have shape: "second_text a = pad 4 y @ ''-'' @ pad 2 m @ ''-'' @ pad 2 d @ ''T'' @ hms (a mod 86400)"
    "second_text b = pad 4 y' @ ''-'' @ pad 2 m' @ ''-'' @ pad 2 d' @ ''T'' @ hms (b mod 86400)"
    using c c' by (simp_all add: second_text_def Let_def hms_def)
  have db: "b div 86400 < 3652059" using assms(2) by (simp add: less_mult_imp_div_less)
  have bd: "y' < 10 ^ 4" "m' < 10 ^ 2" "d' < 10 ^ 2"
    using civil_bounds(3,7) [OF c'] db
      order_trans [OF civil_bounds(5) [OF c'] month_length_le [OF civil_bounds(2,3) [OF c']]] by auto
  show ?thesis
  proof (cases "a div 86400 < b div 86400")
    case True
    then have "y < y' \<or> y = y' \<and> (m < m' \<or> m = m' \<and> d < d')" by (rule civil_mono [OF _ c c'])
    then show ?thesis unfolding shape using bd
      by (elim disjE conjE; intro pad_lex sep_lex) (auto simp: lex_append pad_mono)
  next
    case False
    then have e: "a div 86400 = b div 86400" using div_le_mono [of a b 86400] assms(1) by simp
    then have "a mod 86400 < b mod 86400"
      using assms(1) by (metis mult_div_mod_eq nat_add_left_cancel_less)
    then have "hms (a mod 86400) < hms (b mod 86400)" by (rule hms) simp
    moreover have "y' = y" "m' = m" "d' = d" using c c' e by simp_all
    ultimately show ?thesis unfolding shape by (simp add: lex_append)
  qed
qed

lemma format_time_mono:
  assumes "t div second_ns < u div second_ns" "0 \<le> t" "storable u"
  shows "format_time t < format_time u"
proof -
  have "nat t div 1000000000 < nat u div 1000000000"
    using assms by (simp add: second_ns_def storable_def nat_div_distrib [symmetric, where y = 1000000000, simplified] nat_less_iff) 
  moreover have "nat u div 1000000000 < 3652059 * 86400"
    using assms(3) by (auto simp: storable_def max_time_def hour_ns_def second_ns_def less_mult_imp_div_less nat_less_iff)
  ultimately have "second_text (nat t div 1000000000) < second_text (nat u div 1000000000)"
    by (rule second_text_mono)
  moreover have "length (second_text a) = length (second_text b)" for a b
    by (auto simp: second_text_def Let_def split: prod.splits)
  ultimately show ?thesis
    by (simp add: format_time_def Let_def lex_append)
qed

text \<open>C38: a timestamp that is written to SQLite is read back as the same instant, to the nanosecond,
  and two timestamps that lie in different seconds compare as texts the way they do as
  instants, for every instant of the years 1 to 9999.\<close>

theorem timestamp_text:
  assumes "storable t" and "storable u"
  shows "parse_time legacy (format_time t) = Inr t
    \<and> (t div second_ns < u div second_ns \<longrightarrow> format_time t < format_time u)"
  using parse_format_time [OF assms(1)] format_time_mono [OF _ _ assms(2)] assms(1)
  by (simp add: storable_def)

theorem timestamp_text_witness:
  "parse_time (\<lambda>_. None) (format_time 63900000000500000000) = Inr 63900000000500000000
   \<and> format_time 63900000000500000000 < format_time 63900000001500000000"
proof -
  have "storable 63900000000500000000" "storable 63900000001500000000" by code_simp+
  from timestamp_text [OF this] show ?thesis by (simp add: second_ns_def)
qed

text \<open>Within one second the order of the texts is not the order of time: dropping trailing zeros
  makes \<open>.5Z\<close> greater than the later \<open>.51Z\<close>, and every \<open>ORDER BY\<close> on a timestamp column compares
  texts.\<close>

theorem timestamp_order_broken:
  "format_time 63900000000510000000 < format_time 63900000000500000000"
proof -
  have "frac_text 510000000 = ''.51''" "frac_text 500000000 = ''.5''" by code_simp+
  moreover have "second_text 63900000000 @ ''.51Z'' < second_text 63900000000 @ ''.5Z''"
    by (rule sep_lex) code_simp
  ultimately show ?thesis by (simp add: format_time_def)
qed

end
