(* ===== verification/SqliteStore.thy ===== *)
theory SqliteStore
  imports TimeText
begin

text \<open>
  \<open>internal/store/sqlite.go\<close> over the schema of \<open>internal/store/migrations\<close>.  A table is the list
  of its rows in order of insertion, and a statement is what SQLite does with it: \<open>INSERT\<close> fails
  on a primary key that is present, \<open>INSERT OR IGNORE\<close> does nothing then, \<open>UPDATE\<close> changes every
  matching row, texts are compared byte by byte.  Rows that \<open>ORDER BY\<close> leaves equal come in the
  order of the table, which SQLite does not promise; no theorem depends on it.  A transaction
  works on a copy, so an error inside it leaves the database as it was.

  Opening the file, the migrations and \<open>Close\<close> are not modelled.  Each method holds the
  store's mutex, so it is one atomic step.
\<close>

record run_row =
  rr_id :: string
  rr_started :: string
  rr_finished :: "string option"
  rr_status :: string
  rr_count :: int
  rr_error :: string

record message_row =
  mr_run :: string
  mr_account :: string
  mr_uid :: int
  mr_is_read :: int
  mr_label :: string
  mr_excerpt :: string
  mr_at :: string

record flag_row =
  fw_account :: string
  fw_uid :: int
  fw_flag :: string
  fw_at :: string

record summary_row =
  sr_run :: string
  sr_finished :: string
  sr_failed :: int
  sr_high :: int
  sr_payload :: string

type_synonym count_row = "string \<times> string \<times> int"

record sqlite_db =
  db_runs :: "run_row list"
  db_messages :: "message_row list"
  db_flags :: "flag_row list"
  db_digests :: "digest_record list"
  db_summaries :: "summary_row list"
  db_label_counts :: "count_row list"
  db_sender_counts :: "count_row list"
  db_domain_counts :: "count_row list"

definition empty_db :: sqlite_db where
  "empty_db =
     \<lparr>db_runs = [], db_messages = [], db_flags = [], db_digests = [], db_summaries = [],
      db_label_counts = [], db_sender_counts = [], db_domain_counts = []\<rparr>"

section \<open>Run lifecycle\<close>

text \<open>\<open>generateID\<close> prints sixteen random bytes.\<close>

definition generate_id :: "string \<Rightarrow> string" where
  "generate_id b =
     join_with ''-'' [hex_string (take 4 b), hex_string (take 2 (drop 4 b)),
       hex_string (take 2 (drop 6 b)), hex_string (take 2 (drop 8 b)), hex_string (take 6 (drop 10 b))]"

definition run_to_row :: "run \<Rightarrow> run_row" where
  "run_to_row r =
     \<lparr>rr_id = run_id r, rr_started = format_time (run_started r), rr_finished = None,
      rr_status = status_text (run_state r), rr_count = run_count r, rr_error = run_error r\<rparr>"

definition insert_run :: "store_io \<Rightarrow> run \<Rightarrow> (run, sqlite_db) store_op" where
  "insert_run io r s =
     (case io_fault io 0 of
        Some e \<Rightarrow> (Inl (Wrap ''store.RecordRun: exec: '' e), s)
      | None \<Rightarrow>
          if run_id r \<in> rr_id ` set (db_runs s)
          then (Inl (Wrap ''store.RecordRun: exec: '' (io_conflict io)), s)
          else (Inr r, s\<lparr>db_runs := db_runs s @ [run_to_row r]\<rparr>))"

definition sqlite_record_run :: "store_io \<Rightarrow> run \<Rightarrow> (run, sqlite_db) store_op" where
  "sqlite_record_run io r s =
     (if run_id r = []
      then (case io_random io of
              Inl e \<Rightarrow> (Inl (Wrap ''store.RecordRun: generate id: '' e), s)
            | Inr b \<Rightarrow> insert_run io (fill_run (io_now io) (generate_id b) r) s)
      else insert_run io (fill_run (io_now io) [] r) s)"

definition finish_row :: "string \<Rightarrow> run_status \<Rightarrow> int \<Rightarrow> string \<Rightarrow> run_row \<Rightarrow> run_row" where
  "finish_row now st n e r =
     r\<lparr>rr_finished := Some now, rr_status := status_text st, rr_count := n, rr_error := e\<rparr>"

definition sqlite_finish_run ::
  "store_io \<Rightarrow> string \<Rightarrow> run_status \<Rightarrow> int \<Rightarrow> err option \<Rightarrow> (unit, sqlite_db) store_op" where
  "sqlite_finish_run io i st n e s =
     (case io_fault io 0 of
        Some x \<Rightarrow> (Inl (Wrap ''store.FinishRun: exec: '' x), s)
      | None \<Rightarrow>
          let upd = finish_row (format_time (io_now io)) st n (err_string e);
              s' = s\<lparr>db_runs := map (\<lambda>r. if rr_id r = i then upd r else r) (db_runs s)\<rparr>
          in case io_fault io 1 of
               Some x \<Rightarrow> (Inl (Wrap ''store.FinishRun: rows affected: '' x), s')
             | None \<Rightarrow>
                 if filter (\<lambda>r. rr_id r = i) (db_runs s) = []
                 then (Inl (Wrap ''store.FinishRun: '' run_not_found), s')
                 else (Inr (), s'))"

definition row_to_run :: "(string \<Rightarrow> time option) \<Rightarrow> string \<Rightarrow> run_row \<Rightarrow> err + run" where
  "row_to_run legacy who r =
     (case parse_time legacy (rr_started r) of
        Inl e \<Rightarrow> Inl (Wrap (who @ '': parse started_at: '') e)
      | Inr started \<Rightarrow>
          let run = \<lparr>run_id = rr_id r, run_started = started, run_finished = None,
                     run_state = status_of_text (rr_status r), run_count = rr_count r,
                     run_error = rr_error r\<rparr>
          in case rr_finished r of
               None \<Rightarrow> Inr run
             | Some f \<Rightarrow>
                 (case parse_time legacy f of
                    Inl e \<Rightarrow> Inl (Wrap (who @ '': parse finished_at: '') e)
                  | Inr t \<Rightarrow> Inr (run\<lparr>run_finished := Some t\<rparr>)))"

definition sqlite_get_run ::
  "(string \<Rightarrow> time option) \<Rightarrow> store_io \<Rightarrow> string \<Rightarrow> (run, sqlite_db) store_op" where
  "sqlite_get_run legacy io i s =
     (case io_fault io 0 of
        Some e \<Rightarrow> (Inl (Wrap ''store.GetRun: scan: '' e), s)
      | None \<Rightarrow>
          (case find (\<lambda>r. rr_id r = i) (db_runs s) of
             None \<Rightarrow> (Inl (Wrap ''store.GetRun: '' run_not_found), s)
           | Some r \<Rightarrow> (row_to_run legacy ''store.GetRun'' r, s)))"

text \<open>\<open>ORDER BY key DESC\<close>.\<close>

definition order_desc :: "('a \<Rightarrow> string) \<Rightarrow> 'a list \<Rightarrow> 'a list" where
  "order_desc key xs = rev (sort_key key (rev xs))"

fun read_runs :: "(string \<Rightarrow> time option) \<Rightarrow> run_row list \<Rightarrow> err + run list" where
  "read_runs legacy [] = Inr []"
| "read_runs legacy (r # rs) =
     (case row_to_run legacy ''store.ListRuns'' r of
        Inl e \<Rightarrow> Inl e
      | Inr x \<Rightarrow> (case read_runs legacy rs of Inl e \<Rightarrow> Inl e | Inr xs \<Rightarrow> Inr (x # xs)))"

definition sqlite_list_runs ::
  "(string \<Rightarrow> time option) \<Rightarrow> store_io \<Rightarrow> int \<Rightarrow> (run list, sqlite_db) store_op" where
  "sqlite_list_runs legacy io limit s =
     (case io_fault io 0 of
        Some e \<Rightarrow> (Inl (Wrap ''store.ListRuns: query: '' e), s)
      | None \<Rightarrow>
          (case read_runs legacy (take (nat (if limit \<le> 0 then 10 else limit)) (order_desc rr_started (db_runs s))) of
             Inl e \<Rightarrow> (Inl e, s)
           | Inr runs \<Rightarrow>
               (case io_fault io 1 of
                  Some e \<Rightarrow> (Inl (Wrap ''store.ListRuns: rows: '' e), s)
                | None \<Rightarrow> (Inr runs, s))))"

text \<open>The column \<open>finished_at\<close> of the completed runs.\<close>

definition completed_texts :: "sqlite_db \<Rightarrow> string list" where
  "completed_texts s =
     List.map_filter rr_finished (filter (\<lambda>r. rr_status r = ''completed'') (db_runs s))"

definition sqlite_last_success ::
  "(string \<Rightarrow> time option) \<Rightarrow> store_io \<Rightarrow> (time option, sqlite_db) store_op" where
  "sqlite_last_success legacy io s =
     (case io_fault io 0 of
        Some e \<Rightarrow> (Inl (Wrap ''store.GetLastSuccessfulRunTime: scan: '' e), s)
      | None \<Rightarrow>
          (case order_desc id (completed_texts s) of
             [] \<Rightarrow> (Inr None, s)
           | x # _ \<Rightarrow>
               (case parse_time legacy x of
                  Inl e \<Rightarrow> (Inl (Wrap ''store.GetLastSuccessfulRunTime: parse: '' e), s)
                | Inr t \<Rightarrow> (Inr (Some t), s))))"

section \<open>Processed messages, flags and digests\<close>

definition message_to_row :: "time \<Rightarrow> processed_message \<Rightarrow> message_row" where
  "message_to_row now m =
     \<lparr>mr_run = pm_run m, mr_account = pm_account m, mr_uid = uint (pm_uid m),
      mr_is_read = (if pm_is_read m then 1 else 0), mr_label = pm_label m, mr_excerpt = pm_excerpt m,
      mr_at = format_time (if time_is_zero (pm_at m) then now else pm_at m)\<rparr>"

definition row_pk :: "message_row \<Rightarrow> string \<times> int" where
  "row_pk r = (mr_account r, mr_uid r)"

definition sqlite_record_message :: "store_io \<Rightarrow> processed_message \<Rightarrow> (unit, sqlite_db) store_op" where
  "sqlite_record_message io m s =
     (case io_fault io 0 of
        Some e \<Rightarrow> (Inl (Wrap ''store.RecordMessage: exec: '' e), s)
      | None \<Rightarrow>
          let r = message_to_row (io_now io) m in
          if row_pk r \<in> row_pk ` set (db_messages s) then (Inr (), s)
          else (Inr (), s\<lparr>db_messages := db_messages s @ [r]\<rparr>))"

definition row_key :: "message_row \<Rightarrow> message_key" where
  "row_key r = \<lparr>mk_account = mr_account r, mk_uid = word_of_int (mr_uid r)\<rparr>"

definition matches_key :: "message_row \<Rightarrow> message_key \<Rightarrow> bool" where
  "matches_key r k \<longleftrightarrow> mr_account r = mk_account k \<and> mr_uid r = uint (mk_uid k)"

definition sqlite_already_processed ::
  "store_io \<Rightarrow> message_key list \<Rightarrow> (message_key set, sqlite_db) store_op" where
  "sqlite_already_processed io ks s =
     (if ks = [] then (Inr {}, s)
      else case io_fault io 0 of
        Some e \<Rightarrow> (Inl (Wrap ''store.AlreadyProcessed: query: '' e), s)
      | None \<Rightarrow>
          let rows = filter (\<lambda>r. \<exists>k \<in> set ks. matches_key r k) (db_messages s) in
          (case io_fault io 1 of
             Some e \<Rightarrow> (Inl (Wrap ''store.AlreadyProcessed: rows: '' e), s)
           | None \<Rightarrow> (Inr (set (map row_key rows)), s)))"

definition flag_to_row :: "time \<Rightarrow> flag_record \<Rightarrow> flag_row" where
  "flag_to_row now f =
     \<lparr>fw_account = fr_account f, fw_uid = uint (fr_uid f), fw_flag = fr_flag f,
      fw_at = format_time (if time_is_zero (fr_at f) then now else fr_at f)\<rparr>"

definition flag_pk :: "flag_row \<Rightarrow> string \<times> int \<times> string" where
  "flag_pk r = (fw_account r, fw_uid r, fw_flag r)"

definition sqlite_record_flag :: "store_io \<Rightarrow> flag_record \<Rightarrow> (unit, sqlite_db) store_op" where
  "sqlite_record_flag io f s =
     (case io_fault io 0 of
        Some e \<Rightarrow> (Inl (Wrap ''store.RecordFlag: exec: '' e), s)
      | None \<Rightarrow>
          let r = flag_to_row (io_now io) f in
          if flag_pk r \<in> flag_pk ` set (db_flags s) then (Inr (), s)
          else (Inr (), s\<lparr>db_flags := db_flags s @ [r]\<rparr>))"

definition sqlite_record_digest :: "store_io \<Rightarrow> digest_record \<Rightarrow> (unit, sqlite_db) store_op" where
  "sqlite_record_digest io d s =
     (case io_fault io 0 of
        Some e \<Rightarrow> (Inl (Wrap ''store.RecordDigest: exec: '' e), s)
      | None \<Rightarrow> (Inr (), s\<lparr>db_digests := db_digests s @ [d]\<rparr>))"

section \<open>Run digest summaries\<close>

text \<open>
  \<open>replaceCountTableTx\<close>: statement number \<open>i\<close> of the transaction deletes the rows of the run, and
  one statement per positive count inserts.  The result carries the number of the next statement.
\<close>

definition save_error :: "string \<Rightarrow> err \<Rightarrow> err" where
  "save_error what e = Wrap (''store.SaveRunDigestSummary: '' @ what @ '': '') e"

fun insert_counts ::
  "store_io \<Rightarrow> string \<Rightarrow> nat \<Rightarrow> string \<Rightarrow> counts \<Rightarrow> count_row list \<Rightarrow> err + (nat \<times> count_row list)" where
  "insert_counts io tname i run [] t = Inr (i, t)"
| "insert_counts io tname i run ((k, n) # cs) t =
     (if n \<le> 0 then insert_counts io tname i run cs t
      else case io_fault io i of
        Some e \<Rightarrow> Inl (save_error (''ins '' @ tname @ '' '' @ go_quote k) e)
      | None \<Rightarrow>
          if \<exists>(r, k', n') \<in> set t. r = run \<and> k' = k
          then Inl (save_error (''ins '' @ tname @ '' '' @ go_quote k) (io_conflict io))
          else insert_counts io tname (Suc i) run cs (t @ [(run, k, n)]))"

definition replace_counts ::
  "store_io \<Rightarrow> string \<Rightarrow> nat \<Rightarrow> string \<Rightarrow> counts \<Rightarrow> count_row list \<Rightarrow> err + (nat \<times> count_row list)" where
  "replace_counts io tname i run cs t =
     (case io_fault io i of
        Some e \<Rightarrow> Inl (save_error (''del '' @ tname) e)
      | None \<Rightarrow> insert_counts io tname (Suc i) run cs (filter (\<lambda>(r, _). r \<noteq> run) t))"

definition summary_to_row :: "digest_summary \<Rightarrow> summary_row" where
  "summary_to_row d =
     \<lparr>sr_run = ds_run d, sr_finished = format_time (ds_finished d), sr_failed = ds_failed d,
      sr_high = ds_high d, sr_payload = ''{}''\<rparr>"

definition upsert_summary :: "digest_summary \<Rightarrow> summary_row list \<Rightarrow> summary_row list" where
  "upsert_summary d rows =
     (if ds_run d \<in> sr_run ` set rows
      then map (\<lambda>r. if sr_run r = ds_run d then summary_to_row d else r) rows
      else rows @ [summary_to_row d])"

definition save_counts ::
  "store_io \<Rightarrow> digest_summary \<Rightarrow> sqlite_db \<Rightarrow> err + (nat \<times> sqlite_db)" where
  "save_counts io d s =
     (case replace_counts io ''labels'' 2 (ds_run d) (ds_labels d) (db_label_counts s) of
        Inl e \<Rightarrow> Inl e
      | Inr (i, ls) \<Rightarrow>
     (case replace_counts io ''senders'' i (ds_run d) (ds_senders d) (db_sender_counts s) of
        Inl e \<Rightarrow> Inl e
      | Inr (j, ss) \<Rightarrow>
     (case replace_counts io ''domains'' j (ds_run d) (ds_domains d) (db_domain_counts s) of
        Inl e \<Rightarrow> Inl e
      | Inr (k, ms) \<Rightarrow>
          Inr (k, s\<lparr>db_label_counts := ls, db_sender_counts := ss, db_domain_counts := ms\<rparr>))))"

definition sqlite_save_summary :: "store_io \<Rightarrow> digest_summary \<Rightarrow> (unit, sqlite_db) store_op" where
  "sqlite_save_summary io d s =
     (case io_fault io 0 of
        Some e \<Rightarrow> (Inl (save_error ''begin tx'' e), s)
      | None \<Rightarrow>
     (case io_fault io 1 of
        Some e \<Rightarrow> (Inl (save_error ''upsert summary'' e), s)
      | None \<Rightarrow>
     (case save_counts io d (s\<lparr>db_summaries := upsert_summary d (db_summaries s)\<rparr>) of
        Inl e \<Rightarrow> (Inl e, s)
      | Inr (k, s') \<Rightarrow>
     (case io_fault io k of
        Some e \<Rightarrow> (Inl (save_error ''commit'' e), s)
      | None \<Rightarrow> (Inr (), s')))))"

definition load_counts :: "string \<Rightarrow> count_row list \<Rightarrow> counts" where
  "load_counts run t = map snd (filter (\<lambda>(r, _). r = run) t)"

definition previous_error :: "string \<Rightarrow> err \<Rightarrow> err" where
  "previous_error what e = Wrap (''store.GetPreviousRunDigestSummary: '' @ what @ '': '') e"

text \<open>The join of step 2: the summaries of the completed runs that finished before the bound.\<close>

definition prior_rows :: "string \<Rightarrow> sqlite_db \<Rightarrow> (summary_row \<times> string) list" where
  "prior_rows bound s =
     concat (map (\<lambda>sr. List.map_filter (\<lambda>r.
         case rr_finished r of
           None \<Rightarrow> None
         | Some f \<Rightarrow> if rr_id r = sr_run sr \<and> rr_status r = ''completed'' \<and> f < bound
             then Some (sr, f) else None) (db_runs s)) (db_summaries s))"

definition load_summary ::
  "(string \<Rightarrow> time option) \<Rightarrow> store_io \<Rightarrow> summary_row \<Rightarrow> sqlite_db \<Rightarrow> err + digest_summary option" where
  "load_summary legacy io sr s =
     (case parse_time legacy (sr_finished sr) of
        Inl e \<Rightarrow> Inl (previous_error ''parse finished_at'' e)
      | Inr t \<Rightarrow>
     (case io_fault io 2 of Some e \<Rightarrow> Inl (previous_error ''load labels'' e)
      | None \<Rightarrow>
     (case io_fault io 3 of Some e \<Rightarrow> Inl (previous_error ''load senders'' e)
      | None \<Rightarrow>
     (case io_fault io 4 of Some e \<Rightarrow> Inl (previous_error ''load domains'' e)
      | None \<Rightarrow>
          Inr (Some \<lparr>ds_run = sr_run sr, ds_finished = t,
            ds_labels = load_counts (sr_run sr) (db_label_counts s),
            ds_senders = load_counts (sr_run sr) (db_sender_counts s),
            ds_domains = load_counts (sr_run sr) (db_domain_counts s),
            ds_failed = sr_failed sr, ds_high = sr_high sr\<rparr>)))))"

definition sqlite_previous_summary ::
  "(string \<Rightarrow> time option) \<Rightarrow> store_io \<Rightarrow> string \<Rightarrow> (digest_summary option, sqlite_db) store_op" where
  "sqlite_previous_summary legacy io before s =
     (case io_fault io 0 of
        Some e \<Rightarrow> (Inl (previous_error ''get current run'' e), s)
      | None \<Rightarrow>
     (case find (\<lambda>r. rr_id r = before) (db_runs s) of
        None \<Rightarrow> (Inr None, s)
      | Some cur \<Rightarrow>
     (case (case rr_finished cur of None \<Rightarrow> Inr (io_now io) | Some f \<Rightarrow> parse_time legacy f) of
        Inl e \<Rightarrow> (Inl (previous_error ''parse current finished_at'' e), s)
      | Inr bound \<Rightarrow>
     (case io_fault io 1 of
        Some e \<Rightarrow> (Inl (previous_error ''scan summary'' e), s)
      | None \<Rightarrow>
     (case order_desc snd (prior_rows (format_time bound) s) of
        [] \<Rightarrow> (Inr None, s)
      | (sr, f) # _ \<Rightarrow> (load_summary legacy io sr s, s))))))"

definition sqlite_ops :: "(string \<Rightarrow> time option) \<Rightarrow> sqlite_db store_ops" where
  "sqlite_ops legacy =
     \<lparr>so_record_run = sqlite_record_run, so_finish_run = sqlite_finish_run,
      so_get_run = sqlite_get_run legacy, so_list_runs = sqlite_list_runs legacy,
      so_last_success = sqlite_last_success legacy, so_record_message = sqlite_record_message,
      so_already_processed = sqlite_already_processed, so_record_flag = sqlite_record_flag,
      so_record_digest = sqlite_record_digest, so_save_summary = sqlite_save_summary,
      so_previous_summary = sqlite_previous_summary legacy\<rparr>"

section \<open>The representation invariant\<close>

definition time_column :: "string \<Rightarrow> bool" where
  "time_column x \<longleftrightarrow> (\<exists>t. storable t \<and> x = format_time t)"

definition sqlite_wf :: "sqlite_db \<Rightarrow> bool" where
  "sqlite_wf s \<longleftrightarrow>
     distinct (map rr_id (db_runs s)) \<and> distinct (map row_pk (db_messages s))
     \<and> distinct (map flag_pk (db_flags s)) \<and> distinct (map sr_run (db_summaries s))
     \<and> (\<forall>r \<in> set (db_runs s). time_column (rr_started r) \<and> pred_option time_column (rr_finished r))
     \<and> (\<forall>m \<in> set (db_messages s). 0 \<le> mr_uid m \<and> mr_uid m < 2 ^ 32)
     \<and> (\<forall>f \<in> set (db_flags s). 0 \<le> fw_uid f \<and> fw_uid f < 2 ^ 32)"

definition sqlite_known :: "sqlite_db \<Rightarrow> message_key set" where
  "sqlite_known s = row_key ` set (db_messages s)"

definition row_flag_id :: "flag_row \<Rightarrow> message_key \<times> string" where
  "row_flag_id f = (\<lparr>mk_account = fw_account f, mk_uid = word_of_int (fw_uid f)\<rparr>, fw_flag f)"

definition sqlite_flagged :: "sqlite_db \<Rightarrow> (message_key \<times> string) set" where
  "sqlite_flagged s = row_flag_id ` set (db_flags s)"

definition row_completed :: "run_row \<Rightarrow> time \<Rightarrow> bool" where
  "row_completed r t \<longleftrightarrow> storable t \<and> rr_status r = ''completed'' \<and> rr_finished r = Some (format_time t)"

definition sqlite_completed :: "sqlite_db \<Rightarrow> time set" where
  "sqlite_completed s = {t. \<exists>r \<in> set (db_runs s). row_completed r t}"

lemmas sqlite_abs = sqlite_wf_def sqlite_known_def sqlite_flagged_def sqlite_completed_def

lemma format_time_inj: "storable t \<Longrightarrow> storable u \<Longrightarrow> format_time t = format_time u \<Longrightarrow> t = u"
  using parse_format_strict by (metis option.inject)

lemma completed_status [simp]: "status_text st = ''completed'' \<longleftrightarrow> st = RunCompleted \<or> st = RunOther ''completed''"
  by (cases st) auto

lemma insert_run_contract:
  assumes "insert_run io r s = (Inr r', s')" "sqlite_wf s" "storable (run_started r)"
  shows "sqlite_wf s' \<and> sqlite_known s' = sqlite_known s \<and> sqlite_flagged s' = sqlite_flagged s
    \<and> sqlite_completed s' = sqlite_completed s"
proof -
  have "time_column (format_time (run_started r))" using assms(3) by (auto simp: time_column_def)
  then show ?thesis
    using assms(1,2)
    by (auto simp: insert_run_def sqlite_abs run_to_row_def row_completed_def split: option.splits if_splits)
qed

section \<open>The contract holds\<close>

lemma sqlite_run_contract:
  assumes "sqlite_record_run io r s = (Inr r', s')" "sqlite_wf s" "storable (io_now io)" "storable (run_started r)"
  shows "sqlite_wf s' \<and> sqlite_known s' = sqlite_known s \<and> sqlite_flagged s' = sqlite_flagged s
    \<and> sqlite_completed s' = sqlite_completed s"
proof -
  obtain i where "insert_run io (fill_run (io_now io) i r) s = (Inr r', s')"
    using assms(1) by (auto simp: sqlite_record_run_def split: sum.splits if_splits)
  then show ?thesis by (rule insert_run_contract) (use assms in auto)
qed

lemma row_pk_message: "row_pk (message_to_row now m) = (pm_account m, uint (pm_uid m))"
  by (simp add: row_pk_def message_to_row_def)

lemma row_key_message: "row_key (message_to_row now m) = pm_key m"
  by (simp add: row_key_def message_to_row_def pm_key_def)

lemma row_key_iff:
  assumes "0 \<le> mr_uid r" "mr_uid r < 2 ^ 32"
  shows "row_pk r = (pm_account m, uint (pm_uid m)) \<longleftrightarrow> row_key r = pm_key m"
proof -
  have "uint (word_of_int (mr_uid r) :: uid) = mr_uid r"
    using assms by (simp add: uint_word_of_int_eq take_bit_int_eq_self)
  then show ?thesis
    by (auto simp: row_pk_def row_key_def pm_key_def)
qed

lemma uint_uid: "0 \<le> uint (u :: uid)" "uint (u :: uid) < 4294967296"
  using uint_lt2p [of u] by simp_all

lemma sqlite_message_contract:
  assumes "sqlite_record_message io m s = (Inr u, s')" "sqlite_wf s"
  shows "sqlite_wf s' \<and> sqlite_known s' = insert (pm_key m) (sqlite_known s)
    \<and> sqlite_flagged s' = sqlite_flagged s \<and> sqlite_completed s' = sqlite_completed s"
    and "pm_key m \<in> sqlite_known s \<Longrightarrow> s' = s"
proof -
  have present: "row_pk (message_to_row (io_now io) m) \<in> row_pk ` set (db_messages s)
      \<longleftrightarrow> pm_key m \<in> sqlite_known s"
  proof -
    have "\<forall>r \<in> set (db_messages s). row_pk r = (pm_account m, uint (pm_uid m)) \<longleftrightarrow> row_key r = pm_key m"
      using assms(2) row_key_iff by (simp add: sqlite_wf_def)
    then show ?thesis unfolding row_pk_message sqlite_known_def by (metis (mono_tags, lifting) image_iff)
  qed
  have "s' = (if pm_key m \<in> sqlite_known s then s
      else s\<lparr>db_messages := db_messages s @ [message_to_row (io_now io) m]\<rparr>)"
    using assms(1) present
    by (simp add: sqlite_record_message_def Let_def split: option.splits if_splits)
  moreover have "sqlite_wf (s\<lparr>db_messages := db_messages s @ [message_to_row (io_now io) m]\<rparr>)"
    if "pm_key m \<notin> sqlite_known s"
    using that present assms(2) by (auto simp: sqlite_wf_def message_to_row_def uint_uid)
  ultimately show "sqlite_wf s' \<and> sqlite_known s' = insert (pm_key m) (sqlite_known s)
    \<and> sqlite_flagged s' = sqlite_flagged s \<and> sqlite_completed s' = sqlite_completed s"
    and "pm_key m \<in> sqlite_known s \<Longrightarrow> s' = s"
    using assms(2)
    by (auto simp: sqlite_known_def sqlite_flagged_def sqlite_completed_def row_key_message)
qed

lemma matches_key_iff:
  assumes "0 \<le> mr_uid r" "mr_uid r < 2 ^ 32"
  shows "matches_key r k \<longleftrightarrow> row_key r = k"
proof -
  have "uint (word_of_int (mr_uid r) :: uid) = mr_uid r"
    using assms by (simp add: uint_word_of_int_eq take_bit_int_eq_self)
  then show ?thesis by (cases k) (auto simp: matches_key_def row_key_def)
qed

lemma sqlite_processed_contract:
  assumes "sqlite_already_processed io ks s = (Inr K, s')" "sqlite_wf s"
  shows "K = set ks \<inter> sqlite_known s"
proof -
  have "\<forall>r \<in> set (db_messages s). \<forall>k. matches_key r k \<longleftrightarrow> row_key r = k"
    using assms(2) matches_key_iff by (simp add: sqlite_wf_def)
  then show ?thesis
    using assms(1)
    by (auto simp: sqlite_already_processed_def sqlite_known_def Let_def split: if_splits option.splits)
qed

lemma flag_pk_row: "flag_pk (flag_to_row now f) = (fr_account f, uint (fr_uid f), fr_flag f)"
  by (simp add: flag_pk_def flag_to_row_def)

lemma row_flag_id_row: "row_flag_id (flag_to_row now f) = flag_id f"
  by (simp add: row_flag_id_def flag_to_row_def flag_id_def fr_key_def)

lemma flag_id_iff:
  assumes "0 \<le> fw_uid r" "fw_uid r < 2 ^ 32"
  shows "flag_pk r = (fr_account f, uint (fr_uid f), fr_flag f) \<longleftrightarrow> row_flag_id r = flag_id f"
proof -
  have "uint (word_of_int (fw_uid r) :: uid) = fw_uid r"
    using assms by (simp add: uint_word_of_int_eq take_bit_int_eq_self)
  then show ?thesis
    by (auto simp: flag_pk_def row_flag_id_def flag_id_def fr_key_def)
qed

lemma sqlite_flag_contract:
  assumes "sqlite_record_flag io f s = (Inr u, s')" "sqlite_wf s"
  shows "sqlite_wf s' \<and> sqlite_flagged s' = insert (flag_id f) (sqlite_flagged s)
    \<and> sqlite_known s' = sqlite_known s \<and> sqlite_completed s' = sqlite_completed s"
proof -
  have present: "flag_pk (flag_to_row (io_now io) f) \<in> flag_pk ` set (db_flags s)
      \<longleftrightarrow> flag_id f \<in> sqlite_flagged s"
  proof -
    have "\<forall>r \<in> set (db_flags s). flag_pk r = (fr_account f, uint (fr_uid f), fr_flag f) \<longleftrightarrow> row_flag_id r = flag_id f"
      using assms(2) flag_id_iff by (simp add: sqlite_wf_def)
    then show ?thesis unfolding flag_pk_row sqlite_flagged_def by (metis (mono_tags, lifting) image_iff)
  qed
  have "s' = (if flag_id f \<in> sqlite_flagged s then s
      else s\<lparr>db_flags := db_flags s @ [flag_to_row (io_now io) f]\<rparr>)"
    using assms(1) present
    by (simp add: sqlite_record_flag_def Let_def split: option.splits if_splits)
  moreover have "sqlite_wf (s\<lparr>db_flags := db_flags s @ [flag_to_row (io_now io) f]\<rparr>)"
    if "flag_id f \<notin> sqlite_flagged s"
    using that present assms(2) by (auto simp: sqlite_wf_def flag_to_row_def uint_uid)
  ultimately show ?thesis
    using assms(2)
    by (auto simp: sqlite_known_def sqlite_flagged_def sqlite_completed_def row_flag_id_row)
qed

lemma finish_row_simps [simp]:
  "rr_id (finish_row now st n e r) = rr_id r" "rr_started (finish_row now st n e r) = rr_started r"
  "rr_finished (finish_row now st n e r) = Some now" "rr_status (finish_row now st n e r) = status_text st"
  by (simp_all add: finish_row_def)

lemma sqlite_finish_contract:
  assumes "sqlite_finish_run io i st n eo s = (fin, s')" "sqlite_wf s" "storable (io_now io)"
    "st \<in> set named_statuses"
  shows "sqlite_wf s' \<and> sqlite_known s' = sqlite_known s \<and> sqlite_flagged s' = sqlite_flagged s
    \<and> sqlite_completed s' \<subseteq>
        (if st = RunCompleted then insert (io_now io) (sqlite_completed s) else sqlite_completed s)
    \<and> (st = RunCompleted \<and> fin = Inr () \<longrightarrow> io_now io \<in> sqlite_completed s')"
proof -
  define now where "now = format_time (io_now io)"
  define f where "f r = (if rr_id r = i then finish_row now st n (err_string eo) r else r)" for r
  have tc: "time_column now" using assms(3) by (auto simp: time_column_def now_def)
  have st: "status_text st = ''completed'' \<longleftrightarrow> st = RunCompleted"
    using assms(4) by (auto simp: named_statuses_def)
  have ids: "rr_id (f r) = rr_id r" for r by (simp add: f_def)
  have wf: "sqlite_wf (s\<lparr>db_runs := map f (db_runs s)\<rparr>)"
  proof -
    have "rr_id \<circ> f = rr_id" by (simp add: fun_eq_iff ids)
    moreover have "rr_started (f r) = rr_started r"
      "pred_option time_column (rr_finished r) \<Longrightarrow> pred_option time_column (rr_finished (f r))" for r
      using tc by (simp_all add: f_def)
    ultimately show ?thesis using assms(2) by (simp add: sqlite_wf_def)
  qed
  have row: "row_completed (f r) t \<Longrightarrow> row_completed r t \<or> (st = RunCompleted \<and> t = io_now io)" for r t
    using assms(3) st format_time_inj [of t "io_now io"]
    by (auto simp: f_def row_completed_def now_def split: if_splits)
  have new: "row_completed (f r) (io_now io)" if "rr_id r = i" "st = RunCompleted" for r
    using that assms(3) by (simp add: f_def row_completed_def now_def)
  have s': "s' = s \<or> s' = s\<lparr>db_runs := map f (db_runs s)\<rparr>"
    using assms(1)
    by (auto simp: sqlite_finish_run_def Let_def f_def [abs_def] now_def split: option.splits if_splits)
  have ok: "s' = s\<lparr>db_runs := map f (db_runs s)\<rparr> \<and> (\<exists>r \<in> set (db_runs s). rr_id r = i)" if "fin = Inr ()"
    using assms(1) that
    by (auto simp: sqlite_finish_run_def Let_def f_def [abs_def] now_def filter_empty_conv
        split: option.splits if_splits)
  show ?thesis
    using s' wf assms(2) ok new
    by (auto simp: sqlite_known_def sqlite_flagged_def sqlite_completed_def dest!: row)
qed

lemma order_desc_first:
  assumes "order_desc key xs = x # ys"
  shows "x \<in> set xs \<and> (\<forall>y \<in> set xs. key y \<le> key x)"
proof -
  have s: "sort_key key (rev xs) = rev ys @ [x]"
    using assms by (metis order_desc_def rev.simps(2) rev_rev_ident)
  have "set (rev ys @ [x]) = set xs" using arg_cong [OF s, of set] by simp
  moreover have "sorted (map key (rev ys @ [x]))" by (metis s sorted_sort_key)
  ultimately show ?thesis by (auto simp: sorted_append)
qed

lemma order_desc_Nil: "order_desc key xs = [] \<longleftrightarrow> xs = []"
  by (metis order_desc_def length_0_conv length_rev length_sort)

lemma completed_texts_iff:
  assumes "sqlite_wf s"
  shows "x \<in> set (completed_texts s) \<longleftrightarrow> (\<exists>t \<in> sqlite_completed s. x = format_time t)"
proof
  assume "x \<in> set (completed_texts s)"
  then obtain r where r: "r \<in> set (db_runs s)" "rr_status r = ''completed''" "rr_finished r = Some x"
    by (auto simp: completed_texts_def List.map_filter_def)
  have "\<forall>r \<in> set (db_runs s). pred_option time_column (rr_finished r)"
    using assms by (simp add: sqlite_wf_def)
  then have "pred_option time_column (rr_finished r)" using r(1) by blast
  then obtain t where "storable t" "x = format_time t"
    using r(3) by (auto simp: time_column_def)
  with r show "\<exists>t \<in> sqlite_completed s. x = format_time t"
    by (auto simp: sqlite_completed_def row_completed_def)
next
  assume "\<exists>t \<in> sqlite_completed s. x = format_time t"
  then show "x \<in> set (completed_texts s)"
    by (force simp: sqlite_completed_def row_completed_def completed_texts_def List.map_filter_def)
qed

lemma completed_storable: "t \<in> sqlite_completed s \<Longrightarrow> storable t"
  by (auto simp: sqlite_completed_def row_completed_def)

lemma format_time_le_second:
  assumes "storable t" "storable u" "format_time u \<le> format_time t"
  shows "u < t + second_ns"
proof (rule ccontr)
  assume "\<not> u < t + second_ns"
  then have "t div second_ns < u div second_ns"
    by (simp add: second_ns_def) 
  then have "format_time t < format_time u"
    using format_time_mono assms by (simp add: storable_def)
  with assms(3) show False by simp
qed

lemma sqlite_last_total:
  assumes "sqlite_wf s" "io_fault io 0 = None"
  shows "\<exists>t. sqlite_last_success legacy io s = (Inr t, s) \<and>
    (case t of None \<Rightarrow> sqlite_completed s = {}
     | Some t \<Rightarrow> t \<in> sqlite_completed s \<and> (\<forall>t' \<in> sqlite_completed s. t' < t + second_ns))"
proof (cases "order_desc id (completed_texts s)")
  case Nil
  then have "completed_texts s = []" by (simp add: order_desc_Nil)
  then have "sqlite_completed s = {}" using completed_texts_iff [OF assms(1)] by auto
  then show ?thesis using assms(2) Nil by (auto simp: sqlite_last_success_def)
next
  case (Cons x xs)
  note m = order_desc_first [OF Cons]
  then obtain u where u: "u \<in> sqlite_completed s" "x = format_time u"
    using completed_texts_iff [OF assms(1)] by auto
  then have "sqlite_last_success legacy io s = (Inr (Some u), s)"
    using assms(2) Cons parse_format_time [OF completed_storable]
    by (auto simp: sqlite_last_success_def)
  moreover have "t' < u + second_ns" if "t' \<in> sqlite_completed s" for t'
    using m u that completed_storable completed_texts_iff [OF assms(1)]
    by (intro format_time_le_second) auto
  ultimately show ?thesis using u by auto
qed

lemma sqlite_last_contract:
  assumes "sqlite_last_success legacy io s = (Inr t, s')" "sqlite_wf s"
  shows "case t of None \<Rightarrow> sqlite_completed s = {}
    | Some t \<Rightarrow> t \<in> sqlite_completed s \<and> (\<forall>t' \<in> sqlite_completed s. t' < t + second_ns)"
proof -
  have "io_fault io 0 = None"
    using assms(1) by (auto simp: sqlite_last_success_def split: option.splits)
  then show ?thesis using sqlite_last_total [OF assms(2), of io legacy] assms(1) by auto
qed

lemma sqlite_unchanged:
  "sqlite_record_run io r s = (Inl e, s1) \<Longrightarrow> s1 = s"
  "sqlite_record_message io m s = (Inl e, s1) \<Longrightarrow> s1 = s"
  "sqlite_record_flag io f s = (Inl e, s1) \<Longrightarrow> s1 = s"
  "sqlite_already_processed io ks s = (pr, s1) \<Longrightarrow> s1 = s"
  "sqlite_last_success legacy io s = (lr, s1) \<Longrightarrow> s1 = s"
  "sqlite_previous_summary legacy io i s = (p, s1) \<Longrightarrow> s1 = s"
  by (auto simp: sqlite_record_run_def insert_run_def sqlite_record_message_def sqlite_record_flag_def
      sqlite_already_processed_def sqlite_last_success_def sqlite_previous_summary_def Let_def
      split: option.splits sum.splits if_splits list.splits)

lemma sqlite_digest_contract:
  assumes "sqlite_record_digest io d s = (dr, s')" "sqlite_wf s"
  shows "sqlite_wf s' \<and> sqlite_known s' = sqlite_known s \<and> sqlite_flagged s' = sqlite_flagged s
    \<and> sqlite_completed s' = sqlite_completed s"
  using assms by (auto simp: sqlite_record_digest_def sqlite_abs split: option.splits)

interpretation sqlite: store "sqlite_ops legacy" sqlite_wf sqlite_known sqlite_flagged sqlite_completed
  for legacy
proof (unfold_locales, goal_cases)
  case (1 io r s r' s')
  then show ?case using sqlite_run_contract [of io r s r' s'] by (simp add: sqlite_ops_def)
next
  case (3 io m s u s')
  then show ?case using sqlite_message_contract(1) [of io m s u s'] by (simp add: sqlite_ops_def)
next
  case (5 io m s u s')
  then show ?case using sqlite_message_contract(2) [of io m s u s'] by (simp add: sqlite_ops_def)
next
  case (6 io ks s K s')
  then show ?case using sqlite_processed_contract [of io ks s K s'] by (simp add: sqlite_ops_def)
next
  case (8 io f s u s')
  then show ?case using sqlite_flag_contract [of io f s u s'] by (simp add: sqlite_ops_def)
next
  case (10 io d s dr s')
  then show ?case using sqlite_digest_contract [of io d s dr s'] by (simp add: sqlite_ops_def)
next
  case (11 io i st n eo s fin s')
  then show ?case using sqlite_finish_contract [of io i st n eo s fin s'] by (simp add: sqlite_ops_def)
next
  case (12 io s t s')
  then show ?case using sqlite_last_contract [of legacy io s t s'] by (simp add: sqlite_ops_def)
qed (simp_all add: sqlite_ops_def sqlite_unchanged)

end
