(* ===== verification/StoreProps.thy ===== *)
theory StoreProps
  imports NoopStore SqliteStore
begin

text \<open>
  What the two stores guarantee: a run reads back as it was written, both stores answer
  deduplication queries alike and as the set of recorded keys says, recording is idempotent, the
  watermark query finds the last completed run up to one second, and a summary is saved entirely
  or not at all.  The proofs rest on the contract of the locale \<open>store\<close> through its two
  interpretations.
\<close>

section \<open>Reading back what was written\<close>

lemma find_appended: "find P xs = None \<Longrightarrow> find P (xs @ [x]) = (if P x then Some x else None)"
  by (induction xs) auto

lemma find_map_same:
  "(\<And>x. Q (f x) = Q x) \<Longrightarrow> find Q (map f xs) = map_option f (find Q xs)"
  by (induction xs) auto

lemma row_to_run_row:
  assumes "storable (run_started r)" "run_state r \<in> set named_statuses"
  shows "row_to_run legacy who (run_to_row r) = Inr (r\<lparr>run_finished := None\<rparr>)"
  using assms by (simp add: row_to_run_def run_to_row_def parse_format_time status_of_status_text)

text \<open>A clock reading and a database that does what it is told.\<close>

definition quiet_io :: "time \<Rightarrow> store_io" where
  "quiet_io now =
     \<lparr>io_now = now, io_random = Inr (replicate 16 (CHR 0x2A)), io_fault = (\<lambda>_. None),
      io_conflict = Err ''UNIQUE constraint failed''\<rparr>"

text \<open>C16: a run that \<open>RecordRun\<close> stores in SQLite is what \<open>GetRun\<close> returns under the identifier that
  it was given, and after \<open>FinishRun\<close> the same run with the status, the count, the error text
  and the finishing time of that call, so no run becomes unreadable.\<close>

theorem sqlite_run_roundtrip:
  assumes "sqlite_record_run io r s = (Inr r', s1)" and "storable (io_now io)" and "storable (run_started r)"
    and "run_finished r = None" and "run_state r \<in> set named_statuses"
    and "sqlite_finish_run io' (run_id r') st n e s1 = (Inr (), s2)" and "storable (io_now io')"
    and "st \<in> set named_statuses" and "io_fault gio 0 = None"
  shows "sqlite_get_run legacy gio (run_id r') s1 = (Inr r', s1) \<and>
    sqlite_get_run legacy gio (run_id r') s2 =
      (Inr (finished_run (io_now io') st n (err_string e) r'), s2)"
proof -
  obtain i where ins: "insert_run io (fill_run (io_now io) i r) s = (Inr r', s1)"
    using assms(1) by (auto simp: sqlite_record_run_def split: sum.splits if_splits)
  then have r': "r' = fill_run (io_now io) i r" and s1: "s1 = s\<lparr>db_runs := db_runs s @ [run_to_row r']\<rparr>"
    and fresh: "run_id r' \<notin> rr_id ` set (db_runs s)"
    by (auto simp: insert_run_def split: option.splits if_splits)
  have ok: "storable (run_started r')" "run_state r' \<in> set named_statuses" "run_finished r' = None"
    using assms by (auto simp: r' named_statuses_def)
  have id: "rr_id (run_to_row r') = run_id r'" by (simp add: run_to_row_def)
  have "find (\<lambda>x. rr_id x = run_id r') (db_runs s) = None"
    using fresh unfolding find_None_iff by force
  then have found: "find (\<lambda>x. rr_id x = run_id r') (db_runs s1) = Some (run_to_row r')"
    by (simp add: s1 find_appended id)
  define upd where "upd = finish_row (format_time (io_now io')) st n (err_string e)"
  have "s2 = s1\<lparr>db_runs := map (\<lambda>x. if rr_id x = run_id r' then upd x else x) (db_runs s1)\<rparr>"
    using assms(6) by (auto simp: sqlite_finish_run_def Let_def upd_def split: option.splits if_splits)
  then have found2: "find (\<lambda>x. rr_id x = run_id r') (db_runs s2) = Some (upd (run_to_row r'))"
    using found by (simp add: find_map_same upd_def id)
  have "row_to_run legacy who (upd (run_to_row r')) =
      Inr (finished_run (io_now io') st n (err_string e) r')" for who
    using ok assms(7,8)
    by (simp add: row_to_run_def run_to_row_def upd_def finish_row_def parse_format_time
        status_of_status_text finished_run_def)
  then show ?thesis
    using found found2 row_to_run_row [OF ok(1,2)] ok(3) assms(9)
    by (simp add: sqlite_get_run_def)
qed

theorem sqlite_run_roundtrip_witness:
  "let r = \<lparr>run_id = ''r1'', run_started = 7, run_finished = None, run_state = RunRunning,
        run_count = 0, run_error = []\<rparr>;
       s1 = snd (sqlite_record_run (quiet_io 5) r empty_db);
       s2 = snd (sqlite_finish_run (quiet_io 9) ''r1'' RunPartial 3 (Some (Err ''boom'')) s1)
   in sqlite_get_run (\<lambda>_. None) (quiet_io 9) ''r1'' s2 =
        (Inr (finished_run 9 RunPartial 3 ''boom'' r), s2)"
proof -
  define r where "r = \<lparr>run_id = ''r1'', run_started = 7, run_finished = None, run_state = RunRunning,
        run_count = 0, run_error = []\<rparr>"
  define s1 where "s1 = snd (sqlite_record_run (quiet_io 5) r empty_db)"
  define s2 where "s2 = snd (sqlite_finish_run (quiet_io 9) ''r1'' RunPartial 3 (Some (Err ''boom'')) s1)"
  have 1: "sqlite_record_run (quiet_io 5) r empty_db = (Inr r, s1)"
    by (simp add: s1_def r_def sqlite_record_run_def insert_run_def quiet_io_def empty_db_def fill_run_def
        Let_def time_is_zero_def)
  have 2: "sqlite_finish_run (quiet_io 9) (run_id r) RunPartial 3 (Some (Err ''boom'')) s1 = (Inr (), s2)"
    by (simp add: s2_def s1_def r_def sqlite_finish_run_def sqlite_record_run_def insert_run_def quiet_io_def
        empty_db_def fill_run_def Let_def time_is_zero_def run_to_row_def)
  have "storable 5" "storable 7" "storable 9" by (simp_all add: storable_def max_time_def hour_ns_def second_ns_def)
  then show ?thesis
    using sqlite_run_roundtrip [OF 1 _ _ _ _ 2, of "quiet_io 9"]
    by (simp add: Let_def flip: r_def s1_def s2_def)
      (simp add: r_def quiet_io_def named_statuses_def err_string_def)
qed

lemma quiet_succeeds:
  "\<not> isl (fst (sqlite_record_message (quiet_io now) m s))"
  "\<not> isl (fst (sqlite_record_flag (quiet_io now) f s))"
  "\<not> isl (fst (sqlite_already_processed (quiet_io now) ks s))"
  "\<not> isl (fst (noop_record_message (quiet_io now) m n))"
  "\<not> isl (fst (noop_record_flag (quiet_io now) f n))"
  "\<not> isl (fst (noop_already_processed (quiet_io now) ks n))"
  by (simp_all add: sqlite_record_message_def sqlite_record_flag_def sqlite_already_processed_def quiet_io_def
      noop_record_message_def noop_record_flag_def noop_already_processed_def Let_def)


lemma empty_stores:
  "noop_wf new_noop_store" "sqlite_wf empty_db" "noop_known new_noop_store = sqlite_known empty_db"
  "noop_flagged new_noop_store = sqlite_flagged empty_db" "sqlite_known empty_db = {}"
  by (simp_all add: noop_abs sqlite_abs new_noop_store_def empty_db_def)


text \<open>C14: recording makes a message known for good: after \<open>RecordMessage\<close> has succeeded for a list
  of messages, \<open>AlreadyProcessed\<close> returns exactly the requested keys that were known before or
  are in that list, and recording the same list again leaves the database unchanged.\<close>

theorem sqlite_dedup:
  assumes "record_messages (sqlite_ops legacy) io i ms s = (Inr (), s1)" and "sqlite_wf s"
    and "sqlite_already_processed io' ks s1 = (Inr K, s2)"
    and "record_messages (sqlite_ops legacy) io'' j ms s1 = (Inr (), s3)"
  shows "K = {k \<in> set ks. k \<in> sqlite_known s \<or> k \<in> pm_key ` set ms} \<and> s2 = s1 \<and> s3 = s1"
proof -
  have q: "so_already_processed (sqlite_ops legacy) io' ks s1 = (Inr K, s2)"
    using assms(3) by (simp add: sqlite_ops_def)
  have "sqlite_wf s1" "pm_key ` set ms \<subseteq> sqlite_known s1"
    using sqlite.record_messages_known [OF assms(1,2)] by auto
  then show ?thesis
    using sqlite.record_then_processed [OF assms(1,2) q] sqlite.record_messages_again [OF assms(4)] by blast
qed

theorem sqlite_dedup_witness:
  "let m = \<lparr>pm_run = ''r'', pm_account = ''w'', pm_uid = 7, pm_is_read = False, pm_label = ''Ads'',
         pm_excerpt = [], pm_at = 0\<rparr>;
       s1 = snd (record_messages (sqlite_ops (\<lambda>_. None)) (\<lambda>_. quiet_io 5) 0 [m, m] empty_db)
   in fst (sqlite_already_processed (quiet_io 6) [\<lparr>mk_account = ''w'', mk_uid = 7\<rparr>] s1)
        = Inr {\<lparr>mk_account = ''w'', mk_uid = 7\<rparr>}
      \<and> snd (record_messages (sqlite_ops (\<lambda>_. None)) (\<lambda>_. quiet_io 7) 0 [m, m] s1) = s1"
proof -
  define m where "m = \<lparr>pm_run = ''r'', pm_account = ''w'', pm_uid = 7, pm_is_read = False, pm_label = ''Ads'',
         pm_excerpt = [], pm_at = 0\<rparr>"
  define go where "go now s = record_messages (sqlite_ops (\<lambda>_. None)) (\<lambda>_. quiet_io now) 0 [m, m] s" for now s
  define s1 where "s1 = snd (go 5 empty_db)"
  define ask where "ask = sqlite_already_processed (quiet_io 6) [\<lparr>mk_account = ''w'', mk_uid = 7\<rparr>] s1"
  have ok: "fst (go now s) = Inr ()" for now s
    by (auto simp: go_def sqlite_ops_def sqlite_record_message_def quiet_io_def Let_def)
  have 1: "go 5 empty_db = (Inr (), s1)" by (simp add: s1_def ok prod_eq_iff)
  have 2: "go 7 s1 = (Inr (), snd (go 7 s1))" by (simp add: ok prod_eq_iff)
  have 3: "ask = (Inr (projr (fst ask)), snd ask)"
    by (simp add: ask_def sqlite_already_processed_def quiet_io_def Let_def)
  have "projr (fst ask) = {\<lparr>mk_account = ''w'', mk_uid = 7\<rparr>} \<and> snd (go 7 s1) = s1"
    using sqlite_dedup [OF 1 [unfolded go_def] empty_stores(2) 3 [unfolded ask_def] 2 [unfolded go_def]]
    by (simp add: go_def ask_def empty_stores m_def pm_key_def)
  then show ?thesis
    unfolding Let_def m_def [symmetric] go_def [symmetric] s1_def [symmetric] ask_def [symmetric]
    using 3 by (metis fst_conv)
qed

text \<open>C15: the watermark: \<open>GetLastSuccessfulRunTime\<close> on SQLite returns the finishing time of some
  completed run, and no completed run finished a second or more after it; with no completed run
  it returns nil.  It never fails on a well-formed database unless the driver does.\<close>

theorem sqlite_watermark:
  assumes "sqlite_wf s" and "io_fault io 0 = None"
  shows "\<exists>t. sqlite_last_success legacy io s = (Inr t, s) \<and>
    (case t of None \<Rightarrow> sqlite_completed s = {}
     | Some t \<Rightarrow> t \<in> sqlite_completed s \<and> (\<forall>u \<in> sqlite_completed s. u < t + second_ns))"
  using assms by (rule sqlite_last_total)

theorem sqlite_watermark_witness:
  "\<exists>t. sqlite_last_success (\<lambda>_. None) (quiet_io 5) empty_db = (Inr t, empty_db) \<and>
    (case t of None \<Rightarrow> sqlite_completed empty_db = {}
     | Some t \<Rightarrow> t \<in> sqlite_completed empty_db \<and> (\<forall>u \<in> sqlite_completed empty_db. u < t + second_ns))"
  by (rule sqlite_watermark) (simp_all add: empty_stores quiet_io_def)

section \<open>Summaries\<close>

definition positive :: "counts \<Rightarrow> counts" where
  "positive cs = filter (\<lambda>(k, n). 0 < n) cs"

lemma insert_counts_ok:
  "insert_counts io tname i run cs t = Inr (j, t') \<Longrightarrow>
     t' = t @ map (\<lambda>(k, n). (run, k, n)) (positive cs)"
proof (induction io tname i run cs t rule: insert_counts.induct)
  case (2 io tname i run k n cs t)
  then show ?case
    by (cases "n \<le> 0") (auto simp: positive_def split: option.splits if_splits)
qed (simp add: positive_def)

lemma replace_counts_ok:
  assumes "replace_counts io tname i run cs t = Inr (j, t')"
  shows "load_counts r t' = (if r = run then positive cs else load_counts r t)"
proof -
  have t': "t' = filter (\<lambda>(r, _). r \<noteq> run) t @ map (\<lambda>(k, n). (run, k, n)) (positive cs)"
    using assms insert_counts_ok by (auto simp: replace_counts_def split: option.splits)
  have "load_counts r (filter (\<lambda>(r, _). r \<noteq> run) t) = (if r = run then [] else load_counts r t)"
    by (induction t) (auto simp: load_counts_def)
  moreover have "load_counts r (map (\<lambda>(k, n). (run, k, n)) xs) = (if r = run then xs else [])" for xs
    by (induction xs) (auto simp: load_counts_def)
  moreover have "load_counts r (a @ b) = load_counts r a @ load_counts r b" for a b
    by (simp add: load_counts_def)
  ultimately show ?thesis by (simp add: t')
qed


section \<open>The previous summary of an in-memory run\<close>

text \<open>\<open>NoopStore.GetPreviousRunDigestSummary\<close> finds nothing while the asking run is still in
  progress: the branch that was meant to take the current time as the bound is unreachable,
  because a run without a finishing time counts as not found.\<close>

theorem noop_previous_in_progress:
  assumes "find (\<lambda>r. run_id r = i) (ns_runs s) = Some r" and "run_finished r = None"
  shows "noop_previous_summary io i s = (Inr None, s)"
  using assms by (simp add: noop_previous_summary_def)

theorem noop_previous_in_progress_witness:
  "let r = \<lparr>run_id = ''now'', run_started = 7, run_finished = None, run_state = RunRunning,
        run_count = 0, run_error = []\<rparr>;
       s = new_noop_store\<lparr>ns_runs := [finished_run 5 RunCompleted 0 [] (r\<lparr>run_id := ''old''\<rparr>), r]\<rparr>
   in noop_previous_summary (quiet_io 9) ''now'' s = (Inr None, s)"
  unfolding Let_def by (rule noop_previous_in_progress) (simp add: finished_run_def)+

end
