(* ===== verification/RunStore.thy ===== *)
theory RunStore
  imports Pipeline StoreProps
begin

text \<open>
  What a run does to the store, proved once for every implementation of the \<open>store\<close> contract: the
  steps up to the digest leave it as it is, recording adds the messages and flags of the run, and
  the finishing time of a run counts as completed only for the status that says so.
\<close>

section \<open>How a run changes the store\<close>

text \<open>From \<open>s\<close> to \<open>s'\<close> only keys of \<open>K\<close>, flags of \<open>F\<close> and finishing times of \<open>C\<close> were added.\<close>

definition evolves ::
  "('s \<Rightarrow> bool) \<Rightarrow> ('s \<Rightarrow> message_key set) \<Rightarrow> ('s \<Rightarrow> (message_key \<times> string) set) \<Rightarrow> ('s \<Rightarrow> time set)
   \<Rightarrow> message_key set \<Rightarrow> (message_key \<times> string) set \<Rightarrow> time set \<Rightarrow> 's \<Rightarrow> 's \<Rightarrow> bool" where
  "evolves ok known flagged completed K F C s s' \<longleftrightarrow>
     ok s' \<and> known s \<subseteq> known s' \<and> known s' \<subseteq> known s \<union> K
     \<and> flagged s \<subseteq> flagged s' \<and> flagged s' \<subseteq> flagged s \<union> F \<and> completed s' \<subseteq> completed s \<union> C"

lemma evolves_refl: "ok s \<Longrightarrow> evolves ok known flagged completed K F C s s"
  by (simp add: evolves_def)

lemma evolves_trans:
  "evolves ok known flagged completed K F C s s' \<Longrightarrow> evolves ok known flagged completed K F C s' s''
     \<Longrightarrow> evolves ok known flagged completed K F C s s''"
  by (auto simp: evolves_def)

lemma evolves_mono:
  "evolves ok known flagged completed K F C s s' \<Longrightarrow> K \<subseteq> K' \<Longrightarrow> F \<subseteq> F' \<Longrightarrow> C \<subseteq> C'
     \<Longrightarrow> evolves ok known flagged completed K' F' C' s s'"
  by (auto simp: evolves_def)

lemma evolves_wf: "evolves ok known flagged completed K F C s s' \<Longrightarrow> ok s'"
  by (simp add: evolves_def)

named_theorems same_store \<open>parts of a run that leave the store as it is\<close>

lemma now_store [same_store]: "w_store (snd (now env w)) = w_store w"
  and ext_store [same_store]: "w_store (snd (with_ext f w)) = w_store w"
  by (simp_all add: now_def with_ext_def split: prod.split)

lemma apply_groups_store [same_store]: "w_store (apply_groups env gs w) = w_store w"
  by (induction env gs w rule: apply_groups.induct) (simp_all add: same_store split: option.split)

lemma apply_flags_store [same_store]: "w_store (apply_classification_flags env cs w) = w_store w"
  by (simp add: apply_classification_flags_def Let_def same_store)

context store
begin

lemma with_store_state:
  assumes "\<And>io r s'. f (pn_store env) io (w_store w) = (r, s') \<Longrightarrow> s' = w_store w"
  shows "w_store (snd (with_store env f w)) = w_store w"
  using assms by (simp add: with_store_def split: prod.split)

lemma fetch_window_store: "pn_store env = ops \<Longrightarrow> w_store (snd (fetch_window env opts w)) = w_store w"
proof -
  assume ops: "pn_store env = ops"
  obtain r w1 where q: "with_store env so_last_success w = (r, w1)" by fastforce
  have "w_store w1 = w_store w"
    using with_store_state [of so_last_success env w] last_state by (simp add: ops q)
  then show ?thesis
    using now_store [of env w] now_store [of env w1]
    by (cases "ro_window opts"; cases r) (simp_all add: fetch_window_def q now_def Let_def)
qed

lemma filter_processed_store: "pn_store env = ops \<Longrightarrow> w_store (snd (filter_processed env ms w)) = w_store w"
proof -
  assume ops: "pn_store env = ops"
  obtain r w1 where q: "with_store env (\<lambda>ops io. so_already_processed ops io (map store_key ms)) w = (r, w1)" by fastforce
  have "w_store w1 = w_store w"
    using with_store_state [of "\<lambda>ops io. so_already_processed ops io (map store_key ms)" env w] processed_state
    by (simp add: ops q)
  then show ?thesis by (cases r) (simp_all add: filter_processed_def q)
qed

lemma build_highlights_store: "pn_store env = ops \<Longrightarrow> w_store (snd (build_highlights env run g as senders w)) = w_store w"
proof -
  assume ops: "pn_store env = ops"
  obtain r w1 where q: "with_store env (\<lambda>ops io. so_previous_summary ops io run) w = (r, w1)" by fastforce
  have "w_store w1 = w_store w"
    using with_store_state [of "\<lambda>ops io. so_previous_summary ops io run" env w] previous_state by (simp add: ops q)
  then show ?thesis by (auto simp: build_highlights_def q Let_def split: sum.split option.split)
qed

lemma digest_of_store:
  "pn_store env = ops \<Longrightarrow> w_store (snd (digest_of env run ms es cs rs errs n pa w)) = w_store w"
proof -
  assume ops: "pn_store env = ops"
  have h: "w_store w1 = w_store w" if "build_highlights env run g as senders w = (h, w1)" for g as senders h w1
    using build_highlights_store [OF ops, of run g as senders w] that by simp
  show ?thesis by (auto simp: digest_of_def Let_def now_def split: prod.split dest: h)
qed

lemma build_digest_store:
  "pn_store env = ops \<Longrightarrow> w_store (snd (build_digest_data_partial env run ms out rs errs w)) = w_store w"
  by (simp add: build_digest_data_partial_def Let_def digest_of_store)

lemma finish_run_evolves:
  assumes "pn_store env = ops" and "wf (w_store w)" and "\<And>i. storable (io_now (pn_io env i))"
    and "st \<in> set named_statuses"
  shows "evolves wf known flagged completed {} {} (if st = RunCompleted then range (io_now \<circ> pn_io env) else {})
    (w_store w) (w_store (finish_run env run st n e w))"
proof -
  obtain r s' where f: "so_finish_run ops (pn_io env (w_ticks w)) run st (int n) e (w_store w) = (r, s')" by fastforce
  show ?thesis
    using finish_ok [OF f assms(2,3,4)]
    by (auto simp: finish_run_def with_store_def assms(1) f evolves_def split: if_splits)
qed

lemma record_digest_evolves:
  assumes "pn_store env = ops" and "wf (w_store w)"
  shows "evolves wf known flagged completed {} {} {} (w_store w)
    (w_store (snd (with_store env (\<lambda>ops io. so_record_digest ops io d) w)))"
proof -
  obtain r s' where f: "so_record_digest ops (pn_io env (w_ticks w)) d (w_store w) = (r, s')" by fastforce
  show ?thesis using digest_ok [OF f assms(2)] by (simp add: with_store_def assms(1) f evolves_def)
qed

lemma record_message_evolves:
  assumes "pn_store env = ops" and "wf (w_store w)" and "pm_key m \<in> K"
  shows "evolves wf known flagged completed K {} {} (w_store w)
    (w_store (snd (with_store env (\<lambda>ops io. so_record_message ops io m) w)))"
proof -
  obtain r s' where f: "so_record_message ops (pn_io env (w_ticks w)) m (w_store w) = (r, s')" by fastforce
  show ?thesis
  proof (cases r)
    case (Inl x)
    then have "s' = w_store w" using message_fail f by simp
    then show ?thesis using f assms by (simp add: with_store_def evolves_refl)
  next
    case (Inr x)
    then show ?thesis using message_ok [of _ m "w_store w" x s'] f assms by (auto simp: with_store_def evolves_def)
  qed
qed

lemma record_flag_evolves:
  assumes "pn_store env = ops" and "wf (w_store w)" and "flag_id f \<in> F"
  shows "evolves wf known flagged completed {} F {} (w_store w)
    (w_store (snd (with_store env (\<lambda>ops io. so_record_flag ops io f) w)))"
proof -
  obtain r s' where f: "so_record_flag ops (pn_io env (w_ticks w)) f (w_store w) = (r, s')" by fastforce
  show ?thesis
  proof (cases r)
    case (Inl x)
    then have "s' = w_store w" using flag_fail f by simp
    then show ?thesis using f assms by (simp add: with_store_def evolves_refl)
  next
    case (Inr x)
    then show ?thesis using flag_ok [of _ _ "w_store w" x s'] f assms by (auto simp: with_store_def evolves_def)
  qed
qed

lemma record_processed_evolves:
  assumes "pn_store env = ops" and "wf (w_store w)"
  shows "evolves wf known flagged completed {msg_key m | m. m \<in> set ms \<and> classes (msg_key m) \<noteq> None} {} {}
    (w_store w) (w_store (record_processed env run classes ms w))"
  using assms(2)
proof (induction ms arbitrary: w)
  case (Cons m ms)
  show ?case
  proof (cases "classes (msg_key m)")
    case None
    then show ?thesis using Cons by (auto intro: evolves_mono)
  next
    case (Some c)
    obtain t w1 where t: "now env w = (t, w1)" by fastforce
    define pm where "pm = \<lparr>pm_run = run, pm_account = msg_account m, pm_uid = msg_uid m, pm_is_read = msg_is_read m,
       pm_label = cl_label c, pm_excerpt = truncate_excerpt (msg_body m) (excerpt_limit (pn_cfg env)), pm_at = t\<rparr>"
    define w2 where "w2 = snd (with_store env (\<lambda>ops io. so_record_message ops io pm) w1)"
    have w1: "w_store w1 = w_store w" using now_store [of env w] t by simp
    have key: "pm_key pm = msg_key m" by (simp add: pm_def pm_key_def msg_key_def)
    have s1: "evolves wf known flagged completed {msg_key m} {} {} (w_store w) (w_store w2)"
      using record_message_evolves [of env w1 pm "{msg_key m}"] assms(1) Cons.prems w1 key by (simp add: w2_def)
    have "record_processed env run classes (m # ms) w = record_processed env run classes ms w2"
      by (simp add: Some t pm_def w2_def)
    then show ?thesis
      using Some
      by simp (rule evolves_trans [OF evolves_mono [OF s1] evolves_mono [OF Cons.IH [OF evolves_wf [OF s1]]]]; auto)
  qed
qed (simp add: evolves_refl)

lemma record_flags_evolves:
  assumes "pn_store env = ops" and "wf (w_store w)"
  shows "evolves wf known flagged completed {} {(cl_key c, fl_keyword (classification_to_flag c (cfg_labels (pn_cfg env)))) | c. c \<in> set cs} {}
    (w_store w) (w_store (record_flags env cs w))"
  using assms(2)
proof (induction cs arbitrary: w)
  case (Cons c cs)
  let ?k = "fl_keyword (classification_to_flag c (cfg_labels (pn_cfg env)))"
  show ?case
  proof (cases "?k = []")
    case True
    then show ?thesis using Cons by (auto simp: Let_def intro: evolves_mono)
  next
    case False
    obtain t w1 where t: "now env w = (t, w1)" by fastforce
    define fr where "fr = \<lparr>fr_account = mk_account (cl_key c), fr_uid = mk_uid (cl_key c), fr_flag = ?k, fr_at = t\<rparr>"
    define w2 where "w2 = snd (with_store env (\<lambda>ops io. so_record_flag ops io fr) w1)"
    have w1: "w_store w1 = w_store w" using now_store [of env w] t by simp
    have key: "flag_id fr = (cl_key c, ?k)" by (simp add: fr_def flag_id_def fr_key_def)
    have s1: "evolves wf known flagged completed {} {(cl_key c, ?k)} {} (w_store w) (w_store w2)"
      using record_flag_evolves [of env w1 fr "{(cl_key c, ?k)}"] assms(1) Cons.prems w1 key by (simp add: w2_def)
    have eq: "record_flags env (c # cs) w = record_flags env cs w2"
      using False by (simp add: t fr_def w2_def Let_def)
    show ?thesis
      unfolding eq
      by (rule evolves_trans [OF evolves_mono [OF s1] evolves_mono [OF Cons.IH [OF evolves_wf [OF s1]]]]) auto
  qed
qed (simp add: evolves_refl)

lemma act_evolves:
  assumes ops: "pn_store env = ops" and wf: "wf (w_store w)" and sto: "\<And>i. storable (io_now (pn_io env i))"
    and res: "act env opts r ms out rendered w = (r', w')"
  shows "evolves wf known flagged completed (if ro_stateless opts then {} else UNIV) (if ro_stateless opts then {} else UNIV)
      (if res_status r' = RunCompleted then range (io_now \<circ> pn_io env) else {}) (w_store w) (w_store w')"
proof -
  define w1 where "w1 = (if \<not> ro_dry_run opts \<and> co_err out = None then apply_classification_flags env (co_valid out) w else w)"
  define D where "D st w = snd (with_store env (\<lambda>ops io. so_record_digest ops io
      \<lparr>dr_run = res_run r, dr_channel = pn_channel env, dr_status = st, dr_hash = pn_hash env rendered\<rparr>) w)" for st w
  obtain e w2 where send: "(if ro_dry_run opts then (None, w1) else with_ext (pn_send env rendered) w1) = (e, w2)"
    by fastforce
  have "w_store w1 = w_store w" by (simp add: w1_def same_store)
  then have w2: "w_store w2 = w_store w"
    using send ext_store [of "pn_send env rendered" w1] by (auto split: if_splits)
  have D: "evolves wf known flagged completed {} {} {} (w_store u) (w_store (D st u))" if "wf (w_store u)" for st u
    using record_digest_evolves [OF ops that] by (simp add: D_def)
  note act = res [unfolded act_def Let_def, folded D_def w1_def, unfolded send prod.case]
  show ?thesis
  proof (cases e)
    case (Some x)
    then have r': "res_status r' = RunDegraded" "w' = finish_run env (res_run r) RunDegraded (length ms) (Some x) (D DigestFailed w2)"
      using act by auto
    have d: "evolves wf known flagged completed {} {} {} (w_store w) (w_store (D DigestFailed w2))"
      using D [of w2] wf w2 by simp
    have "evolves wf known flagged completed {} {} {} (w_store (D DigestFailed w2)) (w_store w')"
      using finish_run_evolves [OF ops evolves_wf [OF d] sto, of RunDegraded] by (simp add: r' named_statuses_def)
    from evolves_trans [OF d this] show ?thesis by (rule evolves_mono) auto
  next
    case None
    define w3 where "w3 = (if ro_dry_run opts then w2 else D DigestSent w2)"
    define w4 where "w4 = (if \<not> ro_stateless opts \<and> co_err out = None
        then record_flags env (co_valid out) (record_processed env (res_run r) (index_by cl_key (co_valid out)) ms w3) else w3)"
    let ?KF = "if ro_stateless opts then {} else UNIV :: message_key set"
    let ?F = "if ro_stateless opts then {} else UNIV :: (message_key \<times> string) set"
    have e3: "evolves wf known flagged completed {} {} {} (w_store w) (w_store w3)"
      using D [of w2] wf w2 by (auto simp: w3_def intro: evolves_refl)
    have e4: "evolves wf known flagged completed ?KF ?F {} (w_store w3) (w_store w4)"
    proof (cases "\<not> ro_stateless opts \<and> co_err out = None")
      case True
      note p = record_processed_evolves [OF ops evolves_wf [OF e3], of ms "index_by cl_key (co_valid out)" "res_run r"]
      note f = record_flags_evolves [OF ops evolves_wf [OF p], of "co_valid out"]
      show ?thesis using True evolves_trans [OF evolves_mono [OF p] evolves_mono [OF f]] by (simp add: w4_def)
    qed (auto simp: w4_def intro: evolves_refl evolves_wf [OF e3])
    have r': "res_status r' = final_status (res_status r) (res_analysis_failed r)"
      "w' = finish_run env (res_run r) (res_status r') (length ms) None w4"
      using act None by (auto simp: w3_def w4_def)
    have "res_status r' \<in> set named_statuses" by (auto simp: r'(1) final_status_def named_statuses_def)
    then have "evolves wf known flagged completed {} {} (if res_status r' = RunCompleted then range (io_now \<circ> pn_io env) else {})
        (w_store w4) (w_store w')"
      using finish_run_evolves [OF ops evolves_wf [OF e4] sto] r'(2) by simp
    then show ?thesis
      by (intro evolves_trans [OF evolves_mono [OF e3] evolves_trans [OF evolves_mono [OF e4] evolves_mono]]) auto
  qed
qed

lemma reason_evolves:
  assumes ops: "pn_store env = ops" and wf: "wf (w_store w)" and sto: "\<And>i. storable (io_now (pn_io env i))"
    and res: "reason env opts r ms results errors w = (r', w')"
  shows "evolves wf known flagged completed (if ro_stateless opts then {} else UNIV) (if ro_stateless opts then {} else UNIV)
      (if res_status r' = RunCompleted then range (io_now \<circ> pn_io env) else {}) (w_store w) (w_store w')"
proof -
  obtain out w1 where c: "with_ext (classify_with_partial_fallback (pn_classify env) (pn_decode env) (pn_cfg env)
      (build_request (pn_cfg env) ms)) w = (out, w1)" by fastforce
  obtain d w2 where b: "build_digest_data_partial env (res_run r) ms out results errors w1 = (d, w2)" by fastforce
  have w2: "w_store w2 = w_store w"
    using ext_store [of "classify_with_partial_fallback (pn_classify env) (pn_decode env) (pn_cfg env)
      (build_request (pn_cfg env) ms)" w] build_digest_store [OF ops, of "res_run r" ms out results errors w1]
    by (simp add: c b)
  note reason = res [unfolded reason_def c b prod.case Let_def]
  show ?thesis
  proof (cases "if co_err out = None \<and> co_valid out \<noteq> [] then pn_render env d else pn_fallback env d")
    case (Inl e)
    then have r': "res_status r' = RunDegraded" "w' = finish_run env (res_run r) RunDegraded (length ms) (Some e) w2"
      using reason by auto
    then have "evolves wf known flagged completed {} {} {} (w_store w) (w_store w')"
      using finish_run_evolves [OF ops, of w2 RunDegraded "res_run r" "length ms" "Some e"] wf w2 sto by (simp add: named_statuses_def)
    then show ?thesis by (rule evolves_mono) auto
  next
    case (Inr rendered)
    then show ?thesis using reason act_evolves [OF ops _ sto, of w2] wf w2 by simp
  qed
qed

lemma failed_evolves:
  assumes ops: "pn_store env = ops" and wf: "wf (w_store w)" and sto: "\<And>i. storable (io_now (pn_io env i))"
  shows "evolves wf known flagged completed K F C (w_store w) (w_store (finish_run env run RunIngestFailed n e w))"
  using finish_run_evolves [OF assms, of RunIngestFailed] by (auto simp: named_statuses_def intro: evolves_mono)

lemma after_fetch_evolves:
  assumes ops: "pn_store env = ops" and wf: "wf (w_store w)" and sto: "\<And>i. storable (io_now (pn_io env i))"
    and res: "after_fetch env opts run results w = (r', w')"
  shows "evolves wf known flagged completed (if ro_stateless opts then {} else UNIV) (if ro_stateless opts then {} else UNIV)
      (if res_status r' = RunCompleted then range (io_now \<circ> pn_io env) else {}) (w_store w) (w_store w')"
proof (cases "error_list results \<noteq> [] \<and> flatten_messages results = []")
  case True
  then show ?thesis using res failed_evolves [OF ops wf sto] by (auto simp: after_fetch_def Let_def)
next
  case False
  obtain ms w1 where m: "(if \<not> ro_force opts \<and> flatten_messages results \<noteq> []
      then filter_processed env (flatten_messages results) w else (flatten_messages results, w)) = (ms, w1)" by fastforce
  have w1: "w_store w1 = w_store w"
    using m filter_processed_store [OF ops, of "flatten_messages results" w] by (auto split: if_splits)
  have wf1: "wf (w_store w1)" using wf w1 by simp
  note run = res [unfolded after_fetch_def Let_def m prod.case]
  show ?thesis
  proof (cases "ms = []")
    case True
    then have "res_status r' = RunCompleted" "w' = finish_run env run RunCompleted 0 None w1"
      using run False by (auto split: if_splits)
    then show ?thesis
      using finish_run_evolves [OF ops wf1 sto, of RunCompleted run 0 None] w1
      by (auto simp: named_statuses_def intro: evolves_mono)
  next
    case more: False
    then obtain r1 where "reason env opts r1 ms results (error_list results) w1 = (r', w')"
      using run False by (auto split: if_splits)
    from reason_evolves [OF ops wf1 sto this] show ?thesis using w1 by simp
  qed
qed

lemma after_record_evolves:
  assumes ops: "pn_store env = ops" and wf: "wf (w_store w)" and sto: "\<And>i. storable (io_now (pn_io env i))"
    and res: "after_record env opts run w = (r', w')"
  shows "evolves wf known flagged completed (if ro_stateless opts then {} else UNIV) (if ro_stateless opts then {} else UNIV)
      (if res_status r' = RunCompleted then range (io_now \<circ> pn_io env) else {}) (w_store w) (w_store w')"
proof -
  obtain fw w1 where fw: "fetch_window env opts w = (fw, w1)" by fastforce
  have w1: "w_store w1 = w_store w" using fetch_window_store [OF ops, of opts w] fw by simp
  have wf1: "wf (w_store w1)" using wf w1 by simp
  show ?thesis
  proof (cases fw)
    case (Inl e)
    then show ?thesis using res failed_evolves [OF ops wf1 sto] w1 by (auto simp: after_record_def fw)
  next
    case (Inr since)
    obtain results w2 where f: "with_ext (pn_fetch_all env (imap_accounts (cfg_imap (pn_cfg env)))
        (fetch_options_of (pn_cfg env) since) (cc_max_accounts (cfg_concurrency (pn_cfg env)))) w1 = (results, w2)"
      by fastforce
    then have w2: "w_store w2 = w_store w" using ext_store [of _ w1] w1 by (metis snd_conv)
    have "after_fetch env opts run results w2 = (r', w')" using res by (simp add: after_record_def fw Inr f)
    from after_fetch_evolves [OF ops _ sto this] show ?thesis using wf w2 by simp
  qed
qed

lemma run_evolves:
  assumes ops: "pn_store env = ops" and wf: "wf (w_store w)" and sto: "\<And>i. storable (io_now (pn_io env i))"
    and res: "run_pipeline env opts w = (r', w')"
  shows "evolves wf known flagged completed (if ro_stateless opts then {} else UNIV) (if ro_stateless opts then {} else UNIV)
      (if res_status r' = RunCompleted then range (io_now \<circ> pn_io env) else {}) (w_store w) (w_store w')"
proof -
  let ?io = "pn_io env (Suc (w_ticks w))"
  let ?new = "\<lparr>run_id = [], run_started = io_now (pn_io env (w_ticks w)), run_finished = None,
    run_state = RunRunning, run_count = 0, run_error = []\<rparr>"
  obtain rr s2 where rr: "so_record_run ops ?io ?new (w_store w) = (rr, s2)" by fastforce
  define w2 where "w2 = w\<lparr>w_store := s2, w_ticks := Suc (Suc (w_ticks w))\<rparr>"
  have run: "(case rr of Inl e \<Rightarrow> (ingest_failed [] 0 (Wrap ''orchestrator.record_run: '' e), w2)
      | Inr r \<Rightarrow> after_record env opts (run_id r) w2) = (r', w')"
    using res rr by (cases rr) (simp_all add: run_pipeline_def now_def with_store_def ops w2_def)
  show ?thesis
  proof (cases rr)
    case (Inl e)
    then have "s2 = w_store w" using run_fail rr by simp
    then show ?thesis using run Inl wf by (auto simp: w2_def intro: evolves_refl)
  next
    case (Inr r)
    have e2: "evolves wf known flagged completed {} {} {} (w_store w) (w_store w2)"
      using run_ok [OF rr [unfolded Inr] wf] sto by (simp add: w2_def evolves_def)
    from run Inr have "after_record env opts (run_id r) w2 = (r', w')" by simp
    from after_record_evolves [OF ops evolves_wf [OF e2] sto this] e2 show ?thesis
      by (intro evolves_trans [OF evolves_mono [OF e2]]) auto
  qed
qed

text \<open>What is recorded is filtered by the next run, when the store answers.\<close>

lemma record_processed_known:
  assumes ops: "pn_store env = ops" and wf: "wf (w_store w)"
    and up: "\<And>i m s. \<not> isl (fst (so_record_message ops (pn_io env i) m s))"
    and "m \<in> set ms" and "classes (msg_key m) \<noteq> None"
  shows "msg_key m \<in> known (w_store (record_processed env run classes ms w))"
  using wf assms(4)
proof (induction ms arbitrary: w)
  case (Cons a ms)
  show ?case
  proof (cases "classes (msg_key a)")
    case None
    then show ?thesis using Cons assms(5) by auto
  next
    case (Some c)
    obtain t w1 where t: "now env w = (t, w1)" by fastforce
    define pm where "pm = \<lparr>pm_run = run, pm_account = msg_account a, pm_uid = msg_uid a, pm_is_read = msg_is_read a,
       pm_label = cl_label c, pm_excerpt = truncate_excerpt (msg_body a) (excerpt_limit (pn_cfg env)), pm_at = t\<rparr>"
    define w2 where "w2 = snd (with_store env (\<lambda>ops io. so_record_message ops io pm) w1)"
    obtain r s' where f: "so_record_message ops (pn_io env (w_ticks w1)) pm (w_store w1) = (r, s')" by fastforce
    have "\<not> isl r" using up [of "w_ticks w1" pm "w_store w1"] f by simp
    then obtain u where r: "r = Inr u" by (cases r) auto
    have w2s: "w_store w2 = s'" by (simp add: w2_def with_store_def ops f)
    have w1: "w_store w1 = w_store w" using now_store [of env w] t by simp
    have key: "pm_key pm = msg_key a" by (simp add: pm_def pm_key_def msg_key_def)
    have w2: "wf (w_store w2)" "msg_key a \<in> known (w_store w2)"
      using message_ok [OF f [unfolded r]] Cons.prems(1) w1 key by (simp_all add: w2s)
    have eq: "record_processed env run classes (a # ms) w = record_processed env run classes ms w2"
      by (simp add: Some t pm_def w2_def)
    have "known (w_store w2) \<subseteq> known (w_store (record_processed env run classes ms w2))"
      using record_processed_evolves [OF ops w2(1)] by (simp add: evolves_def)
    then show ?thesis
      unfolding eq using w2 Cons.IH [OF w2(1)] Cons.prems(2) by auto
  qed
qed simp

lemma filter_processed_answer:
  assumes ops: "pn_store env = ops" and wf: "wf (w_store w)"
    and up: "\<not> isl (fst (so_already_processed ops (pn_io env (w_ticks w)) (map store_key ms) (w_store w)))"
  shows "fst (filter_processed env ms w) = filter (\<lambda>m. msg_key m \<notin> known (w_store w)) ms"
proof -
  obtain r s' where f: "so_already_processed ops (pn_io env (w_ticks w)) (map store_key ms) (w_store w) = (r, s')"
    by fastforce
  with up obtain K where r: "r = Inr K" by (cases r) auto
  have keys: "map store_key ms = map msg_key ms" by (simp add: store_key_def msg_key_def)
  have K: "K = msg_key ` set ms \<inter> known (w_store w)" using processed_ok [OF f [unfolded r] wf] keys by simp
  define g where "g = (\<lambda>k. if k \<in> K then Some True else None)"
  have "filter_already_processed ms g = filter (\<lambda>m. msg_key m \<notin> known (w_store w)) ms" if ne: "K \<noteq> {}"
  proof -
    obtain k where "k \<in> K" using ne by blast
    then have "g \<noteq> Map.empty" by (auto simp: g_def fun_eq_iff)
    then show ?thesis by (auto simp: filter_already_processed_def g_def K intro: filter_cong)
  qed
  moreover have "filter (\<lambda>m. msg_key m \<notin> known (w_store w)) ms = ms" if "K = {}"
    using that K by (auto simp: filter_id_conv)
  ultimately show ?thesis by (simp add: filter_processed_def with_store_def ops f r g_def)
qed

lemma act_send_fails:
  assumes ops: "pn_store env = ops" and wf: "wf (w_store w)" and sto: "\<And>i. storable (io_now (pn_io env i))"
    and "\<not> ro_dry_run opts" and fails: "\<And>x. fst (pn_send env rendered x) = Some e"
  shows "res_status (fst (act env opts r ms out rendered w)) = RunDegraded
    \<and> res_err (fst (act env opts r ms out rendered w)) = Some e
    \<and> evolves wf known flagged completed {} {} {} (w_store w) (w_store (snd (act env opts r ms out rendered w)))"
proof -
  define w1 where "w1 = (if co_err out = None then apply_classification_flags env (co_valid out) w else w)"
  obtain x w2 where send: "with_ext (pn_send env rendered) w1 = (x, w2)" by fastforce
  have x: "x = Some e" using send fails [of "w_ext w1"] by (auto simp: with_ext_def split: prod.splits)
  have w2: "w_store w2 = w_store w"
    using send ext_store [of "pn_send env rendered" w1] by (simp add: w1_def apply_flags_store split: if_splits)
  define w3 where "w3 = snd (with_store env (\<lambda>ops io. so_record_digest ops io
      \<lparr>dr_run = res_run r, dr_channel = pn_channel env, dr_status = DigestFailed, dr_hash = pn_hash env rendered\<rparr>) w2)"
  have run: "act env opts r ms out rendered w
      = (r\<lparr>res_status := RunDegraded, res_err := Some e\<rparr>, finish_run env (res_run r) RunDegraded (length ms) (Some e) w3)"
    using assms(4) send by (simp add: act_def Let_def x w3_def flip: w1_def)
  have e3: "evolves wf known flagged completed {} {} {} (w_store w) (w_store w3)"
    using record_digest_evolves [OF ops, of w2] wf w2 by (simp add: w3_def)
  have "evolves wf known flagged completed {} {} {} (w_store w3) (w_store (snd (act env opts r ms out rendered w)))"
    using finish_run_evolves [OF ops evolves_wf [OF e3] sto, of RunDegraded] by (simp add: run named_statuses_def)
  from evolves_trans [OF e3 this] show ?thesis by (simp add: run)
qed

lemma act_known:
  assumes ops: "pn_store env = ops" and wf: "wf (w_store w)" and sto: "\<And>i. storable (io_now (pn_io env i))"
    and up: "\<And>i m s. \<not> isl (fst (so_record_message ops (pn_io env i) m s))"
    and res: "act env opts r ms out rendered w = (r', w')" and ok: "res_err r = None" "res_err r' = None"
    and "\<not> ro_stateless opts" and "co_err out = None" and "m \<in> set ms"
    and "index_by cl_key (co_valid out) (msg_key m) \<noteq> None"
  shows "msg_key m \<in> known (w_store w')"
proof -
  define w1 where "w1 = (if \<not> ro_dry_run opts \<and> co_err out = None then apply_classification_flags env (co_valid out) w else w)"
  define D where "D st w = snd (with_store env (\<lambda>ops io. so_record_digest ops io
      \<lparr>dr_run = res_run r, dr_channel = pn_channel env, dr_status = st, dr_hash = pn_hash env rendered\<rparr>) w)" for st w
  obtain e w2 where send: "(if ro_dry_run opts then (None, w1) else with_ext (pn_send env rendered) w1) = (e, w2)"
    by fastforce
  have w1s: "w_store w1 = w_store w" by (simp add: w1_def apply_flags_store)
  then have w2: "w_store w2 = w_store w"
    using send ext_store [of "pn_send env rendered" w1] by (auto split: if_splits)
  note act = res [unfolded act_def Let_def, folded D_def w1_def, unfolded send prod.case]
  have e: "e = None" using act ok by (cases e) auto
  define w3 where "w3 = (if ro_dry_run opts then w2 else D DigestSent w2)"
  have wf3: "wf (w_store w3)"
    using evolves_wf [OF record_digest_evolves [OF ops, of w2]] wf w2 by (auto simp: w3_def D_def)
  define w4 where "w4 = record_processed env (res_run r) (index_by cl_key (co_valid out)) ms w3"
  define w5 where "w5 = record_flags env (co_valid out) w4"
  have k4: "wf (w_store w4)" "msg_key m \<in> known (w_store w4)"
    using evolves_wf [OF record_processed_evolves [OF ops wf3]] record_processed_known [OF ops wf3 up] assms(10,11)
    by (simp_all add: w4_def)
  have k5: "wf (w_store w5)" "msg_key m \<in> known (w_store w5)"
    using record_flags_evolves [OF ops k4(1), of "co_valid out"] k4(2) by (auto simp: w5_def evolves_def)
  have w': "w' = finish_run env (res_run r) (final_status (res_status r) (res_analysis_failed r)) (length ms) None w5"
    using act assms(8,9) by (auto simp: e w3_def w4_def w5_def)
  have "final_status (res_status r) (res_analysis_failed r) \<in> set named_statuses"
    by (auto simp: final_status_def named_statuses_def)
  from finish_run_evolves [OF ops k5(1) sto this, of "res_run r" "length ms" None] k5(2)
  show ?thesis unfolding w' evolves_def by blast
qed

end
end
