(* ===== verification/PipelineProps.thy ===== *)
theory PipelineProps
  imports RunStore
begin

text \<open>
  What a run of \<open>orchestrator.go\<close> guarantees as a whole: its result and status, that a dry run has no
  outside effect, that at most one digest is sent, what is kept in the store, what the next run
  fetches and filters, and two ways in which a failed account is reported wrongly.
\<close>

section \<open>An example\<close>

definition demo_mail :: "string \<Rightarrow> uid \<Rightarrow> message" where
  "demo_mail account uid =
     \<lparr>msg_account = account, msg_uid = uid, msg_folder = ''INBOX'', msg_subject = ''Hello'', msg_from = ''a@b'',
      msg_to = [], msg_date = 0, msg_body = ''text'', msg_attachments = [], msg_is_read = False\<rparr>"

definition demo_classes :: "message list \<Rightarrow> classification list" where
  "demo_classes ms = map (\<lambda>m. (failed_classification (msg_key m))\<lparr>cl_label := ''Ads''\<rparr>) ms"

definition demo_outcome :: "message list \<Rightarrow> classify_outcome" where
  "demo_outcome ms = \<lparr>co_valid = demo_classes ms, co_failed = [], co_errors = [], co_err = None\<rparr>"

text \<open>A world that counts the sent digests; the clock advances by a nanosecond per call.\<close>

definition demo_env :: "'s store_ops \<Rightarrow> err option \<Rightarrow> ('s, nat) pipeline_env" where
  "demo_env ops refusal =
     \<lparr>pn_store = ops, pn_io = (\<lambda>i. quiet_io (int (i mod 1000))), pn_fetch_all = (\<lambda>_ _ _ n. ([], n)), pn_has_ingester = (\<lambda>_. True),
      pn_apply_flags = (\<lambda>_ _ n. (None, n)), pn_classify = (\<lambda>_ n. ((empty_response, None), n)),
      pn_decode = (\<lambda>_. Inl (Err ''bad'')), pn_render = (\<lambda>_. Inr ''digest''), pn_fallback = (\<lambda>_. Inr ''digest''),
      pn_channel = ''telegram'', pn_send = (\<lambda>_ n. (refusal, Suc n)), pn_hash = id, pn_error_order = id,
      pn_group_order = id, pn_sender_order = id, pn_cfg = default_config\<rparr>"

definition quiet_world :: "'s \<Rightarrow> ('s, nat) world" where
  "quiet_world s = \<lparr>w_store = s, w_ticks = 0, w_ext = 0\<rparr>"

definition demo_run :: "bool \<Rightarrow> run_options" where
  "demo_run dry = \<lparr>ro_window = None, ro_force = False, ro_dry_run = dry, ro_stateless = False\<rparr>"

definition demo_result :: run_result where
  "demo_result = \<lparr>res_run = ''r1'', res_status = RunUnset, res_fetched = 1, res_classified = 1, res_failed = 0,
     res_analysis_failed = 0, res_err = None\<rparr>"

lemmas demo = demo_env_def quiet_world_def demo_run_def demo_result_def demo_outcome_def quiet_io_def

lemma demo_clock: "storable (io_now (pn_io (demo_env ops e) i))"
  by (simp add: demo storable_def max_time_def hour_ns_def second_ns_def)
section \<open>Status and result\<close>

definition final_statuses :: "run_status set" where
  "final_statuses = {RunCompleted, RunPartial, RunDegraded, RunPartiallyClassified, RunIngestFailed}"

text \<open>A result in order: a final status, and an error only with one of the two failing ones.\<close>

definition result_ok :: "run_result \<Rightarrow> bool" where
  "result_ok r \<longleftrightarrow> res_status r \<in> final_statuses
     \<and> (res_err r \<noteq> None \<longrightarrow> res_status r \<in> {RunIngestFailed, RunDegraded})
     \<and> (res_status r = RunCompleted \<longrightarrow> res_analysis_failed r = 0)"

lemma act_result:
  assumes "res_err r = None"
  shows "result_ok (fst (act env opts r ms out rendered w))"
  using assms
  by (auto simp: act_def Let_def result_ok_def final_statuses_def final_status_def split: prod.split option.split)

lemma reason_result:
  assumes "res_err r = None"
  shows "result_ok (fst (reason env opts r ms results errors w))"
proof -
  have "result_ok (fst (act env opts (r\<lparr>res_classified := a, res_failed := b, res_analysis_failed := c, res_status := d\<rparr>)
      ms out rendered w))" for a b c d out rendered w
    by (rule act_result) (simp add: assms)
  then show ?thesis
    by (auto simp: reason_def Let_def result_ok_def [of "_\<lparr>res_err := _\<rparr>"] final_statuses_def split: prod.split sum.split)
qed

lemma ingest_failed_result: "result_ok (ingest_failed run n e)"
  by (simp add: result_ok_def ingest_failed_def final_statuses_def)

lemma after_fetch_result: "result_ok (fst (after_fetch env opts run results w))"
  by (auto simp: after_fetch_def Let_def ingest_failed_result split: prod.split if_split intro!: reason_result)
    (simp_all add: result_ok_def final_statuses_def)

lemma run_result: "result_ok (fst (run_pipeline env opts w))"
proof -
  have "result_ok (fst (after_record env opts run w))" for run w
    by (auto simp: after_record_def ingest_failed_result after_fetch_result split: prod.split sum.split)
  then show ?thesis
    by (auto simp: run_pipeline_def ingest_failed_result split: prod.split sum.split)
qed

text \<open>C34: a run always ends in one of five statuses, carries an error only when it is degraded or its
  ingestion failed, and is completed only when no analysis failed.  In particular the status
  cancelled, for which the command line reserves an exit code, never occurs.\<close>

theorem run_result_ok:
  "result_ok (fst (run_pipeline env opts w)) \<and> res_status (fst (run_pipeline env opts w)) \<noteq> RunCancelled"
  using run_result [of env opts w] by (auto simp: result_ok_def final_statuses_def)

section \<open>Dry runs\<close>

definition with_effects ::
  "('s, 'w) pipeline_env \<Rightarrow> (string \<Rightarrow> 'w \<Rightarrow> err option \<times> 'w) \<Rightarrow> (imap_account \<Rightarrow> flag list \<Rightarrow> 'w \<Rightarrow> err option \<times> 'w)
   \<Rightarrow> ('s, 'w) pipeline_env" where
  "with_effects env send flags = env\<lparr>pn_send := send, pn_apply_flags := flags\<rparr>"

lemma with_effects_simps [simp]:
  "pn_store (with_effects env f g) = pn_store env" "pn_io (with_effects env f g) = pn_io env"
  "pn_cfg (with_effects env f g) = pn_cfg env" "pn_classify (with_effects env f g) = pn_classify env"
  "pn_decode (with_effects env f g) = pn_decode env" "pn_render (with_effects env f g) = pn_render env"
  "pn_fallback (with_effects env f g) = pn_fallback env" "pn_fetch_all (with_effects env f g) = pn_fetch_all env"
  "pn_error_order (with_effects env f g) = pn_error_order env" "pn_sender_order (with_effects env f g) = pn_sender_order env"
  "pn_channel (with_effects env f g) = pn_channel env" "pn_hash (with_effects env f g) = pn_hash env"
  by (simp_all add: with_effects_def)

lemma with_effects_steps [simp]:
  "now (with_effects env f g) = now env" "with_store (with_effects env f g) h = with_store env h"
  "finish_run (with_effects env f g) run st n e = finish_run env run st n e"
  "filter_processed (with_effects env f g) = filter_processed env"
  "fetch_window (with_effects env f g) = fetch_window env"
  "build_highlights (with_effects env f g) = build_highlights env"
  by (intro ext; simp add: now_def with_store_def finish_run_def filter_processed_def fetch_window_def
      build_highlights_def cong: prod.case_cong sum.case_cong option.case_cong)+

lemma with_effects_digest [simp]:
  "digest_of (with_effects env f g) = digest_of env"
  "build_digest_data_partial (with_effects env f g) = build_digest_data_partial env"
  by (intro ext; simp add: digest_of_def build_digest_data_partial_def)+

lemma with_effects_record [simp]:
  "record_processed (with_effects env f g) run classes ms w = record_processed env run classes ms w"
  "record_flags (with_effects env f g) cs w = record_flags env cs w"
proof -
  show "record_processed (with_effects env f g) run classes ms w = record_processed env run classes ms w"
    by (induction ms arbitrary: w) (simp_all split: option.split prod.split)
  show "record_flags (with_effects env f g) cs w = record_flags env cs w"
    by (induction cs arbitrary: w) (simp_all add: Let_def split: prod.split)
qed

text \<open>C5: a dry run neither sends anything nor writes a flag: its result and everything that it leaves
  behind are the same for every channel and every mailbox, whatever they would have done.\<close>

theorem dry_run_silent:
  assumes "ro_dry_run opts"
  shows "run_pipeline (with_effects env send flags) opts w = run_pipeline env opts w"
proof -
  have "act (with_effects env send flags) opts = act env opts"
    using assms by (intro ext) (simp add: act_def Let_def)
  then have "reason (with_effects env send flags) opts = reason env opts"
    by (intro ext) (simp add: reason_def Let_def cong: prod.case_cong sum.case_cong if_cong)
  then have "after_fetch (with_effects env send flags) opts = after_fetch env opts"
    by (intro ext) (simp add: after_fetch_def Let_def cong: prod.case_cong sum.case_cong if_cong)
  then have "after_record (with_effects env send flags) opts = after_record env opts"
    by (intro ext) (simp add: after_record_def Let_def cong: prod.case_cong sum.case_cong)
  then show ?thesis by (simp add: run_pipeline_def cong: prod.case_cong sum.case_cong)
qed

theorem dry_run_silent_witness:
  "run_pipeline (with_effects (demo_env noop_ops None) (\<lambda>_ n. (Some (Err ''down''), n + 7)) (\<lambda>_ _ n. (None, 9)))
     (demo_run True) (quiet_world new_noop_store)
   = run_pipeline (demo_env noop_ops None) (demo_run True) (quiet_world new_noop_store)"
  by (rule dry_run_silent) (simp add: demo)

section \<open>Failed accounts\<close>

text \<open>When an account fails and the messages of the others were all processed before, the run
  counts as completed, without an error.  A completed run moves the fetch window on, so the mail
  that the failed account did not deliver may fall out of it.\<close>

theorem failed_account_completes:
  assumes "error_list results \<noteq> []" and "flatten_messages results \<noteq> []" and "\<not> ro_force opts"
    and "fst (filter_processed env (flatten_messages results) w) = []"
  shows "res_status (fst (after_fetch env opts run results w)) = RunCompleted
    \<and> res_err (fst (after_fetch env opts run results w)) = None"
  using assms by (cases "filter_processed env (flatten_messages results) w") (simp add: after_fetch_def Let_def)

theorem failed_account_completes_witness:
  "let s = snd (noop_record_message (quiet_io 5)
        \<lparr>pm_run = ''r0'', pm_account = ''w'', pm_uid = 7, pm_is_read = False, pm_label = ''Ads'', pm_excerpt = [], pm_at = 3\<rparr>
        new_noop_store);
      results = [\<lparr>ft_account = demo_account, ft_messages = [], ft_err = Some (Err ''login'')\<rparr>,
        \<lparr>ft_account = demo_account, ft_messages = [demo_mail ''w'' 7], ft_err = None\<rparr>]
   in res_status (fst (after_fetch (demo_env noop_ops None) (demo_run False) ''r1'' results (quiet_world s))) = RunCompleted"
  unfolding Let_def
  by (rule failed_account_completes [THEN conjunct1])
    (auto simp: demo error_list_def flatten_messages_def filter_processed_def with_store_def noop_ops_def
      noop_already_processed_def noop_record_message_def new_noop_store_def store_key_def demo_mail_def pm_key_def
      time_is_zero_def filter_already_processed_def msg_key_def fun_eq_iff)

text \<open>When one account fails and the others have no mail, the run fails as if all accounts had
  failed, although the others were fetched successfully.\<close>

theorem idle_account_hides_success:
  assumes "error_list results \<noteq> []" and "flatten_messages results = []"
  shows "res_status (fst (after_fetch env opts run results w)) = RunIngestFailed
    \<and> res_err (fst (after_fetch env opts run results w))
      = Some (Err (''all '' @ fmt_d (int (length (error_list results))) @ '' account(s) failed to fetch messages''))"
  using assms by (simp add: after_fetch_def Let_def ingest_failed_def)


theorem idle_account_hides_success_witness:
  "res_status (fst (after_fetch (demo_env noop_ops None) (demo_run False) ''r1''
     [\<lparr>ft_account = demo_account, ft_messages = [], ft_err = Some (Err ''login'')\<rparr>,
      \<lparr>ft_account = demo_account\<lparr>acct_label := ''idle''\<rparr>, ft_messages = [], ft_err = None\<rparr>]
     (quiet_world new_noop_store))) = RunIngestFailed"
  by (rule idle_account_hides_success [THEN conjunct1]) (simp_all add: error_list_def flatten_messages_def)

section \<open>The fetch window\<close>

text \<open>C33: without an explicit window a run fetches from the last completed run, or the last day when
  there is none, but never further back than the configured maximum (three days when it is not
  positive), and it leaves no gap of a second or more after a completed run unless that maximum cuts it off.\<close>

theorem fetch_window_bounds:
  assumes "pn_store env = sqlite_ops legacy" and "sqlite_wf (w_store w)" and "ro_window opts = None"
    and "fetch_window env opts w = (Inr since, w')"
    and "max_win = (if cfg_max_window (pn_cfg env) \<le> 0 then 72 * hour_ns else cfg_max_window (pn_cfg env))"
    and "t1 = io_now (pn_io env (w_ticks w + 1))" and "t2 = io_now (pn_io env (w_ticks w + 2))"
  shows "t2 - max_win \<le> since
    \<and> since \<in> {t2 - max_win, t1 - 24 * hour_ns} \<union> sqlite_completed (w_store w)
    \<and> (sqlite_completed (w_store w) \<noteq> {} \<and> since \<noteq> t2 - max_win
        \<longrightarrow> since \<in> sqlite_completed (w_store w) \<and> (\<forall>t \<in> sqlite_completed (w_store w). t < since + second_ns))"
proof -
  obtain r s' where last: "so_last_success (sqlite_ops legacy) (pn_io env (w_ticks w)) (w_store w) = (r, s')" by fastforce
  from assms(4) obtain l where r: "r = Inr l"
    by (cases r) (auto simp: fetch_window_def with_store_def assms(1,3) last)
  have since: "since = (let s = (case l of None \<Rightarrow> t1 - 24 * hour_ns | Some x \<Rightarrow> x)
      in if s < t2 - max_win then t2 - max_win else s)"
    using assms(4) unfolding assms(6,7)
    by (cases l) (simp_all add: fetch_window_def with_store_def assms(1,3) last r now_def Let_def numeral_2_eq_2 flip: assms(5) split: if_splits)
  show ?thesis
    using sqlite.last_ok [OF last [unfolded r] assms(2)]
    by (auto simp: since Let_def split: option.splits if_splits)
qed

theorem fetch_window_bounds_witness:
  "fetch_window (demo_env (sqlite_ops (\<lambda>_. None)) None) (demo_run False) (quiet_world empty_db)
     = (Inr (1 - 24 * hour_ns), (quiet_world empty_db)\<lparr>w_ticks := 3\<rparr>) \<and> 2 - 72 * hour_ns \<le> 1 - 24 * hour_ns"
proof
  show f: "fetch_window (demo_env (sqlite_ops (\<lambda>_. None)) None) (demo_run False) (quiet_world empty_db)
     = (Inr (1 - 24 * hour_ns), (quiet_world empty_db)\<lparr>w_ticks := 3\<rparr>)"
    by (simp add: fetch_window_def demo with_store_def sqlite_ops_def sqlite_last_success_def completed_texts_def
        empty_db_def order_desc_def now_def Let_def default_config_def hour_ns_def second_ns_def List.map_filter_def)
  show "2 - 72 * hour_ns \<le> 1 - 24 * hour_ns"
    using fetch_window_bounds [OF _ _ _ f, of "\<lambda>_. None" "72 * hour_ns" 1 2]
    by (simp add: demo empty_stores default_config_def hour_ns_def second_ns_def)
qed

section \<open>What a run leaves in the store\<close>

text \<open>C1: a run over the SQLite store keeps its tables well formed and forgets no processed message and
  no flag; a stateless run also adds none, and only a run whose status is completed adds a time to
  the completed runs, from which the next fetch window is computed.\<close>

theorem run_keeps_store:
  assumes "pn_store env = sqlite_ops legacy" and "sqlite_wf (w_store w)"
    and "\<And>i. storable (io_now (pn_io env i))" and "run_pipeline env opts w = (r, w')"
  shows "sqlite_wf (w_store w')
    \<and> sqlite_known (w_store w) \<subseteq> sqlite_known (w_store w') \<and> sqlite_flagged (w_store w) \<subseteq> sqlite_flagged (w_store w')
    \<and> (ro_stateless opts \<longrightarrow> sqlite_known (w_store w') = sqlite_known (w_store w)
        \<and> sqlite_flagged (w_store w') = sqlite_flagged (w_store w))
    \<and> (res_status r \<noteq> RunCompleted \<longrightarrow> sqlite_completed (w_store w') \<subseteq> sqlite_completed (w_store w))"
  using sqlite.run_evolves [OF assms] by (auto simp: evolves_def split: if_splits)

theorem run_keeps_store_witness:
  "sqlite_wf (w_store (snd (run_pipeline (demo_env (sqlite_ops (\<lambda>_. None)) None) (demo_run False) (quiet_world empty_db))))"
  using run_keeps_store [where env = "demo_env (sqlite_ops (\<lambda>_. None)) None" and legacy = "\<lambda>_. None"
      and w = "quiet_world empty_db" and opts = "demo_run False", OF _ _ demo_clock prod.collapse [symmetric]]
  by (simp add: demo empty_stores)





section \<open>One digest per run\<close>

lemma now_ext [simp]: "w_ext (snd (now env w)) = w_ext w"
  and with_store_ext [simp]: "w_ext (snd (with_store env f w)) = w_ext w"
  by (simp_all add: now_def with_store_def split: prod.split)

lemma filter_processed_ext: "w_ext (snd (filter_processed env ms w)) = w_ext w"
  using with_store_ext [of env "\<lambda>ops io. so_already_processed ops io (map store_key ms)" w]
  by (auto simp: filter_processed_def simp del: with_store_ext split: prod.split sum.split)

lemma fetch_window_ext: "w_ext (snd (fetch_window env opts w)) = w_ext w"
  by (auto simp: fetch_window_def now_def with_store_def Let_def split: prod.split sum.split option.split)

lemma digest_ext: "w_ext (snd (build_digest_data_partial env run ms out rs errs w)) = w_ext w"
  by (auto simp: build_digest_data_partial_def digest_of_def build_highlights_def now_def with_store_def Let_def
      split: prod.split sum.split option.split)

lemma finish_ext [simp]: "w_ext (finish_run env run st n e w) = w_ext w"
  by (simp add: finish_run_def)

lemma record_ext [simp]:
  "w_ext (record_processed env run classes ms w) = w_ext w" "w_ext (record_flags env cs w) = w_ext w"
proof -
  show "w_ext (record_processed env run classes ms w) = w_ext w"
    by (induction ms arbitrary: w) (auto simp: now_def split: option.split)
  show "w_ext (record_flags env cs w) = w_ext w"
    by (induction cs arbitrary: w) (auto simp: now_def Let_def)
qed


lemma classify_ext:
  assumes "\<And>req x. n (snd (classify req x)) = n x"
  shows "n (snd (classify_with_partial_fallback classify decode cfg request x)) = n x"
proof -
  have step: "n w2 = n w1" if "classify req w1 = (r, w2)" for req w1 r w2
    using assms [of req w1] that by simp
  have repair: "n w2 = n w1" if "repair_once classify cfg raw pe labels w1 = (r, w2)" for raw pe labels w1 r w2
    using that by (auto simp: repair_once_def dest: step split: sum.splits prod.splits option.splits)
  show ?thesis
    unfolding classify_with_partial_fallback_def Let_def
    by (auto dest!: step repair split: prod.split option.split sum.split)
qed

lemma apply_flags_ext:
  assumes "\<And>a fs x. n (snd (pn_apply_flags env a fs x)) = n x"
  shows "n (w_ext (apply_classification_flags env cs w)) = n (w_ext w)"
proof -
  have "n (w_ext (apply_groups env gs w)) = n (w_ext w)" for gs
    using assms by (induction env gs w rule: apply_groups.induct)
      (auto simp: with_ext_def split: option.split prod.split, metis snd_conv)
  then show ?thesis by (simp add: apply_classification_flags_def Let_def)
qed

lemma with_ext_measure: "(\<And>x. n (snd (f x)) = n x) \<Longrightarrow> with_ext f w = (r, w') \<Longrightarrow> n (w_ext w') = n (w_ext w)"
  by (auto simp: with_ext_def split: prod.splits) (metis snd_conv)

lemma act_sends:
  assumes flags: "\<And>a fs x. n (snd (pn_apply_flags env a fs x)) = n x"
    and send: "\<And>t x. n (snd (pn_send env t x)) = Suc (n x)"
  shows "n (w_ext (snd (act env opts r ms out rendered w))) = (if ro_dry_run opts then n (w_ext w) else Suc (n (w_ext w)))"
proof (cases "ro_dry_run opts")
  case True
  then show ?thesis by (simp add: act_def Let_def)
next
  case False
  define w1 where "w1 = (if \<not> ro_dry_run opts \<and> co_err out = None then apply_classification_flags env (co_valid out) w else w)"
  obtain e x where s: "pn_send env rendered (w_ext w1) = (e, x)" by fastforce
  have "n x = Suc (n (w_ext w))" using send [of rendered "w_ext w1"] apply_flags_ext [OF flags] s by (simp add: w1_def)
  then show ?thesis
    using False unfolding act_def Let_def w1_def [symmetric] by (cases e) (simp_all add: with_ext_def s)
qed

text \<open>C4: a run sends at most one digest, however it ends, and a dry run sends none: \<open>n\<close> counts the
  calls of the channel, and fetching, classifying and flagging do not call it.\<close>

theorem run_sends_once:
  fixes n :: "'w \<Rightarrow> nat" and env :: "('s, 'w) pipeline_env"
  assumes flags: "\<And>a fs x. n (snd (pn_apply_flags env a fs x)) = n x"
    and fetch: "\<And>as fo k x. n (snd (pn_fetch_all env as fo k x)) = n x"
    and classify: "\<And>req x. n (snd (pn_classify env req x)) = n x"
    and send: "\<And>t x. n (snd (pn_send env t x)) = Suc (n x)"
  shows "n (w_ext (snd (run_pipeline env opts w))) \<in> {n (w_ext w), (if ro_dry_run opts then 0 else 1) + n (w_ext w)}"
proof -
  define ok where "ok (w :: ('s, 'w) world) w' \<longleftrightarrow> n (w_ext w') \<in> {n (w_ext w), (if ro_dry_run opts then 0 else 1) + n (w_ext w)}"
    for w w' :: "('s, 'w) world"
  have same: "ok w w'" if "w_ext w' = w_ext w" for w w' using that by (simp add: ok_def)
  have reason: "ok w (snd (reason env opts r ms rs errs w))" for r ms rs errs w
  proof -
    let ?f = "classify_with_partial_fallback (pn_classify env) (pn_decode env) (pn_cfg env) (build_request (pn_cfg env) ms)"
    obtain out w1 where c: "with_ext ?f w = (out, w1)" by fastforce
    obtain d w2 where b: "build_digest_data_partial env (res_run r) ms out rs errs w1 = (d, w2)" by fastforce
    have "n (w_ext w2) = n (w_ext w)"
      using with_ext_measure [of n ?f, OF classify_ext [of n "pn_classify env", OF classify] c] digest_ext [of env "res_run r" ms out rs errs w1] by (simp add: b)
    then show ?thesis
      by (simp only: reason_def c b prod.case Let_def split: sum.split) (auto simp: ok_def act_sends [of n, OF flags send])
  qed
  have after: "ok w (snd (after_fetch env opts run rs w))" for run rs w
  proof -
    obtain ms w1 where m: "(if \<not> ro_force opts \<and> flatten_messages rs \<noteq> []
        then filter_processed env (flatten_messages rs) w else (flatten_messages rs, w)) = (ms, w1)" by fastforce
    have "w_ext w1 = w_ext w" using m filter_processed_ext [of env "flatten_messages rs" w] by (auto split: if_splits)
    moreover from this have "ok w (snd (reason env opts r ms rs errs w1))" for r errs
      using reason [of w1 r ms rs errs] by (simp add: ok_def)
    ultimately show ?thesis by (simp add: after_fetch_def Let_def m same)
  qed
  have "ok w (snd (after_record env opts run w))" for run w
  proof -
    obtain f w1 where f: "fetch_window env opts w = (f, w1)" by fastforce
    have w1: "w_ext w1 = w_ext w" using fetch_window_ext [of env opts w] by (simp add: f)
    show ?thesis
    proof (cases f)
      case (Inr since)
      let ?f = "pn_fetch_all env (imap_accounts (cfg_imap (pn_cfg env))) (fetch_options_of (pn_cfg env) since)
        (cc_max_accounts (cfg_concurrency (pn_cfg env)))"
      obtain rs w2 where g: "with_ext ?f w1 = (rs, w2)" by fastforce
      have "n (w_ext w2) = n (w_ext w)" using with_ext_measure [of n ?f, OF fetch g] w1 by simp
      then show ?thesis using after [of w2 run rs] by (simp add: after_record_def f Inr g ok_def)
    qed (simp add: after_record_def f w1 ok_def)
  qed
  note rest = this
  obtain q w1 where q: "with_store env (\<lambda>ops io. so_record_run ops io
       \<lparr>run_id = [], run_started = fst (now env w), run_finished = None, run_state = RunRunning, run_count = 0, run_error = []\<rparr>)
       (snd (now env w)) = (q, w1)" by fastforce
  have "w_ext w1 = w_ext w" using with_store_ext [of env _ "snd (now env w)"] q by (metis now_ext snd_conv)
  moreover have "snd (run_pipeline env opts w) = (case q of Inl e \<Rightarrow> w1 | Inr r \<Rightarrow> snd (after_record env opts (run_id r) w1))"
    using q by (simp add: run_pipeline_def case_prod_unfold split: sum.split)
  ultimately show ?thesis using rest [of w1 "run_id (projr q)"] by (cases q) (simp_all add: ok_def)
qed

theorem run_sends_once_witness:
  "w_ext (snd (run_pipeline (demo_env (sqlite_ops (\<lambda>_. None)) None) (demo_run False) (quiet_world empty_db))) \<in> {0, 1}"
  using run_sends_once [of "\<lambda>n. n" "demo_env (sqlite_ops (\<lambda>_. None)) None" "demo_run False" "quiet_world empty_db"]
  by (simp add: demo)

section \<open>The digest of a run\<close>

text \<open>The digest of a run has one entry per message, in their order and with their headers, counts
  exactly the entries that carry an error as failed analyses, and its counters of all messages and
  of classified ones agree with that.\<close>

theorem digest_covers_messages:
  "map (\<lambda>e. (me_subject e, me_from e, me_date e, me_is_read e, me_excerpt e))
       (dd_messages (fst (build_digest_data_partial env run ms out rs errs w)))
     = map (\<lambda>m. (msg_subject m, msg_from m, msg_date m, msg_is_read m, msg_body m)) ms
   \<and> dd_analysis_failed (fst (build_digest_data_partial env run ms out rs errs w))
     = length (filter (\<lambda>e. cl_error (me_class e) \<noteq> None) (dd_messages (fst (build_digest_data_partial env run ms out rs errs w))))
   \<and> gs_analysis_failed (dd_global (fst (build_digest_data_partial env run ms out rs errs w)))
     = dd_analysis_failed (fst (build_digest_data_partial env run ms out rs errs w))"
proof -
  let ?f = "make_entry (class_map (co_valid out) (co_failed out) (co_errors out))"
  have n: "length (filter (\<lambda>(m, e). cl_error (me_class e) \<noteq> None) (zip xs (map f xs)))
      = length (filter (\<lambda>e. cl_error (me_class e) \<noteq> None) (map f xs))" for xs and f :: "message \<Rightarrow> message_entry"
    by (induction xs) auto
  have "dd_messages (fst (digest_of env run ms es cs rs errs k pa w)) = es
      \<and> dd_analysis_failed (fst (digest_of env run ms es cs rs errs k pa w)) = k
      \<and> gs_analysis_failed (dd_global (fst (digest_of env run ms es cs rs errs k pa w))) = k" for es cs k pa
    by (auto simp: digest_of_def Let_def split: prod.split)
  then show ?thesis unfolding build_digest_data_partial_def Let_def n by (simp add: make_entry_def comp_def)
qed

end
