(* ===== verification/RunLedger.thy ===== *)
theory RunLedger
  imports PipelineProps
begin

text \<open>
  Every run ends: once a run is recorded, and as long as the store works when the run is finished, the
  record of the run is closed with the status that the run returns, on every path through the
  pipeline.  The locale \<open>run_ledger\<close> states what a store promises about its records of runs; both
  stores are interpretations of it.
\<close>

locale run_ledger =
  fixes ops :: "'s store_ops" and started :: "'s \<Rightarrow> string set" and ended :: "'s \<Rightarrow> (string \<times> run_status) set"
    and quiet :: "store_io \<Rightarrow> bool"
  assumes record_starts: "so_record_run ops io r s = (Inr r', s') \<Longrightarrow> run_id r' \<in> started s'"
    and finish_ends: "quiet io \<Longrightarrow> i \<in> started s \<Longrightarrow> (i, st) \<in> ended (snd (so_finish_run ops io i st n e s))"
    and last_success_keeps: "i \<in> started s \<Longrightarrow> i \<in> started (snd (so_last_success ops io s))"
    and message_keeps: "i \<in> started s \<Longrightarrow> i \<in> started (snd (so_record_message ops io m s))"
    and processed_keeps: "i \<in> started s \<Longrightarrow> i \<in> started (snd (so_already_processed ops io ks s))"
    and flag_keeps: "i \<in> started s \<Longrightarrow> i \<in> started (snd (so_record_flag ops io f s))"
    and digest_keeps: "i \<in> started s \<Longrightarrow> i \<in> started (snd (so_record_digest ops io d s))"
    and summary_keeps: "i \<in> started s \<Longrightarrow> i \<in> started (snd (so_previous_summary ops io j s))"
begin

definition keeps_runs :: "('s store_ops \<Rightarrow> store_io \<Rightarrow> ('a, 's) store_op) \<Rightarrow> bool" where
  "keeps_runs f \<longleftrightarrow> (\<forall>io s. started s \<subseteq> started (snd (f ops io s)))"

lemma keeps_runs [simp]:
  "keeps_runs (\<lambda>ops io. so_record_message ops io m)" "keeps_runs (\<lambda>ops io. so_already_processed ops io ks)"
  "keeps_runs (\<lambda>ops io. so_record_flag ops io f)" "keeps_runs (\<lambda>ops io. so_record_digest ops io d)"
  "keeps_runs (\<lambda>ops io. so_previous_summary ops io j)" "keeps_runs so_last_success"
  by (auto simp: keeps_runs_def intro: message_keeps processed_keeps flag_keeps digest_keeps summary_keeps last_success_keeps)

lemma snd_with_store_keeps:
  "keeps_runs f \<Longrightarrow> pn_store env = ops \<Longrightarrow> i \<in> started (w_store w) \<Longrightarrow> i \<in> started (w_store (snd (with_store env f w)))"
  by (auto simp: with_store_def keeps_runs_def case_prod_beta)

lemma with_store_keeps:
  assumes "keeps_runs f" and "pn_store env = ops" and "i \<in> started (w_store w)" and "with_store env f w = (r, w')"
  shows "i \<in> started (w_store w')"
  using snd_with_store_keeps [OF assms(1-3)] by (simp add: assms(4))

lemma now_keeps: "now env w = (t, w') \<Longrightarrow> w_store w' = w_store w"
  using now_store [of env w] by simp

lemma ext_keeps: "with_ext f w = (r, w') \<Longrightarrow> w_store w' = w_store w"
  using ext_store [of f w] by simp

lemma finish_run_ends:
  assumes "pn_store env = ops" and "\<And>k. quiet (pn_io env k)" and "i \<in> started (w_store w)"
  shows "(i, st) \<in> ended (w_store (finish_run env i st n e w))"
  using finish_ends [OF assms(2) [of "w_ticks w"] assms(3), of st "int n" e] assms(1)
  by (simp add: finish_run_def with_store_def case_prod_beta)

lemma record_processed_keeps:
  "pn_store env = ops \<Longrightarrow> i \<in> started (w_store w) \<Longrightarrow> i \<in> started (w_store (record_processed env run classes ms w))"
proof (induction ms arbitrary: w)
  case (Cons m ms)
  show ?case
  proof (cases "classes (msg_key m)")
    case (Some c)
    obtain t w1 where eq: "now env w = (t, w1)" by fastforce
    have "i \<in> started (w_store w1)" using Cons.prems(2) now_keeps [OF eq] by simp
    then show ?thesis
      by (auto simp: Some eq Let_def intro!: Cons.IH snd_with_store_keeps Cons.prems(1))
  qed (use Cons in simp)
qed simp

lemma record_flags_keeps:
  "pn_store env = ops \<Longrightarrow> i \<in> started (w_store w) \<Longrightarrow> i \<in> started (w_store (record_flags env cs w))"
proof (induction cs arbitrary: w)
  case (Cons c cs)
  obtain t w1 where eq: "now env w = (t, w1)" by fastforce
  have "i \<in> started (w_store w1)" using Cons.prems(2) now_keeps [OF eq] by simp
  then show ?case
    using Cons.prems(2) by (auto simp: eq Let_def intro!: Cons.IH Cons.prems(1) snd_with_store_keeps)
qed simp

text \<open>The run of the result is closed with the status of the result.\<close>

definition closed :: "run_result \<times> ('s, 'w) world \<Rightarrow> bool" where
  "closed rw \<longleftrightarrow> (res_run (fst rw), res_status (fst rw)) \<in> ended (w_store (snd rw))"

lemma act_closed:
  assumes env: "pn_store env = ops" "\<And>k. quiet (pn_io env k)" and live: "res_run r \<in> started (w_store w)"
  shows "closed (act env opts r ms out rendered w)"
proof -
  define w1 where "w1 = (if \<not> ro_dry_run opts \<and> co_err out = None then apply_classification_flags env (co_valid out) w else w)"
  have w1: "res_run r \<in> started (w_store w1)" using live by (simp add: w1_def apply_flags_store)
  obtain e w2 where eq: "(if ro_dry_run opts then (None, w1) else with_ext (pn_send env rendered) w1) = (e, w2)" by fastforce
  have w2: "res_run r \<in> started (w_store w2)"
    using eq w1 ext_keeps [of "pn_send env rendered" w1 e w2] by (auto split: if_splits)
  have digest: "res_run r \<in> started (w_store (snd (with_store env (\<lambda>ops io. so_record_digest ops io d) w2)))" for d
    by (rule snd_with_store_keeps [OF _ env(1) w2]) simp
  show ?thesis
    unfolding act_def Let_def w1_def [symmetric] eq prod.case closed_def
    using finish_run_ends [OF env] digest w2 record_processed_keeps [OF env(1)] record_flags_keeps [OF env(1)]
    by (cases e) simp_all
qed

lemma build_digest_keeps:
  assumes "pn_store env = ops" and "i \<in> started (w_store w)"
    and "build_digest_data_partial env run ms out rs errs w = (d, w')"
  shows "i \<in> started (w_store w')"
proof -
  have highlights: "i \<in> started (w_store v')"
    if "build_highlights env run g as senders v = (h, v')" and "i \<in> started (w_store v)" for g as senders h v v'
  proof -
    obtain r v1 where eq: "with_store env (\<lambda>ops io. so_previous_summary ops io run) v = (r, v1)" by fastforce
    have "i \<in> started (w_store v1)" using with_store_keeps [OF _ assms(1) that(2) eq] by simp
    moreover have "v' = v1" using that(1) by (auto simp: build_highlights_def Let_def eq split: sum.splits option.splits)
    ultimately show ?thesis by simp
  qed
  show ?thesis
    using assms(2,3) by (auto simp: build_digest_data_partial_def digest_of_def Let_def dest!: highlights now_keeps
        split: prod.splits)
qed

lemma reason_closed:
  assumes env: "pn_store env = ops" "\<And>k. quiet (pn_io env k)" and live: "res_run r \<in> started (w_store w)"
  shows "closed (reason env opts r ms results errors w)"
proof -
  obtain out w1 where eq: "with_ext (classify_with_partial_fallback (pn_classify env) (pn_decode env) (pn_cfg env)
      (build_request (pn_cfg env) ms)) w = (out, w1)" by fastforce
  obtain d w2 where eq2: "build_digest_data_partial env (res_run r) ms out results errors w1 = (d, w2)" by fastforce
  have w2: "res_run r \<in> started (w_store w2)"
    using build_digest_keeps [OF env(1) _ eq2] live ext_keeps [OF eq] by simp
  show ?thesis
    unfolding reason_def eq eq2 prod.case Let_def
    using w2 by (auto simp: closed_def [of "(_, _)"] finish_run_ends [OF env] intro!: act_closed [OF env] split: sum.split)
qed

lemma after_fetch_closed:
  assumes env: "pn_store env = ops" "\<And>k. quiet (pn_io env k)" and live: "run \<in> started (w_store w)"
  shows "closed (after_fetch env opts run results w)"
proof -
  obtain ms w1 where eq: "(if \<not> ro_force opts \<and> flatten_messages results \<noteq> []
      then filter_processed env (flatten_messages results) w else (flatten_messages results, w)) = (ms, w1)" by fastforce
  have "run \<in> started (w_store w1)"
  proof (cases "\<not> ro_force opts \<and> flatten_messages results \<noteq> []")
    case True
    let ?f = "\<lambda>ops io. so_already_processed ops io (map store_key (flatten_messages results))"
    have "w1 = snd (with_store env ?f w)"
      using eq True by (auto simp: filter_processed_def split: prod.splits sum.splits if_splits)
    then show ?thesis using snd_with_store_keeps [OF _ env(1) live, of ?f] by simp
  qed (use eq live in auto)
  then show ?thesis
    unfolding after_fetch_def Let_def eq prod.case using live
    by (auto simp: closed_def [of "(_, _)"] ingest_failed_def finish_run_ends [OF env] intro: reason_closed [OF env])
qed

lemma after_record_closed:
  assumes env: "pn_store env = ops" "\<And>k. quiet (pn_io env k)" and live: "run \<in> started (w_store w)"
  shows "closed (after_record env opts run w)"
proof -
  obtain since w1 where eq: "fetch_window env opts w = (since, w1)" by fastforce
  have w1: "run \<in> started (w_store w1)"
    using eq live by (auto simp: fetch_window_def Let_def dest!: with_store_keeps [OF keeps_runs(6) env(1) live] now_keeps
        split: option.splits prod.splits sum.splits)
  show ?thesis
  proof (cases since)
    case (Inl e)
    then show ?thesis using w1 by (simp add: after_record_def eq closed_def ingest_failed_def finish_run_ends [OF env])
  next
    case (Inr t)
    obtain rs w2 where eq2: "with_ext (pn_fetch_all env (imap_accounts (cfg_imap (pn_cfg env)))
        (fetch_options_of (pn_cfg env) t) (cc_max_accounts (cfg_concurrency (pn_cfg env)))) w1 = (rs, w2)" by fastforce
    show ?thesis using w1 ext_keeps [OF eq2] by (simp add: after_record_def eq Inr eq2 after_fetch_closed [OF env])
  qed
qed

lemma run_closed:
  assumes env: "pn_store env = ops" "\<And>k. quiet (pn_io env k)" and run: "run_pipeline env opts w = (res, w')"
  shows "res_run res = [] \<and> res_status res = RunIngestFailed \<or> (res_run res, res_status res) \<in> ended (w_store w')"
proof -
  obtain t w1 where eq: "now env w = (t, w1)" by fastforce
  let ?r = "\<lparr>run_id = [], run_started = t, run_finished = None, run_state = RunRunning, run_count = 0, run_error = []\<rparr>"
  obtain r w2 where eq2: "with_store env (\<lambda>ops io. so_record_run ops io ?r) w1 = (r, w2)" by fastforce
  show ?thesis
  proof (cases r)
    case (Inl e)
    then show ?thesis using run by (auto simp: run_pipeline_def eq eq2 ingest_failed_def)
  next
    case (Inr r')
    have "run_id r' \<in> started (w_store w2)"
      using eq2 Inr env(1) record_starts [of "pn_io env (w_ticks w1)" ?r "w_store w1" r'] 
      by (auto simp: with_store_def split: prod.splits)
    then have "closed (after_record env opts (run_id r') w2)" by (rule after_record_closed [OF env])
    then show ?thesis using run by (simp add: run_pipeline_def eq eq2 Inr closed_def)
  qed
qed

end

section \<open>The stores\<close>

definition sqlite_ended :: "sqlite_db \<Rightarrow> (string \<times> run_status) set" where
  "sqlite_ended s = {(i, st). \<exists>r \<in> set (db_runs s). rr_id r = i \<and> rr_status r = status_text st \<and> rr_finished r \<noteq> None}"

definition noop_ended :: "noop_store \<Rightarrow> (string \<times> run_status) set" where
  "noop_ended s = {(i, st). \<exists>r \<in> set (ns_runs s). run_id r = i \<and> run_state r = st \<and> run_finished r \<noteq> None}"

lemma update_first_some:
  "i \<in> run_id ` set rs \<Longrightarrow> \<exists>rs'. update_first (\<lambda>r. run_id r = i) f rs = Some rs' \<and> (\<exists>r \<in> set rs. run_id r = i \<and> f r \<in> set rs')"
proof (induction rs)
  case (Cons r rs)
  show ?case
  proof (cases "run_id r = i")
    case False
    then obtain rs' q where "update_first (\<lambda>r. run_id r = i) f rs = Some rs'" "q \<in> set rs" "run_id q = i" "f q \<in> set rs'"
      using Cons by auto
    then show ?thesis using False by (intro exI [of _ "r # rs'"]) auto
  qed simp
qed simp

interpretation sqlite_ledger: run_ledger "sqlite_ops legacy" "\<lambda>s. rr_id ` set (db_runs s)" sqlite_ended
    "\<lambda>io. io_fault io = (\<lambda>_. None)" for legacy
proof (unfold_locales, goal_cases)
  case (1 io r s r' s')
  then show ?case
    by (auto simp: sqlite_ops_def sqlite_record_run_def insert_run_def run_to_row_def split: if_splits sum.splits option.splits)
next
  case (2 io i s st n e)
  then obtain r where r: "r \<in> set (db_runs s)" "rr_id r = i" by auto
  let ?upd = "finish_row (format_time (io_now io)) st n (err_string e)"
  have "?upd r \<in> set (map (\<lambda>r. if rr_id r = i then ?upd r else r) (db_runs s))" using r by force
  moreover have "rr_id (?upd r) = i" "rr_status (?upd r) = status_text st" "rr_finished (?upd r) \<noteq> None"
    using r by (simp_all add: finish_row_def)
  ultimately have "\<exists>r' \<in> set (map (\<lambda>r. if rr_id r = i then ?upd r else r) (db_runs s)).
      rr_id r' = i \<and> rr_status r' = status_text st \<and> rr_finished r' \<noteq> None" by blast
  then show ?case
    using 2(1) by (simp add: sqlite_ops_def sqlite_finish_run_def sqlite_ended_def Let_def del: set_map)
next
  case (3 i s io)
  then show ?case by (simp add: sqlite_ops_def sqlite_last_success_def split: option.split list.split sum.split)
next
  case (4 i s io m)
  then show ?case by (simp add: sqlite_ops_def sqlite_record_message_def Let_def split: option.split)
next
  case (5 i s io ks)
  then show ?case by (simp add: sqlite_ops_def sqlite_already_processed_def Let_def split: option.split)
next
  case (6 i s io f)
  then show ?case by (simp add: sqlite_ops_def sqlite_record_flag_def Let_def split: option.split)
next
  case (7 i s io d)
  then show ?case by (simp add: sqlite_ops_def sqlite_record_digest_def split: option.split)
next
  case (8 i s io j)
  then show ?case
    by (auto simp: sqlite_ops_def sqlite_previous_summary_def split: option.split sum.split list.split prod.split)
qed

interpretation noop_ledger: run_ledger noop_ops "\<lambda>s. run_id ` set (ns_runs s)" noop_ended "\<lambda>_. True"
proof (unfold_locales, goal_cases)
  case (1 io r s r' s')
  then show ?case by (auto simp: noop_ops_def noop_record_run_def Let_def)
next
  case (2 io i s st n e)
  let ?upd = "finished_run (io_now io) st n (err_string e)"
  obtain rs r where rs: "update_first (\<lambda>r. run_id r = i) ?upd (ns_runs s) = Some rs" "run_id r = i" "?upd r \<in> set rs"
    using update_first_some [OF 2(2), of ?upd] by blast
  have "run_id (?upd r) = i" "run_state (?upd r) = st" "run_finished (?upd r) \<noteq> None"
    using rs(2) by (simp_all add: finished_run_def)
  then show ?case using rs by (auto simp: noop_ops_def noop_finish_run_def noop_ended_def)
qed (auto simp: noop_ops_def noop_last_success_def noop_record_message_def noop_already_processed_def
    noop_record_flag_def noop_record_digest_def noop_previous_summary_def Let_def split: option.splits)

section \<open>Every run ends\<close>

text \<open>C7: As long as the database works, a run over SQLite never stays recorded as running: when it
  returns, either it could not be recorded at all, or its row is closed, with a finishing time and the
  status that the run returned.\<close>

theorem run_is_closed:
  assumes "\<And>k. io_fault (pn_io env k) = (\<lambda>_. None)" and "pn_store env = sqlite_ops legacy"
    and "run_pipeline env opts w = (res, w')"
  shows "res_run res = [] \<and> res_status res = RunIngestFailed
    \<or> (\<exists>r \<in> set (db_runs (w_store w')). rr_id r = res_run res \<and> rr_status r = status_text (res_status res)
        \<and> rr_finished r \<noteq> None)"
  using sqlite_ledger.run_closed [OF assms(2,1,3)] by (simp add: sqlite_ended_def)

theorem run_is_closed_witness:
  "let (res, w') = run_pipeline (demo_env (sqlite_ops (\<lambda>_. None)) None) (demo_run False) (quiet_world empty_db) in
    res_run res = [] \<and> res_status res = RunIngestFailed
    \<or> (\<exists>r \<in> set (db_runs (w_store w')). rr_id r = res_run res \<and> rr_status r = status_text (res_status res)
        \<and> rr_finished r \<noteq> None)"
  by (cases "run_pipeline (demo_env (sqlite_ops (\<lambda>_. None)) None) (demo_run False) (quiet_world empty_db)")
    (simp only: Let_def prod.case, rule run_is_closed [where env = "demo_env (sqlite_ops (\<lambda>_. None)) None"],
     simp_all add: demo)

end
