(* ===== verification/Shutdown.thy ===== *)
theory Shutdown
  imports Prelude
begin

text \<open>
  \<open>internal/shutdown\<close>: the signals that cancel the program's context, and waiting for work in flight.
  A wait is described by the moments that decide it, in nanoseconds after the call: when the wait
  group reaches zero, if it does, and when the context is cancelled and with which error.  When two of
  them coincide \<open>select\<close> may take either, and the two flags say which.
\<close>

definition default_signals :: "string list" where
  "default_signals = [''interrupt'', ''terminated'']"

definition context_signals :: "string list \<Rightarrow> string list" where
  "context_signals signals = (if signals = [] then default_signals else signals)"

definition deadline_exceeded :: err where
  "deadline_exceeded = Sentinel ''context deadline exceeded''"

text \<open>The end of the context that is waited on: with a positive timeout it ends no later than that.\<close>

definition drain_context :: "duration \<Rightarrow> (duration \<times> err) option \<Rightarrow> bool \<Rightarrow> (duration \<times> err) option" where
  "drain_context timeout cancelled parent_first =
     (if \<not> 0 < timeout then cancelled
      else (case cancelled of
          None \<Rightarrow> Some (timeout, deadline_exceeded)
        | Some (t, e) \<Rightarrow>
            if t < timeout \<or> t = timeout \<and> parent_first then Some (t, e) else Some (timeout, deadline_exceeded)))"

text \<open>\<open>WaitForDrain\<close>: the result and the moment of the return, or \<^const>\<open>None\<close> when it does not return.\<close>

definition wait_for_drain ::
  "bool \<Rightarrow> duration \<Rightarrow> duration option \<Rightarrow> (duration \<times> err) option \<Rightarrow> bool \<Rightarrow> bool
   \<Rightarrow> (err option \<times> duration) option" where
  "wait_for_drain nil_group timeout drained cancelled parent_first done_first =
     (if nil_group then Some (Some (Err ''shutdown.WaitForDrain: nil WaitGroup''), 0)
      else (case (drained, drain_context timeout cancelled parent_first) of
          (None, None) \<Rightarrow> None
        | (Some d, None) \<Rightarrow> Some (None, d)
        | (None, Some (t, e)) \<Rightarrow> Some (Some e, t)
        | (Some d, Some (t, e)) \<Rightarrow> if d < t \<or> d = t \<and> done_first then Some (None, d) else Some (Some e, t)))"

text \<open>With a positive timeout waiting ends within it, whatever the work does, and without an error
  only if the work was done by then; without a timeout and without a cancellation it may last for ever.\<close>

theorem drain_within_timeout:
  assumes "0 < timeout"
  shows "(\<exists>r t. wait_for_drain False timeout drained cancelled p q = Some (r, t) \<and> t \<le> timeout
      \<and> (r = None \<longrightarrow> drained = Some t))
    \<and> wait_for_drain False 0 None None p q = None"
  using assms by (auto simp: wait_for_drain_def drain_context_def split: option.split)

theorem drain_within_timeout_witness:
  "(\<exists>r t. wait_for_drain False 5 None (Some (9, Err ''x'')) True True = Some (r, t) \<and> t \<le> 5
      \<and> (r = None \<longrightarrow> None = Some t))
    \<and> wait_for_drain False 0 None None True True = None"
  by (rule drain_within_timeout) simp

end
