(* ===== verification/Telegram.thy ===== *)
theory Telegram
  imports Providers
begin

text \<open>
  \<open>internal/notify\<close>: the notification channels.  The channel registry has the shape of the
  provider registry, with channel factories.  The Telegram
  channel builds a multipart form, posts it and retries; the writer, the HTTP client, the JSON
  decoder, the clock, the random source and the context are the environment \<open>telegram_env\<close> over
  a world \<open>'w\<close>.
\<close>

section \<open>Construction\<close>

record send_options =
  so_filename :: string
  so_caption :: string

record channel =
  ch_token :: string
  ch_chat :: int
  ch_endpoint :: string

text \<open>A configuration value of type \<open>any\<close>.\<close>

datatype config_value = CfgString string | CfgInt64 int | CfgFloat rat | CfgOther string

datatype config_any = CfgMap "(string \<times> config_value) list" | CfgUnsupported string

definition default_endpoint :: string where
  "default_endpoint = ''https://api.telegram.org''"

definition int64_of_float :: "rat \<Rightarrow> int" where
  "int64_of_float q = (if q < 0 then - \<lfloor>- q\<rfloor> else \<lfloor>q\<rfloor>)"

definition telegram_factory :: "config_any \<Rightarrow> err + channel" where
  "telegram_factory cfg =
     (case cfg of
        CfgUnsupported t \<Rightarrow> Inl (Err (''telegram: unsupported config type '' @ t))
      | CfgMap m \<Rightarrow>
     (case map_of m ''bot_token'' of
        Some (CfgString token) \<Rightarrow>
          if token = [] then Inl (Err ''telegram: bot_token is required'')
          else
            (let endpoint = (case map_of m ''endpoint'' of
                   Some (CfgString ep) \<Rightarrow> if ep \<noteq> [] then ep else default_endpoint
                 | _ \<Rightarrow> default_endpoint)
             in case map_of m ''chat_id'' of
                  Some (CfgInt64 c) \<Rightarrow> Inr \<lparr>ch_token = token, ch_chat = c, ch_endpoint = endpoint\<rparr>
                | Some (CfgFloat f) \<Rightarrow> Inr \<lparr>ch_token = token, ch_chat = int64_of_float f, ch_endpoint = endpoint\<rparr>
                | _ \<Rightarrow> Inl (Err ''telegram: chat_id is required''))
      | _ \<Rightarrow> Inl (Err ''telegram: bot_token is required'')))"

text \<open>The registry of channels; registering a name twice panics (\<^const>\<open>None\<close>).\<close>

type_synonym channel_factory = "config_any \<Rightarrow> err + channel"

type_synonym channel_factories = "(string \<times> channel_factory) list"

definition register_channel :: "string \<Rightarrow> channel_factory \<Rightarrow> channel_factories \<Rightarrow> channel_factories option" where
  "register_channel name f r = (if map_of r name \<noteq> None then None else Some (r @ [(name, f)]))"

definition lookup_channel :: "channel_factories \<Rightarrow> string \<Rightarrow> channel_factory option" where
  "lookup_channel r name = map_of r name"

definition registered_channels :: "channel_factories \<Rightarrow> string list" where
  "registered_channels r = map fst r"

section \<open>One request\<close>

datatype form_part = Field string string | Document string string string

record telegram_response =
  tr_ok :: bool
  tr_description :: string
  tr_code :: int

record 'w telegram_env =
  te_write_field :: "string \<Rightarrow> string \<Rightarrow> err option"
  te_create_file :: "err option"
  te_write_file :: "string \<Rightarrow> err option"
  te_close_writer :: "err option"
  te_new_request :: "string \<Rightarrow> err option"
  te_do :: "string \<Rightarrow> form_part list \<Rightarrow> 'w \<Rightarrow> (err + (err + string)) \<times> 'w"
  te_decode :: "string \<Rightarrow> err + telegram_response"
  te_ctx_err :: "'w \<Rightarrow> err option"
  te_wait :: "duration \<Rightarrow> 'w \<Rightarrow> err option \<times> 'w" \<comment> \<open>the error of a context cancelled while waiting\<close>
  te_random :: "'w \<Rightarrow> rat \<times> 'w"

definition form_parts :: "channel \<Rightarrow> string \<Rightarrow> string \<Rightarrow> form_part list" where
  "form_parts ch payload caption =
     [Field ''chat_id'' (fmt_d (ch_chat ch))]
     @ (if caption \<noteq> [] then [Field ''caption'' caption] else [])
     @ [Field ''parse_mode'' ''MarkdownV2'', Document ''document'' ''digest.md'' payload]"

text \<open>The first error of building the form, in the order of the writes.\<close>

definition form_error :: "'w telegram_env \<Rightarrow> channel \<Rightarrow> string \<Rightarrow> string \<Rightarrow> err option" where
  "form_error env ch payload caption =
     (case te_write_field env ''chat_id'' (fmt_d (ch_chat ch)) of
        Some e \<Rightarrow> Some (Wrap ''telegram.send_document.write_field.chat_id: '' e)
      | None \<Rightarrow>
     (case (if caption \<noteq> [] then te_write_field env ''caption'' caption else None) of
        Some e \<Rightarrow> Some (Wrap ''telegram.send_document.write_field.caption: '' e)
      | None \<Rightarrow>
     (case te_write_field env ''parse_mode'' ''MarkdownV2'' of
        Some e \<Rightarrow> Some (Wrap ''telegram.send_document.write_field.parse_mode: '' e)
      | None \<Rightarrow>
     (case te_create_file env of
        Some e \<Rightarrow> Some (Wrap ''telegram.send_document.create_file: '' e)
      | None \<Rightarrow>
     (case te_write_file env payload of
        Some e \<Rightarrow> Some (Wrap ''telegram.send_document.write_file: '' e)
      | None \<Rightarrow>
     (case te_close_writer env of
        Some e \<Rightarrow> Some (Wrap ''telegram.send_document.close_writer: '' e)
      | None \<Rightarrow> None))))))"

definition send_document ::
  "'w telegram_env \<Rightarrow> channel \<Rightarrow> string \<Rightarrow> string \<Rightarrow> 'w \<Rightarrow> err option \<times> 'w" where
  "send_document env ch payload caption w =
     (let url = ch_endpoint ch @ ''/bot'' @ ch_token ch @ ''/sendDocument'' in
      case form_error env ch payload caption of
        Some e \<Rightarrow> (Some e, w)
      | None \<Rightarrow>
     (case te_new_request env url of
        Some e \<Rightarrow> (Some (Wrap ''telegram.send_document.new_request: '' e), w)
      | None \<Rightarrow>
     (case te_do env url (form_parts ch payload caption) w of
        (Inl e, w) \<Rightarrow> (Some (Wrap ''telegram.send_document.request: '' e), w)
      | (Inr (Inl e), w) \<Rightarrow> (Some (Wrap ''telegram.send_document.read_body: '' e), w)
      | (Inr (Inr body), w) \<Rightarrow>
     (case te_decode env body of
        Inl e \<Rightarrow> (Some (Wrap ''telegram.send_document.unmarshal: '' e), w)
      | Inr r \<Rightarrow>
          if \<not> tr_ok r
          then (Some (Err (''telegram.send_document: '' @ tr_description r @ '' (code '' @ fmt_d (tr_code r) @ '')'')), w)
          else (None, w)))))"

section \<open>Retrying\<close>

definition retry_texts :: "string list" where
  "retry_texts = [''no such host'', ''connection refused'', ''connection reset'', ''timeout'', ''Temporary'',
     ''code 429'', ''code 500'', ''code 502'', ''code 503'']"

definition is_retryable :: "err \<Rightarrow> bool" where
  "is_retryable e \<longleftrightarrow> list_ex (contains_str (err_text e)) retry_texts"

definition max_retries :: nat where
  "max_retries = 3"

definition retry_base :: duration where
  "retry_base = second_ns"

text \<open>\<open>random\<close> is the value of \<open>rand.Float64()\<close> in [0, 1); the floating point product is exact here.\<close>

definition backoff :: "nat \<Rightarrow> rat \<Rightarrow> duration" where
  "backoff attempt random =
     \<lfloor>of_int (retry_base * 2 ^ (attempt - 1)) * (1 - 1 / 4 + 2 * (1 / 4) * random)\<rfloor>"

definition max_payload_size :: nat where
  "max_payload_size = 45 * 1024 * 1024"

definition max_caption_length :: nat where
  "max_caption_length = 1024"

text \<open>The loop, from \<open>attempt\<close> on with \<open>left\<close> attempts left and the last error.\<close>

fun send_loop ::
  "'w telegram_env \<Rightarrow> channel \<Rightarrow> string \<Rightarrow> string \<Rightarrow> nat \<Rightarrow> nat \<Rightarrow> err \<Rightarrow> 'w \<Rightarrow> err option \<times> 'w" where
  "send_loop env ch payload caption 0 attempt last_err w = (Some (Wrap ''telegram.send: '' last_err), w)"
| "send_loop env ch payload caption (Suc left) attempt last_err w =
     (case te_ctx_err env w of
        Some e \<Rightarrow> (Some (Wrap ''telegram.send: '' e), w)
      | None \<Rightarrow>
     (case send_document env ch payload caption w of
        (None, w) \<Rightarrow> (None, w)
      | (Some e, w) \<Rightarrow>
          if attempt < max_retries \<and> is_retryable e
          then (case te_random env w of (r, w) \<Rightarrow>
               (case te_wait env (backoff attempt r) w of
                  (Some ce, w) \<Rightarrow> (Some (Wrap ''telegram.send: '' ce), w)
                | (None, w) \<Rightarrow> send_loop env ch payload caption left (Suc attempt) e w))
          else send_loop env ch payload caption left (Suc attempt) e w))"

definition telegram_send ::
  "'w telegram_env \<Rightarrow> channel \<Rightarrow> string \<Rightarrow> send_options \<Rightarrow> 'w \<Rightarrow> err option \<times> 'w" where
  "telegram_send env ch payload opts w =
     (if max_payload_size < length payload
      then (Some (Err (''telegram.send: payload '' @ fmt_d (int (length payload)) @ '' bytes exceeds 45 MB limit'')), w)
      else
        (let caption = take max_caption_length (so_caption opts)
         in send_loop env ch payload caption max_retries 1 (Err []) w))"

section \<open>Properties\<close>

text \<open>The pause before attempt \<open>n + 1\<close> doubles with every attempt and stays within a quarter of
  its nominal length, so it is between three quarters of a second and two and a half seconds.\<close>

theorem backoff_bounds:
  assumes "0 \<le> r" and "r < 1" and "1 \<le> n"
  shows "3 * retry_base * 2 ^ (n - 1) \<le> 4 * backoff n r + 3 \<and> 4 * backoff n r \<le> 5 * retry_base * 2 ^ (n - 1)
    \<and> (n < max_retries \<longrightarrow> 750000000 \<le> backoff n r \<and> backoff n r \<le> 2500000000)"
proof -
  let ?d = "retry_base * 2 ^ (n - 1)"
  define x :: rat where "x = 1 - 1 / 4 + 2 * (1 / 4) * r"
  define D :: rat where "D = of_int ?d"
  have "0 \<le> D" by (simp add: D_def retry_base_def second_ns_def)
  moreover have "3 / 4 \<le> x" "x \<le> 5 / 4" using assms by (simp_all add: x_def)
  ultimately have "D * (3 / 4) \<le> D * x" "D * x \<le> D * (5 / 4)" by (intro mult_left_mono; simp)+
  then have q: "of_int (3 * ?d) \<le> 4 * (D * x)" "4 * (D * x) \<le> of_int (5 * ?d)" by (simp_all add: D_def)
  have "backoff n r = \<lfloor>D * x\<rfloor>" by (simp add: backoff_def D_def x_def)
  then have f: "of_int (backoff n r) \<le> D * x" "D * x < of_int (backoff n r) + 1" by linarith+
  have "of_int (3 * ?d) < (of_int (4 * backoff n r + 4) :: rat)" "of_int (4 * backoff n r) \<le> (of_int (5 * ?d) :: rat)"
    using q f by linarith+
  then have bounds: "3 * ?d < 4 * backoff n r + 4" "4 * backoff n r \<le> 5 * ?d"
    by (simp_all only: of_int_less_iff of_int_le_iff)
  have "?d = 1000000000 \<or> ?d = 2000000000" if "n < max_retries"
  proof -
    have "n = 1 \<or> n = 2" using that assms(3) by (auto simp: max_retries_def)
    then show ?thesis by (auto simp: retry_base_def second_ns_def)
  qed
  with bounds show ?thesis by auto
qed

theorem backoff_bounds_witness: "750000000 \<le> backoff 1 (1 / 2) \<and> backoff 1 (1 / 2) \<le> 2500000000"
  using backoff_bounds [of "1 / 2" 1] by (simp add: max_retries_def)

text \<open>What one attempt does to the world, abstractly: \<open>posts\<close> counts the requests.\<close>

lemma send_loop_posts:
  fixes posts :: "'w \<Rightarrow> nat"
  assumes doc: "\<And>w. posts (snd (send_document env ch payload caption w)) = Suc (posts w)"
    and rnd: "\<And>w. posts (snd (te_random env w)) = posts w"
    and wait: "\<And>d w. posts (snd (te_wait env d w)) = posts w"
  shows "posts w \<le> posts (snd (send_loop env ch payload caption left n err w))
    \<and> posts (snd (send_loop env ch payload caption left n err w)) \<le> posts w + left
    \<and> (fst (send_loop env ch payload caption left n err w) = None \<longrightarrow>
        posts w < posts (snd (send_loop env ch payload caption left n err w)))"
proof (induction left arbitrary: n err w)
  case (Suc left)
  obtain e w1 where d: "send_document env ch payload caption w = (e, w1)" by fastforce
  obtain r w2 where r: "te_random env w1 = (r, w2)" by fastforce
  obtain ce w3 where t: "te_wait env (backoff n r) w2 = (ce, w3)" by fastforce
  have "posts w1 = Suc (posts w)" "posts w2 = posts w1" "posts w3 = posts w2"
    using doc [of w] rnd [of w1] wait [of "backoff n r" w2] by (simp_all add: d r t)
  note step = this
  show ?case
  proof (cases "te_ctx_err env w")
    case None
    note ctx = None
    show ?thesis
    proof (cases e)
      case None
      then show ?thesis using ctx step by (simp add: d)
    next
      case (Some x)
      then show ?thesis
        using ctx step Suc.IH [of w1 "Suc n" x] Suc.IH [of w3 "Suc n" x] by (auto simp: d r t split: option.split)
    qed
  qed simp
qed simp


text \<open>The class of an error decides about the pause only, not about the retry: an error that is
  not worth retrying, say a refused token, is retried at once until three requests are made.\<close>

theorem telegram_retries_every_error:
  assumes "\<And>w. te_ctx_err env w = None"
    and "\<And>payload caption w. send_document env ch payload caption w = (Some e, post w)" and "\<not> is_retryable e"
    and "length payload \<le> max_payload_size"
  shows "telegram_send env ch payload opts w = (Some (Wrap ''telegram.send: '' e), post (post (post w)))"
  using assms by (simp add: telegram_send_def max_retries_def Let_def numeral_3_eq_3)

text \<open>An environment that counts the requests and answers all of them alike.\<close>

definition counting_env :: "telegram_response \<Rightarrow> nat telegram_env" where
  "counting_env r =
     \<lparr>te_write_field = \<lambda>_ _. None, te_create_file = None, te_write_file = \<lambda>_. None, te_close_writer = None,
      te_new_request = \<lambda>_. None, te_do = \<lambda>_ _ w. (Inr (Inr []), Suc w), te_decode = \<lambda>_. Inr r,
      te_ctx_err = \<lambda>_. None, te_wait = \<lambda>_ w. (None, w), te_random = \<lambda>w. (0, w)\<rparr>"

definition demo_channel :: channel where
  "demo_channel = \<lparr>ch_token = ''t'', ch_chat = 7, ch_endpoint = default_endpoint\<rparr>"

definition refused :: telegram_response where
  "refused = \<lparr>tr_ok = False, tr_description = ''Unauthorized'', tr_code = 401\<rparr>"

lemma counting_send:
  "send_document (counting_env r) ch payload caption w =
     ((if tr_ok r then None
       else Some (Err (''telegram.send_document: '' @ tr_description r @ '' (code '' @ fmt_d (tr_code r) @ '')''))), Suc w)"
  by (simp add: send_document_def form_error_def counting_env_def)


theorem telegram_retries_every_error_witness:
  "snd (telegram_send (counting_env refused) demo_channel ''digest'' \<lparr>so_filename = [], so_caption = []\<rparr> 0) = 3"
proof -
  let ?e = "Err (''telegram.send_document: '' @ tr_description refused @ '' (code '' @ fmt_d (tr_code refused) @ '')'')"
  have "\<not> is_retryable ?e" by code_simp
  then show ?thesis
    using telegram_retries_every_error [of "counting_env refused" demo_channel ?e Suc "''digest''"
        "\<lparr>so_filename = [], so_caption = []\<rparr>" 0]
    by (simp add: counting_send refused_def max_payload_size_def) (simp add: counting_env_def)
qed

text \<open>Not every server error counts as transient: a gateway timeout (504) is not retried with a
  pause, while a code that merely starts with the digits 429 is.\<close>

theorem retryable_codes:
  "\<not> is_retryable (Err ''telegram.send_document: Gateway Time-out (code 504)'')
   \<and> is_retryable (Err ''telegram.send_document: odd (code 4290)'')"
  by code_simp

end
