(* ===== verification/GoNumbers.thy ===== *)
theory GoNumbers
  imports GoStrings
begin

text \<open>
  What the configuration loader uses of Go's \<open>strconv\<close>, \<open>time\<close> and \<open>flag\<close> to read values:
  \<open>ParseBool\<close>, \<open>Atoi\<close>, \<open>ParseInt\<close> with base 10 and base 0, and \<open>ParseDuration\<close>.  A result is the
  reason of the failure or the value.  Fractions of a duration are computed exactly, where Go
  uses 64-bit floating point.
\<close>

section \<open>Booleans and integers\<close>

datatype num_error = BadSyntax | OutOfRange

fun num_error_text :: "num_error \<Rightarrow> string" where
  "num_error_text BadSyntax = ''invalid syntax''"
| "num_error_text OutOfRange = ''value out of range''"

definition num_error :: "string \<Rightarrow> string \<Rightarrow> num_error \<Rightarrow> err" where
  "num_error func s e = Err (''strconv.'' @ func @ '': parsing '' @ go_quote s @ '': '' @ num_error_text e)"

definition parse_bool :: "string \<Rightarrow> num_error + bool" where
  "parse_bool s =
     (if s \<in> set [''1'', ''t'', ''T'', ''TRUE'', ''true'', ''True''] then Inr True
      else if s \<in> set [''0'', ''f'', ''F'', ''FALSE'', ''false'', ''False''] then Inr False
      else Inl BadSyntax)"

definition lower_byte :: "char \<Rightarrow> nat" where
  "lower_byte c = (if 65 \<le> byte c \<and> byte c \<le> 90 then byte c + 32 else byte c)"

definition digit_of :: "char \<Rightarrow> nat option" where
  "digit_of c =
     (if is_digit c then Some (byte c - 48)
      else if 97 \<le> lower_byte c \<and> lower_byte c \<le> 122 then Some (lower_byte c - 87) else None)"

text \<open>The loop of \<open>ParseUint\<close>; with base 0 underscores are skipped.\<close>

fun uint_digits :: "bool \<Rightarrow> nat \<Rightarrow> nat \<Rightarrow> string \<Rightarrow> num_error + nat" where
  "uint_digits base0 b n [] = Inr n"
| "uint_digits base0 b n (c # cs) =
     (if base0 \<and> c = CHR ''_'' then uint_digits base0 b n cs
      else case digit_of c of
        None \<Rightarrow> Inl BadSyntax
      | Some d \<Rightarrow>
          if b \<le> d then Inl BadSyntax
          else if 2 ^ 64 - 1 < n * b + d then Inl OutOfRange
          else uint_digits base0 b (n * b + d) cs)"

text \<open>\<open>underscoreOK\<close> on a text without its sign: \<open>saw\<close> is 0 before anything, 1 after a digit or a base
  prefix, 2 after an underscore and 3 after anything else.\<close>

fun underscores_ok :: "bool \<Rightarrow> nat \<Rightarrow> string \<Rightarrow> bool" where
  "underscores_ok hex saw [] \<longleftrightarrow> saw \<noteq> 2"
| "underscores_ok hex saw (c # cs) \<longleftrightarrow>
     (if is_digit c \<or> hex \<and> 97 \<le> lower_byte c \<and> lower_byte c \<le> 102 then underscores_ok hex 1 cs
      else if c = CHR ''_'' then saw = 1 \<and> underscores_ok hex 2 cs
      else saw \<noteq> 2 \<and> underscores_ok hex 3 cs)"

definition underscore_ok :: "string \<Rightarrow> bool" where
  "underscore_ok s \<longleftrightarrow>
     (case s of
        c # d # cs \<Rightarrow>
          if c = CHR ''0'' \<and> lower_byte d \<in> {98, 111, 120} then underscores_ok (lower_byte d = 120) 1 cs
          else underscores_ok False 0 s
      | _ \<Rightarrow> underscores_ok False 0 s)"

text \<open>The base and the digits of a text that is read with base 0.\<close>

definition detect_base :: "string \<Rightarrow> nat \<times> string" where
  "detect_base s =
     (case s of
        c # cs \<Rightarrow>
          if c \<noteq> CHR ''0'' then (10, s)
          else (case cs of
              d # e # _ \<Rightarrow>
                if lower_byte d = 98 then (2, tl cs) else if lower_byte d = 111 then (8, tl cs)
                else if lower_byte d = 120 then (16, tl cs) else (8, cs)
            | _ \<Rightarrow> (8, cs))
      | [] \<Rightarrow> (10, s))"

definition parse_uint :: "nat \<Rightarrow> string \<Rightarrow> num_error + nat" where
  "parse_uint base s =
     (if s = [] then Inl BadSyntax
      else let (b, ds) = (if base = 0 then detect_base s else (base, s)) in
        case uint_digits (base = 0) b 0 ds of
          Inl e \<Rightarrow> Inl e
        | Inr n \<Rightarrow> if base = 0 \<and> CHR ''_'' \<in> set ds \<and> \<not> underscore_ok s then Inl BadSyntax else Inr n)"

definition parse_int :: "nat \<Rightarrow> string \<Rightarrow> num_error + int" where
  "parse_int base s =
     (if s = [] then Inl BadSyntax
      else let neg = (hd s = CHR ''-''); ds = (if hd s = CHR ''-'' \<or> hd s = CHR ''+'' then tl s else s) in
        case parse_uint base ds of
          Inl e \<Rightarrow> Inl e
        | Inr n \<Rightarrow>
            if \<not> neg \<and> 2 ^ 63 \<le> n then Inl OutOfRange
            else if neg \<and> 2 ^ 63 < n then Inl OutOfRange
            else Inr (if neg then - int n else int n))"

text \<open>\<open>Atoi\<close> accepts what \<open>ParseInt\<close> accepts with base 10.\<close>

definition atoi :: "string \<Rightarrow> num_error + int" where
  "atoi s = parse_int 10 s"

definition int64 :: "int \<Rightarrow> bool" where
  "int64 n \<longleftrightarrow> - (2 ^ 63) \<le> n \<and> n < 2 ^ 63"

lemma parse_int_range: "parse_int base s = Inr n \<Longrightarrow> int64 n"
  by (auto simp: parse_int_def Let_def int64_def split: if_splits sum.splits)

lemma digit_of_digit: "is_digit c \<Longrightarrow> digit_of c = Some (digit_val c)"
  by (simp add: digit_of_def digit_val_def)

lemma foldl_digits_mono: "m \<le> foldl (\<lambda>n c. 10 * n + digit_val c) m cs"
proof (induction cs arbitrary: m)
  case (Cons d ds)
  have "m \<le> 10 * m + digit_val d" by simp
  also have "\<dots> \<le> foldl (\<lambda>n c. 10 * n + digit_val c) (10 * m + digit_val d) ds" by (rule Cons)
  finally show ?case by simp
qed simp

lemma uint_digits_foldl:
  assumes "list_all is_digit s" and "foldl (\<lambda>n c. 10 * n + digit_val c) n s < 2 ^ 64"
  shows "uint_digits base0 10 n s = Inr (foldl (\<lambda>n c. 10 * n + digit_val c) n s)"
  using assms
proof (induction s arbitrary: n)
  case (Cons c cs)
  have "digit_val c < 10" "c \<noteq> CHR ''_''" using Cons.prems(1) by (auto simp: digit_val_def is_digit_def byte_def)
  moreover have "10 * n + digit_val c < 2 ^ 64"
    using Cons.prems(2) foldl_digits_mono [of "10 * n + digit_val c" cs] by simp
  ultimately show ?case
    using Cons.prems Cons.IH [of "10 * n + digit_val c"] by (simp add: digit_of_digit mult.commute)
qed simp

lemma digits_of_list_all: "list_all is_digit (digits_of k)"
  using digits_of_digits by (auto simp: list_all_iff)

lemma digits_of_head: "0 < n \<Longrightarrow> hd (digits_of n) \<noteq> CHR ''0''"
proof (induction n rule: digits_of.induct)
  case (1 n)
  have "chr (48 + n) \<noteq> chr 48" if "n < 10"
    using that 1(2) by (auto dest!: arg_cong [where f = byte])
  then show ?case using 1 by (cases "n < 10") (auto simp: digits_of.simps [of n] chr_zero [symmetric])
qed

lemma parse_uint_digits:
  assumes "k < 2 ^ 64" and "base = 0 \<or> base = 10"
  shows "parse_uint base (digits_of k) = Inr k"
proof -
  have read: "uint_digits base0 10 0 (digits_of k) = Inr k" for base0
    using uint_digits_foldl [OF digits_of_list_all, of 0 k] nat_of_digits_digits_of [of k] assms(1)
    by (simp add: nat_of_digits_def)
  have plain: "CHR ''_'' \<notin> set (digits_of k)"
    using digits_of_list_all [of k] by (auto simp: list_all_iff is_digit_def byte_def)
  show ?thesis
  proof (cases "k = 0")
    case True
    then show ?thesis
      using assms(2) read by (auto simp: parse_uint_def detect_base_def digits_of.simps [of 0] chr_zero)
  next
    case False
    then have "detect_base (digits_of k) = (10, digits_of k)"
      using digits_of_head [of k] by (cases "digits_of k") (auto simp: detect_base_def)
    then show ?thesis using assms(2) read plain by (auto simp: parse_uint_def)
  qed
qed

text \<open>What \<open>fmt.Sprint\<close> prints of an \<open>int64\<close> is read back.\<close>

lemma parse_int_fmt_d:
  assumes "int64 n" and "base = 0 \<or> base = 10"
  shows "parse_int base (fmt_d n) = Inr n"
proof -
  have "hd (digits_of k) \<noteq> CHR ''-'' \<and> hd (digits_of k) \<noteq> CHR ''+''" for k
    using digits_of_list_all [of k] by (cases "digits_of k") (auto simp: is_digit_def byte_def)
  then show ?thesis
    using assms(1) parse_uint_digits [OF _ assms(2), of "nat n"] parse_uint_digits [OF _ assms(2), of "nat (- n)"]
    by (auto simp: parse_int_def fmt_d_def int64_def Let_def)
qed

lemma atoi_fmt_d: "int64 n \<Longrightarrow> atoi (fmt_d n) = Inr n"
  by (simp add: atoi_def parse_int_fmt_d)

section \<open>Durations\<close>

text \<open>\<open>quote\<close> of package \<open>time\<close>.\<close>

definition time_quote :: "string \<Rightarrow> string" where
  "time_quote s =
     [chr 34]
     @ concat (map (\<lambda>c. if 128 \<le> byte c \<or> byte c < 32 then [chr 92, CHR ''x''] @ hex_byte (byte c)
                        else if c = chr 34 \<or> c = chr 92 then [chr 92, c] else [c]) s)
     @ [chr 34]"

definition units :: "(string \<times> nat) list" where
  "units =
     [(''ns'', 1), (''us'', 1000), (encode_rune 0xB5 @ ''s'', 1000), (encode_rune 0x3BC @ ''s'', 1000),
      (''ms'', 1000000), (''s'', 1000000000), (''m'', 60000000000), (''h'', 3600000000000)]"

definition unit_of :: "string \<Rightarrow> nat option" where
  "unit_of u = map_of units u"

text \<open>\<open>leadingInt\<close>: \<^const>\<open>None\<close> is the overflow.\<close>

fun leading_int :: "nat \<Rightarrow> string \<Rightarrow> (nat \<times> string) option" where
  "leading_int x [] = Some (x, [])"
| "leading_int x (c # cs) =
     (if \<not> is_digit c then Some (x, c # cs)
      else if 2 ^ 63 div 10 < x then None
      else if 2 ^ 63 < x * 10 + digit_val c then None
      else leading_int (x * 10 + digit_val c) cs)"

text \<open>\<open>leadingFraction\<close>: digits that would overflow are read and ignored.\<close>

fun leading_fraction :: "bool \<Rightarrow> nat \<Rightarrow> nat \<Rightarrow> string \<Rightarrow> nat \<times> nat \<times> string" where
  "leading_fraction over x sc [] = (x, sc, [])"
| "leading_fraction over x sc (c # cs) =
     (if \<not> is_digit c then (x, sc, c # cs)
      else if over \<or> (2 ^ 63 - 1) div 10 < x \<or> 2 ^ 63 < x * 10 + digit_val c
      then leading_fraction True x sc cs
      else leading_fraction False (x * 10 + digit_val c) (sc * 10) cs)"

definition unit_char :: "char \<Rightarrow> bool" where
  "unit_char c \<longleftrightarrow> c \<noteq> CHR ''.'' \<and> \<not> is_digit c"

definition bad_duration :: "string \<Rightarrow> err" where
  "bad_duration orig = Err (''time: invalid duration '' @ time_quote orig)"

text \<open>The number in front of a unit: its integer part, its fraction and the scale of the fraction.\<close>

definition leading_number :: "string \<Rightarrow> (nat \<times> nat \<times> nat \<times> string) option" where
  "leading_number s =
     (if \<not> (s \<noteq> [] \<and> (hd s = CHR ''.'' \<or> is_digit (hd s))) then None
      else case leading_int 0 s of
        None \<Rightarrow> None
      | Some (v, s1) \<Rightarrow>
          let pre = length s1 \<noteq> length s in
          if s1 \<noteq> [] \<and> hd s1 = CHR ''.'' then
            (case leading_fraction False 0 1 (tl s1) of
               (f, sc, s2) \<Rightarrow>
                 if \<not> pre \<and> length s2 = length (tl s1) then None else Some (v, f, sc, s2))
          else if pre then Some (v, 0, 1, s1) else None)"

text \<open>One round of the loop: the nanoseconds of a number with its unit, and the rest.\<close>

definition duration_part :: "string \<Rightarrow> string \<Rightarrow> err + nat \<times> string" where
  "duration_part orig s =
     (case leading_number s of
        None \<Rightarrow> Inl (bad_duration orig)
      | Some (v, f, sc, s) \<Rightarrow>
          let u = takeWhile unit_char s in
          if u = [] then Inl (Err (''time: missing unit in duration '' @ time_quote orig))
          else case unit_of u of
            None \<Rightarrow> Inl (Err (''time: unknown unit '' @ time_quote u @ '' in duration '' @ time_quote orig))
          | Some unit \<Rightarrow>
              let ns = v * unit + f * unit div sc in
              if 2 ^ 63 div unit < v \<or> 2 ^ 63 < ns then Inl (bad_duration orig)
              else Inr (ns, dropWhile unit_char s))"

lemma leading_int_rest: "leading_int x s = Some (v, r) \<Longrightarrow> length r \<le> length s"
  by (induction x s rule: leading_int.induct) (auto split: if_splits)

lemma leading_fraction_rest: "leading_fraction over x sc s = (f, sc', r) \<Longrightarrow> length r \<le> length s"
  by (induction over x sc s rule: leading_fraction.induct) (auto split: if_splits)

lemma leading_number_rest: "leading_number s = Some (v, f, sc, r) \<Longrightarrow> length r \<le> length s"
  by (auto simp: leading_number_def Let_def split: if_splits option.splits prod.splits
      dest!: leading_int_rest leading_fraction_rest)

lemma duration_part_shrinks: "duration_part orig s = Inr (n, r) \<Longrightarrow> length r < length s"
proof -
  assume part: "duration_part orig s = Inr (n, r)"
  then obtain v f sc t where t: "leading_number s = Some (v, f, sc, t)"
    by (auto simp: duration_part_def split: option.splits)
  have "takeWhile unit_char t \<noteq> []" "r = dropWhile unit_char t"
    using part by (auto simp: duration_part_def t Let_def split: option.splits if_splits)
  then have "length r < length t"
    by (metis length_append length_greater_0_conv less_add_same_cancel2 takeWhile_dropWhile_id)
  then show ?thesis using leading_number_rest [OF t] by simp
qed

function duration_parts :: "string \<Rightarrow> nat \<Rightarrow> string \<Rightarrow> err + nat" where
  "duration_parts orig d s =
     (if s = [] then Inr d
      else case duration_part orig s of
        Inl e \<Rightarrow> Inl e
      | Inr (n, r) \<Rightarrow> if 2 ^ 63 < d + n then Inl (bad_duration orig) else duration_parts orig (d + n) r)"
  by pat_completeness auto
termination
  by (relation "measure (\<lambda>(orig, d, s). length s)") (auto dest: duration_part_shrinks)

declare duration_parts.simps [simp del]

definition parse_duration :: "string \<Rightarrow> err + duration" where
  "parse_duration orig =
     (let signed = (orig \<noteq> [] \<and> (hd orig = CHR ''-'' \<or> hd orig = CHR ''+''));
          neg = (orig \<noteq> [] \<and> hd orig = CHR ''-'');
          s = (if signed then tl orig else orig)
      in if s = ''0'' then Inr 0
         else if s = [] then Inl (bad_duration orig)
         else case duration_parts orig 0 s of
             Inl e \<Rightarrow> Inl e
           | Inr d \<Rightarrow>
               if neg then Inr (- int d)
               else if 2 ^ 63 - 1 < d then Inl (bad_duration orig) else Inr (int d))"

lemma duration_parts_range: "duration_parts orig d s = Inr n \<Longrightarrow> d \<le> 2 ^ 63 \<Longrightarrow> n \<le> 2 ^ 63"
proof (induction orig d s rule: duration_parts.induct)
  case (1 orig d s)
  then show ?case
    by (cases "s = []") (auto simp: duration_parts.simps [of orig d s] duration_parts.simps [of orig d "[]"] split: sum.splits prod.splits if_splits)
qed

lemma parse_duration_range: "parse_duration s = Inr d \<Longrightarrow> int64 d"
  using duration_parts_range [of s 0]
  by (auto simp: parse_duration_def Let_def int64_def split: if_splits sum.splits)

lemma leading_int_digits:
  assumes "list_all is_digit ds" and "foldl (\<lambda>n c. 10 * n + digit_val c) x ds < 2 ^ 63"
    and "r = [] \<or> \<not> is_digit (hd r)"
  shows "leading_int x (ds @ r) = Some (foldl (\<lambda>n c. 10 * n + digit_val c) x ds, r)"
  using assms(1,2)
proof (induction ds arbitrary: x)
  case Nil
  then show ?case using assms(3) by (cases r) auto
next
  case (Cons c cs)
  have lt: "10 * x + digit_val c < 2 ^ 63" using Cons.prems(2) foldl_digits_mono [of "10 * x + digit_val c" cs] by simp
  then have "\<not> 2 ^ 63 div 10 < x" by simp
  then show ?case using Cons.prems lt Cons.IH [of "10 * x + digit_val c"] by (simp add: mult.commute)
qed

text \<open>A whole number with a unit means what it says, as long as it fits.\<close>

lemma unit_of_chars: "unit_of u = Some unit \<Longrightarrow> u \<noteq> [] \<and> list_all unit_char u \<and> 0 < unit"
proof -
  have "list_all (\<lambda>(u, n). u \<noteq> [] \<and> list_all unit_char u \<and> 0 < n) units" by code_simp
  then show "unit_of u = Some unit \<Longrightarrow> u \<noteq> [] \<and> list_all unit_char u \<and> 0 < unit"
    by (auto simp: unit_of_def list_all_iff dest!: map_of_SomeD)
qed

lemma duration_parts_unit:
  assumes unit: "unit_of u = Some unit" and fits: "n * unit \<le> 2 ^ 63" "n < 2 ^ 63"
  shows "duration_parts orig 0 (digits_of n @ u) = Inr (n * unit)"
proof -
  have u: "u \<noteq> []" "list_all unit_char u" "0 < unit" using unit_of_chars [OF unit] by auto
  note digits = digits_of_list_all [of n]
  have first: "digits_of n \<noteq> []" "is_digit (hd (digits_of n @ u))"
    using digits by (cases "digits_of n"; simp add: digits_of_not_Nil)+
  have rest: "\<not> is_digit (hd u)" "hd u \<noteq> CHR ''.''"
    using u(1,2) by (cases u; simp add: unit_char_def)+
  have "leading_int 0 (digits_of n @ u) = Some (n, u)"
    using leading_int_digits [OF digits, of 0 u] nat_of_digits_digits_of [of n] fits(2) rest
    by (simp add: nat_of_digits_def)
  then have number: "leading_number (digits_of n @ u) = Some (n, 0, 1, u)"
    using first rest u(1) by (simp add: leading_number_def Let_def)
  have whole: "takeWhile unit_char u = u" "dropWhile unit_char u = []"
    using u(2) by (simp_all add: list_all_iff takeWhile_eq_all_conv dropWhile_eq_Nil_conv)
  have "n \<le> 2 ^ 63 div unit" using fits(1) u(3) by (simp add: less_eq_div_iff_mult_less_eq)
  then have "duration_part orig (digits_of n @ u) = Inr (n * unit, [])"
    by (simp add: duration_part_def Let_def number whole u(1) unit) (use fits(1) in simp)
  then show ?thesis
    using first(1) fits(1) by (simp add: duration_parts.simps [of orig 0 "digits_of n @ u"] duration_parts.simps [of orig _ "[]"])
qed

theorem parse_duration_unit:
  assumes "unit_of u = Some unit" and "n * unit < 2 ^ 63"
  shows "parse_duration (digits_of n @ u) = Inr (int (n * unit))
    \<and> parse_duration (CHR ''-'' # digits_of n @ u) = Inr (- int (n * unit))"
proof -
  have u: "u \<noteq> []" "0 < unit" using unit_of_chars [OF assms(1)] by auto
  have "n * 1 \<le> n * unit" using u(2) by (intro mult_le_mono) auto
  then have n: "n < 2 ^ 63" using assms(2) by (simp only: mult_1_right le_less_trans)
  have parts: "duration_parts orig 0 (digits_of n @ u) = Inr (n * unit)" for orig
    using duration_parts_unit [OF assms(1) _ n] assms(2) by simp
  obtain c cs where c: "digits_of n = c # cs" "is_digit c"
    using digits_of_digits [of _ n] digits_of_not_Nil [of n] by (cases "digits_of n") auto
  have sign: "c \<noteq> CHR ''-''" "c \<noteq> CHR ''+''" using c(2) by (auto simp: is_digit_def byte_def)
  have "digits_of n @ u \<noteq> ''0''" using c(1) u(1) by (cases cs) auto
  then show ?thesis using parts c(1) sign assms(2) u(1) by (auto simp: parse_duration_def Let_def)
qed

theorem parse_duration_unit_witness:
  "parse_duration (digits_of 24 @ ''h'') = Inr 86400000000000
    \<and> parse_duration (CHR ''-'' # digits_of 24 @ ''h'') = Inr (- 86400000000000)"
  using parse_duration_unit [where u = "''h''" and unit = 3600000000000 and n = 24] by (simp add: unit_of_def units_def)

end
