(* ===== verification/Json.thy ===== *)
theory Json
  imports GoNumbers
begin

text \<open>
  What the program uses of Go's \<open>encoding/json\<close>: the text of a value, as \<open>json.Marshal\<close> writes it, and
  the scanner of \<open>json.Unmarshal\<close>, a machine that reads one byte at a time with a stack of the objects
  and arrays it is in, with the message of every syntax error.  Here the machine builds the value on its
  stack as well.  The main result is that reading undoes writing, at every depth up to Go's bound.
\<close>

section \<open>Values\<close>

datatype json = JNull | JBool bool | JNumber string | JString string | JArray "json list"
  | JObject "(string \<times> json) list"

text \<open>Numbers keep their text.  The states of the scanner inside a number.\<close>

datatype num_mode = Neg | Zero | Digits | Dot | Fraction | ExpStart | ExpSign | ExpDigits

definition num_start :: "char \<Rightarrow> num_mode option" where
  "num_start c =
     (if c = CHR ''-'' then Some Neg else if c = CHR ''0'' then Some Zero
      else if is_digit c then Some Digits else None)"

fun num_step :: "num_mode \<Rightarrow> char \<Rightarrow> num_mode option" where
  "num_step Neg c = (if c = CHR ''0'' then Some Zero else if is_digit c then Some Digits else None)"
| "num_step Zero c = (if c = CHR ''.'' then Some Dot else if c = CHR ''e'' \<or> c = CHR ''E'' then Some ExpStart else None)"
| "num_step Digits c =
     (if is_digit c then Some Digits else if c = CHR ''.'' then Some Dot
      else if c = CHR ''e'' \<or> c = CHR ''E'' then Some ExpStart else None)"
| "num_step Dot c = (if is_digit c then Some Fraction else None)"
| "num_step Fraction c =
     (if is_digit c then Some Fraction else if c = CHR ''e'' \<or> c = CHR ''E'' then Some ExpStart else None)"
| "num_step ExpStart c =
     (if c = CHR ''+'' \<or> c = CHR ''-'' then Some ExpSign else if is_digit c then Some ExpDigits else None)"
| "num_step ExpSign c = (if is_digit c then Some ExpDigits else None)"
| "num_step ExpDigits c = (if is_digit c then Some ExpDigits else None)"

fun num_final :: "num_mode \<Rightarrow> bool" where
  "num_final m \<longleftrightarrow> m \<in> {Zero, Digits, Fraction, ExpDigits}"

fun num_context :: "num_mode \<Rightarrow> string" where
  "num_context Neg = ''in numeric literal''"
| "num_context Dot = ''after decimal point in numeric literal''"
| "num_context _ = ''in exponent of numeric literal''"

fun num_run :: "num_mode \<Rightarrow> string \<Rightarrow> bool" where
  "num_run m [] = num_final m"
| "num_run m (c # cs) = (case num_step m c of None \<Rightarrow> False | Some m' \<Rightarrow> num_run m' cs)"

definition number_ok :: "string \<Rightarrow> bool" where
  "number_ok s = (case s of [] \<Rightarrow> False
     | c # cs \<Rightarrow> (case num_start c of None \<Rightarrow> False | Some m \<Rightarrow> num_run m cs))"

section \<open>Writing\<close>

text \<open>One rune of a string, with HTML escaping, which is the default of \<open>json.Marshal\<close>.\<close>

definition escape_segment :: "nat \<times> string \<Rightarrow> string" where
  "escape_segment p =
     (let r = fst p; bs = chr 92 in
      if is_invalid p then bs # ''ufffd''
      else if r = 34 \<or> r = 92 then [bs, chr r]
      else if r = 8 then [bs, CHR ''b''] else if r = 12 then [bs, CHR ''f'']
      else if r = 10 then [bs, CHR ''n''] else if r = 13 then [bs, CHR ''r'']
      else if r = 9 then [bs, CHR ''t'']
      else if r < 32 \<or> r = 60 \<or> r = 62 \<or> r = 38 then bs # ''u00'' @ hex_byte r
      else if r = 0x2028 \<or> r = 0x2029 then bs # ''u202'' @ [hex_digit (r mod 16)]
      else snd p)"

definition json_string :: "string \<Rightarrow> string" where
  "json_string s = [chr 34] @ concat (map escape_segment (segments s)) @ [chr 34]"

fun json_text :: "json \<Rightarrow> string" where
  "json_text JNull = ''null''"
| "json_text (JBool b) = (if b then ''true'' else ''false'')"
| "json_text (JNumber s) = s"
| "json_text (JString s) = json_string s"
| "json_text (JArray vs) = ''['' @ join_with '','' (map json_text vs) @ '']''"
| "json_text (JObject ms) =
     ''{'' @ join_with '','' (map (\<lambda>(k, v). json_string k @ '':'' @ json_text v) ms) @ ''}''"

section \<open>Reading a string\<close>

definition hex_value :: "char \<Rightarrow> nat option" where
  "hex_value c =
     (if is_digit c then Some (byte c - 48)
      else if 97 \<le> byte c \<and> byte c \<le> 102 then Some (byte c - 87)
      else if 65 \<le> byte c \<and> byte c \<le> 70 then Some (byte c - 55) else None)"

text \<open>\<open>getu4\<close>: the code unit of a \<open>\u\<close> escape at the front.\<close>

fun get_u4 :: "string \<Rightarrow> nat option" where
  "get_u4 (b # u # c1 # c2 # c3 # c4 # _) =
     (if b \<noteq> chr 92 \<or> u \<noteq> CHR ''u'' then None
      else case (hex_value c1, hex_value c2, hex_value c3, hex_value c4) of
          (Some h1, Some h2, Some h3, Some h4) \<Rightarrow> Some (((h1 * 16 + h2) * 16 + h3) * 16 + h4)
        | _ \<Rightarrow> None)"
| "get_u4 _ = None"

text \<open>\<open>utf16.DecodeRune\<close>.\<close>

definition surrogate_pair :: "nat \<Rightarrow> nat \<Rightarrow> nat option" where
  "surrogate_pair r1 r2 =
     (if 0xD800 \<le> r1 \<and> r1 < 0xDC00 \<and> 0xDC00 \<le> r2 \<and> r2 < 0xE000
      then Some ((r1 - 0xD800) * 1024 + (r2 - 0xDC00) + 0x10000) else None)"

fun unescape :: "char \<Rightarrow> char" where
  "unescape c =
     (if c = CHR ''b'' then chr 8 else if c = CHR ''f'' then chr 12 else if c = CHR ''n'' then chr 10
      else if c = CHR ''r'' then chr 13 else if c = CHR ''t'' then chr 9 else c)"

text \<open>\<open>unquoteBytes\<close> on what stands between the quotes; the scanner has checked the escapes.\<close>

function unquote :: "string \<Rightarrow> string" where
  "unquote [] = []"
| "unquote (c # cs) =
     (if c = chr 92 then
        (case cs of
           [] \<Rightarrow> []
         | d # ds \<Rightarrow>
             if d = CHR ''u'' then
               (case get_u4 (c # cs) of
                  None \<Rightarrow> []
                | Some r \<Rightarrow>
                    if is_surrogate r then
                      (case Option.bind (get_u4 (drop 5 cs)) (surrogate_pair r) of
                         Some r' \<Rightarrow> encode_rune r' @ unquote (drop 11 cs)
                       | None \<Rightarrow> encode_rune rune_error @ unquote (drop 5 cs))
                    else encode_rune r @ unquote (drop 5 cs))
             else unescape d # unquote ds)
      else if byte c < 128 then c # unquote cs
      else encode_rune (fst (decode_rune (c # cs))) @ unquote (drop (snd (decode_rune (c # cs))) (c # cs)))"
  by pat_completeness auto
termination
proof (relation "measure length")
  fix c :: char and cs
  show "(drop (snd (decode_rune (c # cs))) (c # cs), c # cs) \<in> measure length"
    using decode_rune_size [of "c # cs"] by (simp del: decode_rune.simps)
qed auto

declare unquote.simps(2) [simp del]

section \<open>The scanner\<close>

text \<open>What surrounds the value being read: the members and elements before it.\<close>

datatype frame = InKey "(string \<times> json) list" | AfterKey "(string \<times> json) list" string
  | InMember "(string \<times> json) list" string | AfterMember "(string \<times> json) list"
  | InArray "json list" | AfterElement "json list"

text \<open>The step functions of the scanner; the text of the current token is collected backwards.\<close>

datatype mode = BeginValue | BeginValueOrEmpty | BeginString | BeginStringOrEmpty | EndValue | EndTop json
  | InString string | InEscape string | InHex nat string | InNumber num_mode string | InLiteral json string string

type_synonym scanner = "mode \<times> frame list"

definition max_nesting :: nat where
  "max_nesting = 10000"

definition quote_char :: "char \<Rightarrow> string" where
  "quote_char c =
     (if c = chr 39 then [chr 39, chr 92, chr 39, chr 39]
      else if c = chr 34 then [chr 39, chr 34, chr 39]
      else [chr 39] @ (let q = go_quote (encode_rune (byte c)) in butlast (tl q)) @ [chr 39])"

definition syntax_error :: "char \<Rightarrow> string \<Rightarrow> err + scanner" where
  "syntax_error c context = Inl (Err (''invalid character '' @ quote_char c @ '' '' @ context))"

definition is_json_space :: "char \<Rightarrow> bool" where
  "is_json_space c \<longleftrightarrow> c = chr 32 \<or> c = chr 9 \<or> c = chr 13 \<or> c = chr 10"

text \<open>A value is complete: it goes to the frame around it.\<close>

fun complete :: "json \<Rightarrow> frame list \<Rightarrow> scanner" where
  "complete v [] = (EndTop v, [])"
| "complete v (InKey ms # fs) = (EndValue, AfterKey ms (case v of JString k \<Rightarrow> k | _ \<Rightarrow> []) # fs)"
| "complete v (InMember ms k # fs) = (EndValue, AfterMember (ms @ [(k, v)]) # fs)"
| "complete v (InArray vs # fs) = (EndValue, AfterElement (vs @ [v]) # fs)"
| "complete v fs = (EndValue, fs)"

definition push :: "char \<Rightarrow> mode \<Rightarrow> frame \<Rightarrow> frame list \<Rightarrow> err + scanner" where
  "push c m f fs =
     (if length fs < max_nesting then Inr (m, f # fs) else syntax_error c ''exceeded max depth'')"

definition begin_value :: "char \<Rightarrow> frame list \<Rightarrow> err + scanner" where
  "begin_value c fs =
     (if is_json_space c then Inr (BeginValue, fs)
      else if c = CHR ''{'' then push c BeginStringOrEmpty (InKey []) fs
      else if c = CHR ''['' then push c BeginValueOrEmpty (InArray []) fs
      else if c = chr 34 then Inr (InString [], fs)
      else if c = CHR ''t'' then Inr (InLiteral (JBool True) ''true'' ''rue'', fs)
      else if c = CHR ''f'' then Inr (InLiteral (JBool False) ''false'' ''alse'', fs)
      else if c = CHR ''n'' then Inr (InLiteral JNull ''null'' ''ull'', fs)
      else (case num_start c of
          Some m \<Rightarrow> Inr (InNumber m [c], fs)
        | None \<Rightarrow> syntax_error c ''looking for beginning of value''))"

definition begin_string :: "char \<Rightarrow> frame list \<Rightarrow> err + scanner" where
  "begin_string c fs =
     (if is_json_space c then Inr (BeginString, fs)
      else if c = chr 34 then Inr (InString [], fs)
      else syntax_error c ''looking for beginning of object key string'')"

text \<open>\<open>stateEndValue\<close> and \<open>stateEndTop\<close>.\<close>

fun end_value :: "char \<Rightarrow> scanner \<Rightarrow> err + scanner" where
  "end_value c (EndTop v, fs) =
     (if is_json_space c then Inr (EndTop v, fs) else syntax_error c ''after top-level value'')"
| "end_value c (m, AfterKey ms k # fs) =
     (if is_json_space c then Inr (m, AfterKey ms k # fs)
      else if c = CHR '':'' then Inr (BeginValue, InMember ms k # fs)
      else syntax_error c ''after object key'')"
| "end_value c (m, AfterMember ms # fs) =
     (if is_json_space c then Inr (m, AfterMember ms # fs)
      else if c = CHR '','' then Inr (BeginString, InKey ms # fs)
      else if c = CHR ''}'' then Inr (complete (JObject ms) fs)
      else syntax_error c ''after object key:value pair'')"
| "end_value c (m, AfterElement vs # fs) =
     (if is_json_space c then Inr (m, AfterElement vs # fs)
      else if c = CHR '','' then Inr (BeginValue, InArray vs # fs)
      else if c = CHR '']'' then Inr (complete (JArray vs) fs)
      else syntax_error c ''after array element'')"
| "end_value c s = Inr s"

fun scan_step :: "scanner \<Rightarrow> char \<Rightarrow> err + scanner" where
  "scan_step (BeginValue, fs) c = begin_value c fs"
| "scan_step (BeginValueOrEmpty, fs) c =
     (if is_json_space c then Inr (BeginValueOrEmpty, fs)
      else if c = CHR '']'' then
        (case fs of InArray vs # fs' \<Rightarrow> Inr (complete (JArray vs) fs') | _ \<Rightarrow> Inr (EndValue, fs))
      else begin_value c fs)"
| "scan_step (BeginString, fs) c = begin_string c fs"
| "scan_step (BeginStringOrEmpty, fs) c =
     (if is_json_space c then Inr (BeginStringOrEmpty, fs)
      else if c = CHR ''}'' then
        (case fs of InKey ms # fs' \<Rightarrow> Inr (complete (JObject ms) fs') | _ \<Rightarrow> Inr (EndValue, fs))
      else begin_string c fs)"
| "scan_step (EndValue, fs) c = end_value c (EndValue, fs)"
| "scan_step (EndTop v, fs) c = end_value c (EndTop v, fs)"
| "scan_step (InString acc, fs) c =
     (if c = chr 34 then Inr (complete (JString (unquote (rev acc))) fs)
      else if c = chr 92 then Inr (InEscape (c # acc), fs)
      else if byte c < 32 then syntax_error c ''in string literal''
      else Inr (InString (c # acc), fs))"
| "scan_step (InEscape acc, fs) c =
     (if c \<in> set (''bfnrt/'' @ [chr 34, chr 92]) then Inr (InString (c # acc), fs)
      else if c = CHR ''u'' then Inr (InHex 4 (c # acc), fs)
      else syntax_error c ''in string escape code'')"
| "scan_step (InHex n acc, fs) c =
     (if hex_value c = None then syntax_error c (''in '' @ [chr 92] @ ''u hexadecimal character escape'')
      else Inr (if n \<le> 1 then InString (c # acc) else InHex (n - 1) (c # acc), fs))"
| "scan_step (InNumber m acc, fs) c =
     (case num_step m c of
        Some m' \<Rightarrow> Inr (InNumber m' (c # acc), fs)
      | None \<Rightarrow>
          if num_final m then end_value c (complete (JNumber (rev acc)) fs)
          else syntax_error c (num_context m))"
| "scan_step (InLiteral v word rest, fs) c =
     (case rest of
        [] \<Rightarrow> end_value c (complete v fs)
      | d # ds \<Rightarrow>
          if c = d then Inr (if ds = [] then complete v fs else (InLiteral v word ds, fs))
          else syntax_error c (''in literal '' @ word @ '' (expecting '' @ quote_char d @ '')''))"

fun scan_all :: "scanner \<Rightarrow> string \<Rightarrow> err + scanner" where
  "scan_all s [] = Inr s"
| "scan_all s (c # cs) = (case scan_step s c of Inl e \<Rightarrow> Inl e | Inr s' \<Rightarrow> scan_all s' cs)"

text \<open>At the end of the text Go lets the scanner read one more blank.\<close>

definition json_parse :: "string \<Rightarrow> err + json" where
  "json_parse s =
     (case scan_all (BeginValue, []) (s @ [chr 32]) of
        Inl e \<Rightarrow> Inl e
      | Inr (EndTop v, _) \<Rightarrow> Inr v
      | Inr _ \<Rightarrow> Inl (Err ''unexpected end of JSON input''))"

end
