(* ===== verification/JsonText.thy ===== *)
theory JsonText
  imports Json
begin

text \<open>
  The text of a JSON value scans back to the value: first for strings, rune by rune, then for numbers,
  literals, arrays and objects, each lemma for any stack of surrounding frames, in the way a compiler is
  proved correct for code in any context.  The result is \<open>json_roundtrip\<close>.
\<close>

section \<open>Strings\<close>

text \<open>What a string becomes on the way through JSON: invalid bytes are replaced.\<close>

definition valid_text :: "string \<Rightarrow> string" where
  "valid_text s = string_of_runes (runes_of s)"

lemma hex_value_digit [simp]: "n < 16 \<Longrightarrow> hex_value (hex_digit n) = Some n"
proof -
  assume "n < 16"
  then have "n \<in> set [0..<16]" by simp
  moreover have "\<forall>n \<in> set [0..<16]. hex_value (hex_digit n) = Some n" by code_simp
  ultimately show ?thesis by blast
qed

lemma hex_zero: "CHR ''0'' = hex_digit 0" "CHR ''2'' = hex_digit 2" "CHR ''f'' = hex_digit 15" "CHR ''d'' = hex_digit 13"
  by code_simp+

lemma unquote_u4:
  assumes "h1 < 16" "h2 < 16" "h3 < 16" "h4 < 16" and "r = ((h1 * 16 + h2) * 16 + h3) * 16 + h4" "\<not> is_surrogate r"
  shows "unquote (chr 92 # CHR ''u'' # hex_digit h1 # hex_digit h2 # hex_digit h3 # hex_digit h4 # s)
    = encode_rune r @ unquote s"
  using assms by (simp add: unquote.simps(2))

lemma chr_eq_iff: "m < 256 \<Longrightarrow> n < 256 \<Longrightarrow> chr m = chr n \<longleftrightarrow> m = n"
  by (metis byte_chr)

lemma unquote_plain: "byte c < 128 \<Longrightarrow> c \<noteq> chr 92 \<Longrightarrow> unquote (c # s) = c # unquote s"
  by (simp add: unquote.simps(2))

lemma unquote_escape: "d \<noteq> CHR ''u'' \<Longrightarrow> unquote (chr 92 # d # s) = unescape d # unquote s"
  by (simp add: unquote.simps(2))

lemma high_bytes:
  assumes "128 \<le> r" "c \<in> set (encode_rune r)"
  shows "128 \<le> byte c"
proof (cases "r \<le> max_rune")
  case True
  then have "r div 262144 < 8" "r div 4096 mod 64 < 64" by (simp_all add: max_rune_def div_less_iff_less_mult)
  then show ?thesis
    using assms by (auto simp: encode_rune_def div_less_iff_less_mult split: if_splits)
qed (use assms in \<open>auto simp: encode_rune_def max_rune_def split: if_splits\<close>)

lemma unquote_rune:
  assumes "scalar r" "128 \<le> r"
  shows "unquote (encode_rune r @ s) = encode_rune r @ unquote s"
proof -
  obtain c t where ct: "encode_rune r = c # t" by (cases "encode_rune r") auto
  then have "128 \<le> byte c" using high_bytes [OF assms(2), of c] by simp
  then have "c \<noteq> chr 92" by auto
  then show ?thesis
    using \<open>128 \<le> byte c\<close> decode_encode [OF assms(1), of s] ct
    by (simp add: unquote.simps(2) del: decode_rune.simps)
qed

lemma unquote_segment:
  assumes "p \<in> set (segments s0)"
  shows "unquote (escape_segment p @ s) = encode_rune (fst p) @ unquote s"
proof (cases "is_invalid p")
  case True
  then show ?thesis
    using unquote_u4 [of 15 15 15 13 rune_error s]
    by (simp add: escape_segment_def Let_def is_invalid_def hex_zero rune_error_def is_surrogate_def)
next
  case False
  define r where "r = fst p"
  have p: "snd p = encode_rune r" using segment_encode [OF assms False] by (simp add: r_def)
  have scalar: "scalar r" using segments_valid(1) assms unfolding r_def by (metis prod.collapse)
  have escape: "unescape (chr r) = chr r" "chr r \<noteq> CHR ''u''" if "r = 34 \<or> r = 92"
  proof -
    have "unescape (chr 34) = chr 34" "unescape (chr 92) = chr 92" "chr 34 \<noteq> CHR ''u''" "chr 92 \<noteq> CHR ''u''"
      by code_simp+
    then show "unescape (chr r) = chr r" "chr r \<noteq> CHR ''u''" using that by auto
  qed
  consider (quoted) "r = 34 \<or> r = 92" | (control) "r = 8 \<or> r = 12 \<or> r = 10 \<or> r = 13 \<or> r = 9"
    | (hex) "r < 32 \<or> r = 60 \<or> r = 62 \<or> r = 38" "r \<notin> {8, 9, 10, 12, 13}" | (sep) "r = 0x2028 \<or> r = 0x2029"
    | (plain) "32 \<le> r" "r < 128" "r \<notin> {34, 92, 60, 62, 38}" | (wide) "128 \<le> r" "r \<noteq> 0x2028" "r \<noteq> 0x2029"
    by fastforce
  then show ?thesis
  proof cases
    case quoted
    then have "escape_segment p = [chr 92, chr r]" "encode_rune r = [chr r]"
      using False by (auto simp: escape_segment_def Let_def r_def [symmetric] encode_rune_def)
    then show ?thesis
      using quoted by (simp add: r_def [symmetric] unquote_escape escape del: unescape.simps)
  next
    case control
    have letters: "CHR ''b'' \<noteq> CHR ''u''" "unescape (CHR ''b'') = chr 8" "unescape (CHR ''f'') = chr 12"
      "unescape (CHR ''n'') = chr 10" "unescape (CHR ''r'') = chr 13" "unescape (CHR ''t'') = chr 9"
      by code_simp+
    show ?thesis using control False
      by (elim disjE) (simp_all add: escape_segment_def Let_def r_def [symmetric] unquote_escape letters
          encode_rune_def del: unescape.simps)
  next
    case hex
    then have "r < 128" "r div 16 < 16" by auto
    then show ?thesis using False hex unquote_u4 [of 0 0 "r div 16" "r mod 16" r s]
      by (auto simp: escape_segment_def Let_def r_def [symmetric] hex_byte_def hex_zero(1) is_surrogate_def)
  next
    case sep
    then show ?thesis using False unquote_u4 [of 2 0 2 "r mod 16" r s]
      by (auto simp: escape_segment_def Let_def r_def [symmetric] hex_zero(1,2) is_surrogate_def)
  next
    case plain
    then have "chr r \<noteq> chr 92" by (simp add: chr_eq_iff)
    then show ?thesis using False plain
      by (simp add: escape_segment_def Let_def r_def [symmetric] p encode_rune_def unquote_plain)
  next
    case wide
    then show ?thesis using False p scalar unquote_rune
      by (simp add: escape_segment_def Let_def r_def [symmetric])
  qed
qed

lemma unquote_escaped: "unquote (concat (map escape_segment (segments s))) = valid_text s"
proof -
  have "unquote (concat (map escape_segment ps)) = concat (map (\<lambda>p. encode_rune (fst p)) ps)"
    if "set ps \<subseteq> set (segments s)" for ps
    using that by (induction ps) (auto simp: unquote_segment)
  then show ?thesis by (simp add: valid_text_def string_of_runes_def runes_of_def o_def)
qed


section \<open>Scanning what was written\<close>

text \<open>A piece of a string literal that leaves the scanner inside the string.\<close>

definition in_string :: "string \<Rightarrow> bool" where
  "in_string p \<longleftrightarrow> (\<forall>acc fs s. scan_all (InString acc, fs) (p @ s) = scan_all (InString (rev p @ acc), fs) s)"

lemma in_string_append: "in_string p \<Longrightarrow> in_string q \<Longrightarrow> in_string (p @ q)"
  by (simp add: in_string_def)

lemma in_string_concat: "(\<And>p. p \<in> set ps \<Longrightarrow> in_string p) \<Longrightarrow> in_string (concat ps)"
  by (induction ps) (simp_all add: in_string_append, simp add: in_string_def)

lemma in_string_plain: "(\<And>c. c \<in> set p \<Longrightarrow> 32 \<le> byte c \<and> c \<noteq> chr 34 \<and> c \<noteq> chr 92) \<Longrightarrow> in_string p"
proof (induction p)
  case (Cons c p)
  then have "\<not> byte c < 32" "c \<noteq> chr 34" "c \<noteq> chr 92" "in_string p" by force+
  then show ?case by (simp add: in_string_def)
qed (simp add: in_string_def)

lemma in_string_escape: "c \<in> set (''bfnrt/'' @ [chr 34, chr 92]) \<Longrightarrow> in_string [chr 92, c]"
  by (simp add: in_string_def chr_eq_iff)

lemma in_string_u4:
  "h1 < 16 \<Longrightarrow> h2 < 16 \<Longrightarrow> h3 < 16 \<Longrightarrow> h4 < 16 \<Longrightarrow>
     in_string [chr 92, CHR ''u'', hex_digit h1, hex_digit h2, hex_digit h3, hex_digit h4]"
proof -
  have "CHR ''u'' \<notin> set (''bfnrt/'' @ [chr 34, chr 92])" "chr 92 \<noteq> chr 34" by code_simp+
  then show "in_string [chr 92, CHR ''u'', hex_digit h1, hex_digit h2, hex_digit h3, hex_digit h4]"
    if "h1 < 16" "h2 < 16" "h3 < 16" "h4 < 16"
    using that by (simp add: in_string_def del: set_append)
qed

lemma in_string_segment:
  assumes "p \<in> set (segments s0)"
  shows "in_string (escape_segment p)"
proof (cases "is_invalid p")
  case True
  then show ?thesis using in_string_u4 [of 15 15 15 13] by (simp add: escape_segment_def Let_def hex_zero)
next
  case False
  define r where "r = fst p"
  have p: "snd p = encode_rune r" using segment_encode [OF assms False] by (simp add: r_def)
  consider "r = 34 \<or> r = 92 \<or> r = 8 \<or> r = 12 \<or> r = 10 \<or> r = 13 \<or> r = 9"
    | "r < 32 \<or> r = 60 \<or> r = 62 \<or> r = 38" "r \<notin> {8, 9, 10, 12, 13}" | "r = 0x2028 \<or> r = 0x2029"
    | "32 \<le> r" "r < 128" "r \<notin> {34, 92, 60, 62, 38}" | "128 \<le> r" "r \<noteq> 0x2028" "r \<noteq> 0x2029"
    by fastforce
  then show ?thesis
  proof cases
    case 1
    then show ?thesis using False
      by (auto simp: escape_segment_def Let_def r_def [symmetric] intro!: in_string_escape)
  next
    case 2
    then have "r < 128" "r div 16 < 16" by auto
    then show ?thesis using False 2 in_string_u4 [of 0 0 "r div 16" "r mod 16"]
      by (auto simp: escape_segment_def Let_def r_def [symmetric] hex_byte_def hex_zero(1))
  next
    case 3
    then show ?thesis using False in_string_u4 [of 2 0 2 "r mod 16"]
      by (auto simp: escape_segment_def Let_def r_def [symmetric] hex_zero(1,2))
  next
    case 4
    then have "chr r \<noteq> chr 92" "chr r \<noteq> chr 34" by (simp_all add: chr_eq_iff)
    then show ?thesis using False 4
      by (auto simp: escape_segment_def Let_def r_def [symmetric] p encode_rune_def intro!: in_string_plain)
  next
    case 5
    have "32 \<le> byte c \<and> c \<noteq> chr 34 \<and> c \<noteq> chr 92" if "c \<in> set (encode_rune r)" for c
      using high_bytes [OF 5(1) that] by auto
    then have "in_string (encode_rune r)" by (intro in_string_plain) blast
    then show ?thesis using False 5 p by (simp add: escape_segment_def Let_def r_def [symmetric])
  qed
qed

lemma scan_string:
  "scan_all (InString [], fs) (concat (map escape_segment (segments s)) @ chr 34 # t)
     = scan_all (complete (JString (valid_text s)) fs) t"
proof -
  have "in_string (concat (map escape_segment (segments s)))"
    by (intro in_string_concat) (auto intro: in_string_segment)
  then show ?thesis by (simp add: in_string_def unquote_escaped)
qed


section \<open>Values\<close>

fun json_ok :: "json \<Rightarrow> bool" where
  "json_ok (JNumber s) = number_ok s"
| "json_ok (JArray vs) = list_all json_ok vs"
| "json_ok (JObject ms) = list_all (\<lambda>(k, v). json_ok v) ms"
| "json_ok _ = True"

fun nesting :: "json \<Rightarrow> nat" where
  "nesting (JArray vs) = Suc (foldr max (map nesting vs) 0)"
| "nesting (JObject ms) = Suc (foldr max (map (\<lambda>(k, v). nesting v) ms) 0)"
| "nesting _ = 0"

text \<open>The value that is read back: every string has become valid UTF-8.\<close>

fun clean_json :: "json \<Rightarrow> json" where
  "clean_json (JString s) = JString (valid_text s)"
| "clean_json (JArray vs) = JArray (map clean_json vs)"
| "clean_json (JObject ms) = JObject (map (\<lambda>(k, v). (valid_text k, clean_json v)) ms)"
| "clean_json v = v"

lemma foldr_max_ge: "n \<in> set ns \<Longrightarrow> n \<le> foldr max ns (0 :: nat)"
  by (induction ns) auto

definition delimiter :: "char \<Rightarrow> bool" where
  "delimiter c \<longleftrightarrow> c = CHR '','' \<or> c = CHR '']'' \<or> c = CHR ''}'' \<or> c = chr 32"

definition scans :: "json \<Rightarrow> bool" where
  "scans v \<longleftrightarrow> (\<forall>fs c t. length fs + nesting v \<le> max_nesting \<longrightarrow> delimiter c \<longrightarrow>
     scan_all (BeginValue, fs) (json_text v @ c # t) = scan_all (complete (clean_json v) fs) (c # t))"

lemma scan_complete: "scan_step (complete v fs) c = end_value c (complete v fs)"
  by (cases "(v, fs)" rule: complete.cases) auto

lemma chr_literals: "chr 32 = CHR 0x20" "chr 9 = CHR 0x09" "chr 13 = CHR 0x0D" "chr 10 = CHR 0x0A" "chr 34 = CHR 0x22"
  by code_simp+

lemma is_digit_cases: "is_digit d \<Longrightarrow> d \<in> set ''0123456789''"
proof -
  assume "is_digit d"
  then have "byte d \<in> set [48..<58]" by (simp add: is_digit_def del: upt.simps upt_rec_numeral)
  moreover have "\<forall>n \<in> set [48..<58]. chr n \<in> set ''0123456789''" by code_simp
  ultimately show ?thesis by (metis chr_byte)
qed

lemma delimiter_ends: "delimiter c \<Longrightarrow> num_step m c = None"
  unfolding delimiter_def chr_literals by (cases m) (auto simp: is_digit_def byte_def)

lemma scan_number:
  assumes "num_run m cs" and "delimiter c"
  shows "scan_all (InNumber m acc, fs) (cs @ c # t) = scan_all (complete (JNumber (rev acc @ cs)) fs) (c # t)"
  using assms(1)
proof (induction m cs arbitrary: acc rule: num_run.induct)
  case (1 m)
  then show ?case using delimiter_ends [OF assms(2)] scan_complete by simp
next
  case (2 m d ds)
  then obtain m' where m': "num_step m d = Some m'" "num_run m' ds" by (simp split: option.splits)
  show ?case using "2.IH" [OF m', of "d # acc"] by (simp add: m'(1))
qed

lemma num_start_begin: "num_start d = Some m \<Longrightarrow> begin_value d fs = Inr (InNumber m [d], fs)"
proof -
  assume m: "num_start d = Some m"
  then have "d \<in> set ''-0123456789''" using is_digit_cases [of d] by (auto simp: num_start_def split: if_splits)
  then have "\<not> is_json_space d \<and> d \<noteq> CHR ''{'' \<and> d \<noteq> CHR ''['' \<and> d \<noteq> chr 34 \<and> d \<notin> set ''tfn''"
    unfolding is_json_space_def chr_literals set_simps by (elim insertE) simp_all
  then show ?thesis using m by (simp add: begin_value_def)
qed

lemma scans_number: "number_ok n \<Longrightarrow> scans (JNumber n)"
  unfolding number_ok_def scans_def
  by (auto simp: num_start_begin scan_number simp del: scan_all.simps(2) num_run.simps split: list.splits option.splits)
    (simp add: num_start_begin scan_number)


lemma scans_literal: "scans JNull" "scans (JBool b)"
  unfolding scans_def by (cases b; simp add: begin_value_def is_json_space_def chr_literals)+

lemma scans_string: "scans (JString s)"
  by (simp add: scans_def json_string_def begin_value_def is_json_space_def chr_literals)
    (simp add: scan_string flip: chr_literals)

lemma delimiters [simp]: "delimiter (CHR '','')" "delimiter (CHR '']'')" "delimiter (CHR ''}'')" "delimiter (chr 32)"
  by (simp_all add: delimiter_def)

lemma spaces [simp]: "\<not> is_json_space (CHR '','')" "\<not> is_json_space (CHR '']'')" "\<not> is_json_space (CHR ''}'')"
  "\<not> is_json_space (CHR '':'')" "\<not> is_json_space (chr 34)" "\<not> is_json_space (CHR ''['')"
  "\<not> is_json_space (CHR ''{'')" "is_json_space (chr 32)"
  by (simp_all add: is_json_space_def chr_literals)

lemma scan_elements:
  assumes "\<And>v. v \<in> set (v0 # vs) \<Longrightarrow> scans v \<and> Suc (length fs) + nesting v \<le> max_nesting"
  shows "scan_all (BeginValue, InArray us # fs) (join_with '','' (map json_text (v0 # vs)) @ CHR '']'' # t)
     = scan_all (complete (JArray (us @ map clean_json (v0 # vs))) fs) t"
  using assms
proof (induction vs arbitrary: us v0)
  case Nil
  then show ?case by (simp add: scans_def)
next
  case (Cons v vs)
  have "scan_all (BeginValue, InArray us # fs) (join_with '','' (map json_text (v0 # v # vs)) @ CHR '']'' # t)
      = scan_all (BeginValue, InArray (us @ [clean_json v0]) # fs)
          (join_with '','' (map json_text (v # vs)) @ CHR '']'' # t)"
    using Cons.prems [of v0] by (simp add: scans_def)
  then show ?case using Cons.IH [of v "us @ [clean_json v0]"] Cons.prems by simp
qed

lemma scan_member:
  assumes "scans v" "Suc (length fs) + nesting v \<le> max_nesting" "delimiter c"
  shows "scan_all (BeginString, InKey ms # fs) (json_string k @ CHR '':'' # json_text v @ c # t)
     = scan_all (EndValue, AfterMember (ms @ [(valid_text k, clean_json v)]) # fs) (c # t)"
  using assms by (simp add: json_string_def begin_string_def scan_string) (simp add: scans_def)

lemma scan_members:
  assumes "\<And>k v. (k, v) \<in> set (m0 # ms) \<Longrightarrow> scans v \<and> Suc (length fs) + nesting v \<le> max_nesting"
  shows "scan_all (BeginString, InKey us # fs)
       (join_with '','' (map (\<lambda>(k, v). json_string k @ '':'' @ json_text v) (m0 # ms)) @ CHR ''}'' # t)
     = scan_all (complete (JObject (us @ map (\<lambda>(k, v). (valid_text k, clean_json v)) (m0 # ms))) fs) t"
  using assms
proof (induction ms arbitrary: us m0)
  case Nil
  then show ?case using scan_member by (cases m0) auto
next
  case (Cons m ms)
  obtain k v where m0: "m0 = (k, v)" by (cases m0)
  have step: "scan_all (BeginString, InKey us # fs)
       (join_with '','' (map (\<lambda>(k, v). json_string k @ '':'' @ json_text v) (m0 # m # ms)) @ CHR ''}'' # t)
     = scan_all (BeginString, InKey (us @ [(valid_text k, clean_json v)]) # fs)
         (join_with '','' (map (\<lambda>(k, v). json_string k @ '':'' @ json_text v) (m # ms)) @ CHR ''}'' # t)"
    using Cons.prems [of k v] by (simp add: m0 scan_member)
  have rest: "scan_all (BeginString, InKey (us @ [(valid_text k, clean_json v)]) # fs)
         (join_with '','' (map (\<lambda>(k, v). json_string k @ '':'' @ json_text v) (m # ms)) @ CHR ''}'' # t)
       = scan_all (complete (JObject ((us @ [(valid_text k, clean_json v)])
           @ map (\<lambda>(k, v). (valid_text k, clean_json v)) (m # ms))) fs) t"
    by (rule Cons.IH) (use Cons.prems in auto)
  show ?case unfolding step rest by (simp add: m0)
qed

lemma json_text_begins:
  assumes "json_ok v"
  obtains d r where "json_text v = d # r" "d \<noteq> CHR '']''" "\<not> is_json_space d"
proof (cases v)
  case (JNumber n)
  then obtain d r m where "n = d # r" "num_start d = Some m"
    using assms by (auto simp: number_ok_def split: list.splits option.splits)
  moreover have "d \<in> set ''-0123456789''"
    using calculation is_digit_cases [of d] by (auto simp: num_start_def split: if_splits)
  then have "d \<noteq> CHR '']'' \<and> \<not> is_json_space d"
    unfolding is_json_space_def chr_literals set_simps by (elim insertE) simp_all
  ultimately show ?thesis using that JNumber by auto
next
  case (JBool b)
  then show ?thesis using that by (cases b) (auto simp: is_json_space_def chr_literals)
qed (use that in \<open>auto simp: json_string_def is_json_space_def chr_literals\<close>)

lemma scan_or_empty:
  assumes "json_ok v"
  shows "scan_all (BeginValueOrEmpty, fs) (json_text v @ t) = scan_all (BeginValue, fs) (json_text v @ t)"
proof -
  obtain d r where "json_text v = d # r" "d \<noteq> CHR '']''" "\<not> is_json_space d"
    using json_text_begins [OF assms] by blast
  then show ?thesis by simp
qed

lemma scans_array:
  assumes "\<And>v. v \<in> set vs \<Longrightarrow> scans v \<and> json_ok v"
  shows "scans (JArray vs)"
  unfolding scans_def
proof (intro allI impI)
  fix fs :: "frame list" and c t
  assume n: "length fs + nesting (JArray vs) \<le> max_nesting" and "delimiter c"
  have "nesting v \<le> foldr max (map nesting vs) 0" if "v \<in> set vs" for v
    using that by (intro foldr_max_ge) simp
  then have each: "scans v \<and> Suc (length fs) + nesting v \<le> max_nesting" if "v \<in> set vs" for v
    using that n assms by fastforce
  have "length fs < max_nesting" using n by simp
  then show "scan_all (BeginValue, fs) (json_text (JArray vs) @ c # t)
      = scan_all (complete (clean_json (JArray vs)) fs) (c # t)"
    using scan_elements [of "hd vs" "tl vs" fs "[]" "c # t"] each assms
      scan_or_empty [of "hd vs" "InArray [] # fs"]
    by (cases vs; cases "tl vs") (auto simp: begin_value_def push_def)
qed


lemma string_or_empty:
  "scan_all (BeginStringOrEmpty, fs) (json_string k @ t) = scan_all (BeginString, fs) (json_string k @ t)"
proof -
  have "chr 34 \<noteq> CHR ''}''" by (simp add: chr_literals)
  then show ?thesis by (simp add: json_string_def)
qed

lemma scans_object:
  assumes "\<And>k v. (k, v) \<in> set ms \<Longrightarrow> scans v"
  shows "scans (JObject ms)"
  unfolding scans_def
proof (intro allI impI)
  fix fs :: "frame list" and c t
  assume n: "length fs + nesting (JObject ms) \<le> max_nesting" and "delimiter c"
  have "nesting v \<le> foldr max (map (\<lambda>(k, v). nesting v) ms) 0" if "(k, v) \<in> set ms" for k v
    using that by (intro foldr_max_ge) force
  then have each: "scans v \<and> Suc (length fs) + nesting v \<le> max_nesting" if "(k, v) \<in> set ms" for k v
    using that n assms by fastforce
  have push: "scan_all (BeginValue, fs) (CHR ''{'' # s) = scan_all (BeginStringOrEmpty, InKey [] # fs) s" for s
    using n by (simp add: begin_value_def push_def)
  show "scan_all (BeginValue, fs) (json_text (JObject ms) @ c # t)
      = scan_all (complete (clean_json (JObject ms)) fs) (c # t)"
  proof (cases ms)
    case Nil
    then show ?thesis using push [of "CHR ''}'' # c # t"] by simp
  next
    case (Cons m ms')
    let ?body = "join_with '','' (map (\<lambda>(k, v). json_string k @ '':'' @ json_text v) (m # ms'))"
    obtain s where body: "?body = json_string (fst m) @ s"
      by (cases ms') (auto simp: case_prod_beta)
    have "scan_all (BeginValue, fs) (json_text (JObject ms) @ c # t)
        = scan_all (BeginStringOrEmpty, InKey [] # fs) (?body @ CHR ''}'' # c # t)"
      using Cons push by simp
    also have "\<dots> = scan_all (BeginString, InKey [] # fs) (?body @ CHR ''}'' # c # t)"
      unfolding body by (simp add: string_or_empty)
    also have "\<dots> = scan_all (complete (JObject ([] @ map (\<lambda>(k, v). (valid_text k, clean_json v)) (m # ms'))) fs) (c # t)"
      by (rule scan_members) (use each Cons in auto)
    finally show ?thesis using Cons by simp
  qed
qed

lemma json_scans: "json_ok v \<Longrightarrow> scans v"
proof (induction v)
  case (JArray vs)
  then show ?case by (intro scans_array) (auto simp: list_all_iff)
next
  case (JObject ms)
  then have "scans v" if "(k, v) \<in> set ms" for k v
    using that by (fastforce simp: list_all_iff)
  then show ?case by (rule scans_object)
qed (simp_all add: scans_literal scans_string scans_number)

text \<open>Reading undoes writing.\<close>

theorem json_roundtrip:
  assumes "json_ok v" and "nesting v \<le> max_nesting"
  shows "json_parse (json_text v) = Inr (clean_json v)"
proof -
  have "scan_all (BeginValue, []) (json_text v @ [chr 32]) = scan_all (complete (clean_json v) []) [chr 32]"
    using json_scans [OF assms(1)] assms(2) unfolding scans_def by simp
  then show ?thesis by (simp add: json_parse_def)
qed

theorem json_roundtrip_witness:
  "json_parse (json_text (JObject [(''a'', JArray [JNumber ''-1.5e3'', JString [chr 34, chr 10, CHR ''<''], JNull])]))
     = Inr (clean_json (JObject [(''a'', JArray [JNumber ''-1.5e3'', JString [chr 34, chr 10, CHR ''<''], JNull])]))"
  by (rule json_roundtrip) code_simp+

lemma valid_text_id: "valid_text s = s" if "s = string_of_runes rs" "\<forall>r \<in> set rs. scalar r"
  using that by (simp add: valid_text_def runes_of_string_of_runes)

end
