(* ===== verification/JsonDecode.thy ===== *)
theory JsonDecode
  imports JsonText
begin

text \<open>
  Storing a JSON value in Go variables, as \<open>json.Unmarshal\<close> does it after the scanner has accepted the
  text: into strings, booleans, integers of their width, 64-bit floats, slices, pointers and structs.  A
  decoder takes what the variable held before and returns what it holds afterwards and the first type
  error; Go goes on after a type error and reports the first one at the end.
\<close>

section \<open>Floating point\<close>

text \<open>A float is the rational number it stands for; minus zero is zero.  \<open>float64\<close> rounds to the nearest
  one, to the even one in the middle; \<^const>\<open>None\<close> is an overflow.\<close>

definition pow2 :: "int \<Rightarrow> rat" where
  "pow2 k = (if 0 \<le> k then 2 ^ nat k else 1 / 2 ^ nat (- k))"

fun bit_count :: "nat \<Rightarrow> nat" where
  "bit_count n = (if n = 0 then 0 else Suc (bit_count (n div 2)))"

declare bit_count.simps [simp del]

definition float_unit :: "rat \<Rightarrow> int" where
  "float_unit q =
     (let (n, d) = quotient_of q; k = int (bit_count (nat n)) - int (bit_count (nat d));
          e = (if pow2 k \<le> q then k else k - 1)
      in max (e - 52) (- 1074))"

definition float64 :: "rat \<Rightarrow> rat option" where
  "float64 q =
     (if q = 0 then Some 0
      else let u = float_unit \<bar>q\<bar>; r = of_nat (round_even (\<bar>q\<bar> / pow2 u)) * pow2 u
        in if pow2 1024 \<le> r then None else Some (if q < 0 then - r else r))"

text \<open>The value of a number literal.\<close>

definition literal_value :: "string \<Rightarrow> rat" where
  "literal_value s =
     (let neg = has_prefix ''-'' s; s1 = (if neg then drop 1 s else s);
          whole = takeWhile is_digit s1; s2 = dropWhile is_digit s1;
          frac = (if has_prefix ''.'' s2 then takeWhile is_digit (drop 1 s2) else []);
          s3 = (if has_prefix ''.'' s2 then dropWhile is_digit (drop 1 s2) else s2);
          s4 = drop 1 s3; ds = (if has_prefix ''+'' s4 \<or> has_prefix ''-'' s4 then drop 1 s4 else s4);
          e = (if has_prefix ''-'' s4 then - int (nat_of_digits ds) else int (nat_of_digits ds))
            - int (length frac);
          m = of_nat (nat_of_digits (whole @ frac));
          v = (if 0 \<le> e then m * 10 ^ nat e else m / 10 ^ nat (- e))
      in if neg then - v else v)"

definition parse_float :: "string \<Rightarrow> rat option" where
  "parse_float s = float64 (literal_value s)"

section \<open>Decoders\<close>

text \<open>The struct and the path of fields that a type error names.\<close>

type_synonym json_context = "string \<times> string list"

type_synonym 'a decoder = "json_context \<Rightarrow> json \<Rightarrow> 'a \<Rightarrow> 'a \<times> err option"

definition type_error :: "json_context \<Rightarrow> string \<Rightarrow> string \<Rightarrow> err option" where
  "type_error cx val ty =
     Some (Err (''json: cannot unmarshal '' @ val @ '' into Go '' @
       (if fst cx = [] \<and> snd cx = [] then ''value of type ''
        else ''struct field '' @ fst cx @ ''.'' @ join_with ''.'' (snd cx) @ '' of type '') @ ty))"

fun json_kind :: "json \<Rightarrow> string" where
  "json_kind JNull = ''null''"
| "json_kind (JBool b) = ''bool''"
| "json_kind (JNumber s) = ''number''"
| "json_kind (JString s) = ''string''"
| "json_kind (JArray vs) = ''array''"
| "json_kind (JObject ms) = ''object''"

definition first_error :: "err option \<Rightarrow> err option \<Rightarrow> err option" where
  "first_error e e' = (case e of None \<Rightarrow> e' | Some _ \<Rightarrow> e)"

definition decode_string :: "string decoder" where
  "decode_string cx v old =
     (case v of JNull \<Rightarrow> (old, None) | JString s \<Rightarrow> (s, None)
      | _ \<Rightarrow> (old, type_error cx (json_kind v) ''string''))"

definition decode_bool :: "bool decoder" where
  "decode_bool cx v old =
     (case v of JNull \<Rightarrow> (old, None) | JBool b \<Rightarrow> (b, None)
      | _ \<Rightarrow> (old, type_error cx (json_kind v) ''bool''))"

text \<open>A number that does not fit is an error that quotes it; \<open>int\<close> and \<open>int64\<close> differ in the name.\<close>

definition decode_number :: "string \<Rightarrow> (string \<Rightarrow> 'a option) \<Rightarrow> 'a decoder" where
  "decode_number ty parse cx v old =
     (case v of JNull \<Rightarrow> (old, None)
      | JNumber s \<Rightarrow> (case parse s of Some n \<Rightarrow> (n, None) | None \<Rightarrow> (old, type_error cx (''number '' @ s) ty))
      | _ \<Rightarrow> (old, type_error cx (json_kind v) ty))"

definition signed_number :: "string \<Rightarrow> int option" where
  "signed_number s = (case parse_int 10 s of Inr n \<Rightarrow> Some n | Inl _ \<Rightarrow> None)"

definition uint32_number :: "string \<Rightarrow> uid option" where
  "uint32_number s =
     (case parse_uint 10 s of Inr n \<Rightarrow> if n < 2 ^ 32 then Some (word_of_nat n) else None | Inl _ \<Rightarrow> None)"

definition decode_int :: "int decoder" where
  "decode_int = decode_number ''int'' signed_number"

definition decode_int64 :: "int decoder" where
  "decode_int64 = decode_number ''int64'' signed_number"

definition decode_uint32 :: "uid decoder" where
  "decode_uint32 = decode_number ''uint32'' uint32_number"

definition decode_float64 :: "rat decoder" where
  "decode_float64 = decode_number ''float64'' parse_float"

text \<open>A value of type \<open>json.RawMessage\<close> that nothing reads.\<close>

definition skip_value :: "'a decoder" where
  "skip_value cx v old = (old, None)"

text \<open>The elements of a slice are decoded into those that it had before, and into zero values after
  them.\<close>

fun decode_elements :: "'a decoder \<Rightarrow> 'a \<Rightarrow> json_context \<Rightarrow> json list \<Rightarrow> 'a list \<Rightarrow> 'a list \<times> err option" where
  "decode_elements dec zero cx [] olds = ([], None)"
| "decode_elements dec zero cx (v # vs) olds =
     (case dec cx v (case olds of [] \<Rightarrow> zero | x # _ \<Rightarrow> x) of
        (x, e) \<Rightarrow> (case decode_elements dec zero cx vs (drop 1 olds) of (xs, e') \<Rightarrow> (x # xs, first_error e e')))"

definition decode_slice :: "string \<Rightarrow> 'a decoder \<Rightarrow> 'a \<Rightarrow> 'a list decoder" where
  "decode_slice ty dec zero cx v old =
     (case v of JNull \<Rightarrow> ([], None) | JArray vs \<Rightarrow> decode_elements dec zero cx vs old
      | _ \<Rightarrow> (old, type_error cx (json_kind v) ty))"

definition decode_pointer :: "'a decoder \<Rightarrow> 'a \<Rightarrow> 'a option decoder" where
  "decode_pointer dec zero cx v old =
     (case v of JNull \<Rightarrow> (None, None)
      | _ \<Rightarrow> (case dec cx v (case old of None \<Rightarrow> zero | Some x \<Rightarrow> x) of (x, e) \<Rightarrow> (Some x, e)))"

text \<open>A field of a struct: how to read it and how to update it.\<close>

definition struct_field :: "('r \<Rightarrow> 'a) \<Rightarrow> (('a \<Rightarrow> 'a) \<Rightarrow> 'r \<Rightarrow> 'r) \<Rightarrow> 'a decoder \<Rightarrow> 'r decoder" where
  "struct_field get upd dec cx v r = (case dec cx v (get r) of (x, e) \<Rightarrow> (upd (\<lambda>_. x) r, e))"

type_synonym 'r fields = "(string \<times> 'r decoder) list"

text \<open>A key names the field with that name, or else the first with the same letters in another case.\<close>

definition find_field :: "'r fields \<Rightarrow> string \<Rightarrow> (string \<times> 'r decoder) option" where
  "find_field fs k =
     (case find (\<lambda>f. fst f = k) fs of Some f \<Rightarrow> Some f | None \<Rightarrow> find (\<lambda>f. equal_fold (fst f) k) fs)"

fun decode_members ::
  "string \<Rightarrow> 'r fields \<Rightarrow> json_context \<Rightarrow> (string \<times> json) list \<Rightarrow> 'r \<Rightarrow> 'r \<times> err option" where
  "decode_members st fs cx [] r = (r, None)"
| "decode_members st fs cx ((k, v) # ms) r =
     (case find_field fs k of
        None \<Rightarrow> decode_members st fs cx ms r
      | Some (name, dec) \<Rightarrow>
          (case dec (st, snd cx @ [name]) v r of
             (r, e) \<Rightarrow> (case decode_members st fs cx ms r of (r, e') \<Rightarrow> (r, first_error e e'))))"

definition decode_struct :: "string \<Rightarrow> string \<Rightarrow> 'r fields \<Rightarrow> 'r decoder" where
  "decode_struct pkg st fs cx v r =
     (case v of JNull \<Rightarrow> (r, None) | JObject ms \<Rightarrow> decode_members st fs cx ms r
      | _ \<Rightarrow> (r, type_error cx (json_kind v) (pkg @ ''.'' @ st)))"

text \<open>\<open>json.Unmarshal\<close>; the callers do not use the variable after an error.\<close>

definition unmarshal :: "'a decoder \<Rightarrow> 'a \<Rightarrow> string \<Rightarrow> err + 'a" where
  "unmarshal dec zero s =
     (case json_parse s of
        Inl e \<Rightarrow> Inl e
      | Inr v \<Rightarrow> (case dec ([], []) v zero of (x, None) \<Rightarrow> Inr x | (x, Some e) \<Rightarrow> Inl e))"

section \<open>Floats that are exact\<close>

lemma pow2_powi: "pow2 k = 2 powi k"
  by (simp add: pow2_def power_int_def power_one_over)

lemma pow2_pos [simp]: "0 < pow2 k"
  by (simp add: pow2_powi)

lemma pow2_add: "pow2 (a + b) = pow2 a * pow2 b"
  by (simp add: pow2_powi power_int_add)

lemma pow2_nonzero [simp]: "pow2 k \<noteq> 0"
  using pow2_pos [of k] by (metis order_less_irrefl)

lemma pow2_diff: "pow2 (int a - int b) = 2 ^ a / 2 ^ b"
  using pow2_add [of "int a - int b" "int b"] by (simp add: pow2_def [of "int a"] pow2_def [of "int b"] field_simps)

lemma pow2_less: "a < b \<Longrightarrow> pow2 a < pow2 b"
  by (simp add: pow2_powi power_int_strict_increasing)

lemma pow2_less_iff: "pow2 a < pow2 b \<longleftrightarrow> a < b"
  using pow2_less by (metis linorder_cases order_less_asym order_less_irrefl)

lemma pow2_nat: "0 \<le> k \<Longrightarrow> pow2 k = of_nat (2 ^ nat k)"
  by (simp add: pow2_def)

lemma bit_count_bounds: "0 < n \<Longrightarrow> 2 ^ (bit_count n - 1) \<le> n \<and> n < 2 ^ bit_count n \<and> 0 < bit_count n"
proof (induction n rule: bit_count.induct)
  case (1 n)
  then show ?case
  proof (cases "n = 1")
    case True
    then show ?thesis by (simp add: bit_count.simps)
  next
    case False
    then have "0 < n div 2" using 1(2) by simp
    then have IH: "2 ^ (bit_count (n div 2) - 1) \<le> n div 2" "n div 2 < 2 ^ bit_count (n div 2)" "0 < bit_count (n div 2)"
      using 1 by simp_all
    then obtain b where b: "bit_count (n div 2) = Suc b" by (cases "bit_count (n div 2)") auto
    then have "bit_count n = Suc (Suc b)" using 1(2) by (simp add: bit_count.simps [of n])
    moreover have "2 * (n div 2) \<le> n" "n < 2 * (n div 2) + 2" by presburger+
    ultimately show ?thesis using IH b by simp
  qed
qed

text \<open>The unit in the last place never exceeds the one of a number with at most 53 bits.\<close>

lemma float_unit_le:
  assumes "0 < m" "m < 2 ^ 53" "- 1074 \<le> k"
  shows "float_unit (of_nat m * pow2 k) \<le> k" and "- 1074 \<le> float_unit (of_nat m * pow2 k)"
proof -
  define q where "q = of_nat m * pow2 k"
  have "0 < q" using assms(1) by (simp add: q_def)
  obtain n d where nd: "quotient_of q = (n, d)" by fastforce
  have "0 < d" "q = of_int n / of_int d" using quotient_of_denom_pos [OF nd] quotient_of_div [OF nd] by simp_all
  then have "0 < n" using \<open>0 < q\<close> by (simp add: zero_less_divide_iff)
  define e where "e = int (bit_count (nat n)) - int (bit_count (nat d))"
  have n: "2 ^ (bit_count (nat n) - 1) \<le> nat n" "0 < bit_count (nat n)" using bit_count_bounds [of "nat n"] \<open>0 < n\<close> by simp_all
  have d: "nat d < 2 ^ bit_count (nat d)" using bit_count_bounds [of "nat d"] \<open>0 < d\<close> by simp
  have "pow2 (e - 1) = of_nat (2 ^ (bit_count (nat n) - 1)) / of_nat (2 ^ bit_count (nat d))"
    using n(2) pow2_diff [of "bit_count (nat n) - 1" "bit_count (nat d)"] by (simp add: e_def algebra_simps)
  also have "\<dots> \<le> of_nat (nat n) / of_nat (nat d)"
  proof (rule frac_le)
    show "(of_nat (2 ^ (bit_count (nat n) - 1)) :: rat) \<le> of_nat (nat n)" using n(1) by (simp only: of_nat_le_iff)
    show "(of_nat (nat d) :: rat) \<le> of_nat (2 ^ bit_count (nat d))" using d by (simp only: of_nat_le_iff order_less_imp_le)
  qed (use \<open>0 < d\<close> in simp_all)
  also have "\<dots> = q" using \<open>0 < n\<close> \<open>0 < d\<close> \<open>q = of_int n / of_int d\<close> by simp
  finally have low: "pow2 (e - 1) \<le> q" .
  have "q < of_nat (2 ^ 53) * pow2 k" using assms(2) unfolding q_def by (intro mult_strict_right_mono) (simp_all only: of_nat_less_iff pow2_pos)
  also have "\<dots> = pow2 (53 + k)" by (simp add: pow2_add) (simp add: pow2_def)
  finally have high: "q < pow2 (53 + k)" .
  have below: "a < 53 + k" if "pow2 a \<le> q" for a
    using order.strict_trans1 [OF that high] by (simp only: pow2_less_iff)
  have "(if pow2 e \<le> q then e else e - 1) < 53 + k"
    using below [OF low] below [of e] by (simp split: if_split)
  then show "float_unit (of_nat m * pow2 k) \<le> k" "- 1074 \<le> float_unit (of_nat m * pow2 k)"
    using assms(3) by (simp_all add: float_unit_def nd Let_def flip: q_def e_def split: if_splits)
qed

lemma round_even_nat: "round_even (of_nat n) = n"
  by (simp add: round_even_def Let_def)

text \<open>Every number with at most 53 significant bits in the range of the exponents is kept as it is.\<close>

lemma float64_exact:
  assumes "m < 2 ^ 53" "- 1074 \<le> k" "k \<le> 971" "\<bar>q\<bar> = of_nat m * pow2 k"
  shows "float64 q = Some q"
proof (cases "m = 0")
  case False
  then have pos: "0 < m" by simp
  define u where "u = float_unit \<bar>q\<bar>"
  have u: "u \<le> k" using float_unit_le [OF pos assms(1,2)] assms(4) by (simp add: u_def)
  have "\<bar>q\<bar> / pow2 u = of_nat (m * 2 ^ nat (k - u))"
    using u pow2_nat [of "k - u"] pow2_add [of "k - u" u] assms(4) by (simp add: field_simps)
  then have "of_nat (round_even (\<bar>q\<bar> / pow2 u)) * pow2 u = \<bar>q\<bar>"
    using round_even_nat [of "m * 2 ^ nat (k - u)"] by (simp add: field_simps)
  moreover have "\<bar>q\<bar> < pow2 1024"
  proof -
    have "\<bar>q\<bar> < of_nat (2 ^ 53) * pow2 k"
      using assms(1) unfolding assms(4) by (intro mult_strict_right_mono) (simp_all only: of_nat_less_iff pow2_pos)
    also have "\<dots> = pow2 (53 + k)" by (simp add: pow2_add) (simp add: pow2_def)
    also have "\<dots> \<le> pow2 1024" using pow2_less_iff [of 1024 "53 + k"] assms(3) by (simp add: not_less [symmetric])
    finally show ?thesis .
  qed
  ultimately show ?thesis unfolding float64_def Let_def u_def [symmetric] by (auto simp: not_le)
qed (use assms(4) in \<open>simp add: float64_def\<close>)

end
