(* ===== verification/Wire.thy ===== *)
theory Wire
  imports Telegram JsonDecode
begin

text \<open>
  The wire formats: the JSON tags of the request and response structs of the four providers
  (\<open>internal/llm/{gemini,mistral,ollama,openrouter}\<close>), of the model's answer (\<open>internal/llm/parse.go\<close>) and of
  Telegram's response (\<open>internal/notify/telegram\<close>), as encoders into and decoders from \<open>json\<close>.  They turn
  the parameters \<open>pe_marshal\<close>, \<open>pe_decode\<close>, \<open>pe_json\<close> and \<open>te_decode\<close> of the providers and the channel
  into functions; what is left outside is HTTP.
\<close>

section \<open>Requests\<close>

text \<open>\<open>omitempty\<close> leaves out a float that is zero; \<open>show\<close> prints another one.\<close>

definition temperature_member :: "(rat \<Rightarrow> string) \<Rightarrow> rat \<Rightarrow> (string \<times> json) list" where
  "temperature_member show t = (if t = 0 then [] else [(''temperature'', JNumber (show t))])"

definition chat_msg_json :: "chat_msg \<Rightarrow> json" where
  "chat_msg_json m = JObject [(''role'', JString (ch_role m)), (''content'', JString (ch_content m))]"

definition chat_request_json :: "(rat \<Rightarrow> string) \<Rightarrow> chat_request \<Rightarrow> json" where
  "chat_request_json show r =
     JObject ([(''model'', JString (cq_model r)), (''messages'', JArray (map chat_msg_json (cq_messages r))),
               (''stream'', JBool (cq_stream r))] @ temperature_member show (cq_temperature r))"

definition ollama_request_json :: "(rat \<Rightarrow> string) \<Rightarrow> ollama_request \<Rightarrow> json" where
  "ollama_request_json show r =
     JObject ([(''model'', JString (oq_model r)), (''messages'', JArray (map chat_msg_json (oq_messages r))),
               (''stream'', JBool (oq_stream r))]
       @ (case oq_options r of None \<Rightarrow> [] | Some t \<Rightarrow> [(''options'', JObject (temperature_member show t))]))"

definition text_part_json :: "string \<Rightarrow> json" where
  "text_part_json s = JObject [(''text'', JString s)]"

definition content_part_json :: "string list \<Rightarrow> json" where
  "content_part_json ps = JObject [(''parts'', JArray (map text_part_json ps))]"

definition gemini_request_json :: "gemini_request \<Rightarrow> json" where
  "gemini_request_json r =
     JObject ((case gq_system r of None \<Rightarrow> [] | Some ps \<Rightarrow> [(''system_instruction'', content_part_json ps)])
       @ [(''contents'', JArray (map content_part_json (gq_contents r)))])"

section \<open>Responses of chat completions\<close>

text \<open>The struct names start with the name of the provider, which is also its package.\<close>

definition empty_msg :: chat_msg where
  "empty_msg = \<lparr>ch_role = [], ch_content = []\<rparr>"

definition decode_msg :: "string \<Rightarrow> chat_msg decoder" where
  "decode_msg p = decode_struct p (p @ ''Msg'')
     [(''role'', struct_field ch_role ch_role_update decode_string),
      (''content'', struct_field ch_content ch_content_update decode_string)]"

definition decode_choice :: "string \<Rightarrow> chat_choice decoder" where
  "decode_choice p = decode_struct p (p @ ''Choice'')
     [(''index'', struct_field cc_index cc_index_update decode_int),
      (''message'', struct_field cc_message cc_message_update (decode_msg p)),
      (''finish_reason'', struct_field cc_finish cc_finish_update decode_string)]"

definition decode_usage :: "string \<Rightarrow> token_usage decoder" where
  "decode_usage p = decode_struct p (p @ ''Usage'')
     [(''prompt_tokens'', struct_field tu_prompt tu_prompt_update decode_int),
      (''completion_tokens'', struct_field tu_completion tu_completion_update decode_int),
      (''total_tokens'', struct_field tu_total tu_total_update decode_int)]"

definition empty_choice :: chat_choice where
  "empty_choice = \<lparr>cc_index = 0, cc_message = empty_msg, cc_finish = []\<rparr>"

definition decode_chat_response :: "string \<Rightarrow> string \<Rightarrow> err + chat_response" where
  "decode_chat_response p = unmarshal
     (decode_struct p (p @ ''Response'')
        [(''choices'', struct_field cr_choices cr_choices_update
            (decode_slice (''[]'' @ p @ ''.'' @ p @ ''Choice'') (decode_choice p) empty_choice)),
         (''usage'', struct_field cr_usage cr_usage_update (decode_pointer (decode_usage p) no_usage))])
     \<lparr>cr_choices = [], cr_usage = None\<rparr>"

section \<open>Response of Ollama\<close>

text \<open>A field that nothing reads is decoded for its errors.\<close>

definition unused_field :: "'a decoder \<Rightarrow> 'a \<Rightarrow> 'r decoder" where
  "unused_field dec zero cx v r = (r, snd (dec cx v zero))"

definition decode_ollama_response :: "string \<Rightarrow> err + ollama_response" where
  "decode_ollama_response = unmarshal
     (decode_struct ''ollama'' ''ollamaResponse''
        [(''model'', unused_field decode_string []),
         (''message'', struct_field or_message or_message_update (decode_msg ''ollama'')),
         (''done'', struct_field or_done or_done_update decode_bool),
         (''total_duration'', unused_field decode_int64 0),
         (''prompt_eval_count'', struct_field or_prompt_eval or_prompt_eval_update decode_int),
         (''eval_count'', struct_field or_eval or_eval_update decode_int),
         (''prompt_eval_duration'', unused_field decode_int64 0),
         (''eval_duration'', unused_field decode_int64 0)])
     \<lparr>or_message = empty_msg, or_done = False, or_prompt_eval = 0, or_eval = 0\<rparr>"

section \<open>Response of Gemini\<close>

definition decode_text_part :: "string decoder" where
  "decode_text_part = decode_struct ''gemini'' ''textPart'' [(''text'', decode_string)]"

definition decode_content_part :: "string list decoder" where
  "decode_content_part = decode_struct ''gemini'' ''contentPart''
     [(''parts'', decode_slice ''[]gemini.textPart'' decode_text_part [])]"

definition decode_safety_rating :: "unit decoder" where
  "decode_safety_rating = decode_struct ''gemini'' ''safetyRating''
     [(''category'', unused_field decode_string []), (''probability'', unused_field decode_string [])]"

definition decode_candidate :: "gemini_candidate decoder" where
  "decode_candidate = decode_struct ''gemini'' ''candidate''
     [(''content'', struct_field gc_parts gc_parts_update decode_content_part),
      (''finishReason'', struct_field gc_finish gc_finish_update decode_string),
      (''safetyRatings'', unused_field (decode_slice ''[]gemini.safetyRating'' decode_safety_rating ()) [])]"

definition decode_feedback :: "string decoder" where
  "decode_feedback = decode_struct ''gemini'' ''promptFeedback'' [(''blockReason'', decode_string)]"

definition decode_usage_metadata :: "token_usage decoder" where
  "decode_usage_metadata = decode_struct ''gemini'' ''usageMetadata''
     [(''promptTokenCount'', struct_field tu_prompt tu_prompt_update decode_int),
      (''candidatesTokenCount'', struct_field tu_completion tu_completion_update decode_int),
      (''totalTokenCount'', struct_field tu_total tu_total_update decode_int)]"

definition decode_gemini_response :: "string \<Rightarrow> err + gemini_response" where
  "decode_gemini_response = unmarshal
     (decode_struct ''gemini'' ''geminiResponse''
        [(''candidates'', struct_field gr_candidates gr_candidates_update
            (decode_slice ''[]gemini.candidate'' decode_candidate \<lparr>gc_parts = [], gc_finish = []\<rparr>)),
         (''usageMetadata'', struct_field gr_usage gr_usage_update (decode_pointer decode_usage_metadata no_usage)),
         (''promptFeedback'', struct_field gr_block_reason gr_block_reason_update (decode_pointer decode_feedback []))])
     \<lparr>gr_candidates = [], gr_usage = None, gr_block_reason = None\<rparr>"

section \<open>The answer of the model\<close>

definition empty_item :: llm_item where
  "empty_item =
     \<lparr>it_uid = 0, it_account = [], it_label = [], it_confidence = 0, it_reason = [], it_summary = [],
      it_key_points = [], it_action_items = [], it_priority = [], it_urgency = []\<rparr>"

definition decode_strings :: "string list decoder" where
  "decode_strings = decode_slice ''[]string'' decode_string []"

definition decode_item :: "llm_item decoder" where
  "decode_item = decode_struct ''llm'' ''classificationItem''
     [(''uid'', struct_field it_uid it_uid_update decode_uint32),
      (''account'', struct_field it_account it_account_update decode_string),
      (''label'', struct_field it_label it_label_update decode_string),
      (''confidence'', struct_field it_confidence it_confidence_update decode_float64),
      (''reason'', struct_field it_reason it_reason_update decode_string),
      (''summary'', struct_field it_summary it_summary_update decode_string),
      (''key_points'', struct_field it_key_points it_key_points_update decode_strings),
      (''action_items'', struct_field it_action_items it_action_items_update decode_strings),
      (''priority'', struct_field it_priority it_priority_update decode_string),
      (''urgency'', struct_field it_urgency it_urgency_update decode_string)]"

definition decode_wrapper :: "string \<Rightarrow> err + llm_wrapper" where
  "decode_wrapper = unmarshal
     (decode_struct ''llm'' ''classificationsWrapper''
        [(''schema_version'', struct_field wr_version wr_version_update decode_int),
         (''classifications'', struct_field wr_items wr_items_update
            (decode_slice ''[]llm.classificationItem'' decode_item empty_item))])
     \<lparr>wr_version = 0, wr_items = []\<rparr>"

section \<open>Response of Telegram\<close>

definition decode_telegram_response :: "string \<Rightarrow> err + telegram_response" where
  "decode_telegram_response = unmarshal
     (decode_struct ''telegram'' ''telegramResponse''
        [(''ok'', struct_field tr_ok tr_ok_update decode_bool),
         (''description'', struct_field tr_description tr_description_update decode_string),
         (''error_code'', struct_field tr_code tr_code_update decode_int),
         (''result'', skip_value)])
     \<lparr>tr_ok = False, tr_description = [], tr_code = 0\<rparr>"

section \<open>The environments of the providers\<close>

text \<open>What remains outside: requests over HTTP, dates, configured prompts, and how a float prints.\<close>

record http_service =
  hs_new_request :: "string \<Rightarrow> err option"
  hs_do :: "http_request \<Rightarrow> err + http_reply"
  hs_date :: "time \<Rightarrow> string"
  hs_template :: template_engine
  hs_float :: "rat \<Rightarrow> string"

definition json_service ::
  "('req \<Rightarrow> json) \<Rightarrow> (string \<Rightarrow> err + 'resp) \<Rightarrow> http_service \<Rightarrow> provider \<Rightarrow> ('req, 'resp) provider_env" where
  "json_service encode decode h p =
     \<lparr>pe_provider = p, pe_marshal = \<lambda>r. Inr (json_text (encode r)), pe_new_request = hs_new_request h,
      pe_do = hs_do h, pe_decode = decode, pe_json = decode_wrapper, pe_date = hs_date h,
      pe_template = hs_template h\<rparr>"

definition mistral_service :: "http_service \<Rightarrow> provider \<Rightarrow> (chat_request, chat_response) provider_env" where
  "mistral_service h = json_service (chat_request_json (hs_float h)) (decode_chat_response ''mistral'') h"

definition openrouter_service :: "http_service \<Rightarrow> provider \<Rightarrow> (chat_request, chat_response) provider_env" where
  "openrouter_service h = json_service (chat_request_json (hs_float h)) (decode_chat_response ''openrouter'') h"

definition ollama_service :: "http_service \<Rightarrow> provider \<Rightarrow> (ollama_request, ollama_response) provider_env" where
  "ollama_service h = json_service (ollama_request_json (hs_float h)) decode_ollama_response h"

definition gemini_service :: "http_service \<Rightarrow> provider \<Rightarrow> (gemini_request, gemini_response) provider_env" where
  "gemini_service h = json_service gemini_request_json decode_gemini_response h"

end
