(* ===== verification/WireProps.thy ===== *)
theory WireProps
  imports Wire
begin

text \<open>
  What the wire formats guarantee: the body of a request reads back as the conversation it was made of,
  and the answer that the prompt asks for is decoded and accepted as it was written.
\<close>

section \<open>Plain text and numbers\<close>

lemma segments_ascii: "byte c < 128 \<Longrightarrow> segments (c # s) = (byte c, [c]) # segments s"
  by (subst segments_Cons) simp_all

lemma valid_text_ascii: "list_all (\<lambda>c. byte c < 128) s \<Longrightarrow> valid_text s = s"
  by (induction s)
    (simp_all add: valid_text_def string_of_runes_def runes_of_def segments_ascii encode_rune_def)

lemma json_names [simp]:
  "valid_text ''model'' = ''model''" "valid_text ''messages'' = ''messages''" "valid_text ''stream'' = ''stream''"
  "valid_text ''role'' = ''role''" "valid_text ''content'' = ''content''" "valid_text ''system'' = ''system''"
  "valid_text ''user'' = ''user''" "valid_text ''options'' = ''options''" "valid_text ''text'' = ''text''"
  "valid_text ''parts'' = ''parts''" "valid_text ''system_instruction'' = ''system_instruction''"
  "valid_text ''contents'' = ''contents''" "valid_text ''schema_version'' = ''schema_version''"
  "valid_text ''classifications'' = ''classifications''" "valid_text ''uid'' = ''uid''"
  "valid_text ''account'' = ''account''" "valid_text ''label'' = ''label''" "valid_text ''confidence'' = ''confidence''"
  "valid_text ''reason'' = ''reason''" "valid_text ''summary'' = ''summary''" "valid_text ''key_points'' = ''key_points''"
  "valid_text ''action_items'' = ''action_items''" "valid_text ''priority'' = ''priority''" "valid_text ''urgency'' = ''urgency''"
  by (rule valid_text_ascii; simp add: byte_def)+

lemma num_run_digits: "list_all is_digit s \<Longrightarrow> num_run Digits s"
  by (induction s) auto

lemma number_ok_digits: "number_ok (digits_of n)"
proof (cases "n = 0")
  case True
  then show ?thesis by (simp add: digits_of.simps chr_zero number_ok_def num_start_def)
next
  case False
  then obtain c cs where ds: "digits_of n = c # cs" "c \<noteq> CHR ''0''" "is_digit c" "list_all is_digit cs"
    using digits_of_head [of n] digits_of_list_all [of n] by (cases "digits_of n") auto
  then have "c \<noteq> CHR ''-''" by (auto simp: is_digit_def byte_def)
  then show ?thesis using ds num_run_digits by (simp add: number_ok_def num_start_def)
qed

lemma number_ok_fmt_d: "number_ok (fmt_d n)"
proof -
  have "number_ok (CHR ''-'' # digits_of k)" if pos: "0 < k" for k
  proof -
    obtain c cs where ds: "digits_of k = c # cs" "c \<noteq> CHR ''0''" "is_digit c" "list_all is_digit cs"
      using digits_of_head [OF pos] digits_of_list_all [of k] by (cases "digits_of k") auto
    then show ?thesis using num_run_digits by (simp add: number_ok_def num_start_def)
  qed
  then show ?thesis using number_ok_digits by (auto simp: fmt_d_def)
qed

lemma signed_number_fmt_d: "int64 n \<Longrightarrow> signed_number (fmt_d n) = Some n"
  by (simp add: signed_number_def parse_int_fmt_d)

lemma uint32_number_fmt_d: "uint32_number (fmt_d (uint u)) = Some u" for u :: uid
proof -
  have small: "nat (uint u) < 2 ^ 32" using uint_bounded [of u] by (simp add: nat_less_iff del: nat_uint_eq)
  then have "parse_uint 10 (digits_of (nat (uint u))) = Inr (nat (uint u))"
    using parse_uint_digits [of "nat (uint u)" 10] by simp
  then show ?thesis using small by (simp add: uint32_number_def fmt_d_def)
qed

section \<open>Requests\<close>

text \<open>A message of a conversation as a value.\<close>

definition msg_value :: "string \<Rightarrow> string \<Rightarrow> json" where
  "msg_value role text = JObject [(''role'', JString role), (''content'', JString (valid_text text))]"

definition conversation :: "string \<Rightarrow> string \<Rightarrow> json" where
  "conversation system prompt =
     JArray ((if system = [] then [] else [msg_value ''system'' system]) @ [msg_value ''user'' prompt])"

lemma chat_messages_json:
  "list_all json_ok (map chat_msg_json (chat_messages system prompt))"
  "foldr max (map nesting (map chat_msg_json (chat_messages system prompt))) 0 = 1"
  "JArray (map clean_json (map chat_msg_json (chat_messages system prompt))) = conversation system prompt"
  by (simp_all add: chat_messages_def chat_msg_json_def conversation_def msg_value_def)

text \<open>C20: Whatever bytes the model name and the prompts contain, the body of a request is one JSON value that
  reads back as the conversation with its prompts, invalid UTF-8 apart: no prompt can end its string, add
  a message or change a parameter.  The temperature 0 that the code sets is not sent at all, since
  \<open>omitempty\<close> drops it.\<close>

theorem request_bodies:
  "json_parse (json_text (chat_request_json show (mistral_request model system prompt)))
     = Inr (JObject [(''model'', JString (valid_text model)), (''messages'', conversation system prompt),
                     (''stream'', JBool False)])
   \<and> json_parse (json_text (chat_request_json show (openrouter_request model system prompt)))
     = Inr (JObject [(''model'', JString (valid_text model)), (''messages'', conversation system prompt),
                     (''stream'', JBool False)])
   \<and> json_parse (json_text (ollama_request_json show (build_ollama_request model system prompt)))
     = Inr (JObject [(''model'', JString (valid_text model)), (''messages'', conversation system prompt),
                     (''stream'', JBool False), (''options'', JObject [])])
   \<and> json_parse (json_text (gemini_request_json (build_gemini_request system prompt)))
     = Inr (JObject ((if system = [] then []
           else [(''system_instruction'', JObject [(''parts'', JArray [JObject [(''text'', JString (valid_text system))]])])])
         @ [(''contents'', JArray [JObject [(''parts'', JArray [JObject [(''text'', JString (valid_text prompt))]])]])]))"
proof (intro conjI)
  let ?chat = "chat_request_json show (mistral_request model system prompt)"
  have "json_ok ?chat" "nesting ?chat \<le> max_nesting"
    using chat_messages_json(1,2) [of system prompt]
    by (simp_all add: chat_request_json_def mistral_request_def temperature_member_def max_nesting_def del: list.map_comp map_map)
  then show "json_parse (json_text ?chat) = Inr (JObject [(''model'', JString (valid_text model)), (''messages'', conversation system prompt),
                     (''stream'', JBool False)])"
    using chat_messages_json(3) [of system prompt]
    by (simp add: json_roundtrip) (simp add: chat_request_json_def mistral_request_def temperature_member_def)
  then show "json_parse (json_text (chat_request_json show (openrouter_request model system prompt)))
     = Inr (JObject [(''model'', JString (valid_text model)), (''messages'', conversation system prompt),
                     (''stream'', JBool False)])"
    by (simp add: mistral_request_def openrouter_request_def)
  let ?ollama = "ollama_request_json show (build_ollama_request model system prompt)"
  have "json_ok ?ollama" "nesting ?ollama \<le> max_nesting"
    using chat_messages_json(1,2) [of system prompt]
    by (simp_all add: ollama_request_json_def build_ollama_request_def temperature_member_def max_nesting_def)
  then show "json_parse (json_text ?ollama)
     = Inr (JObject [(''model'', JString (valid_text model)), (''messages'', conversation system prompt),
                     (''stream'', JBool False), (''options'', JObject [])])"
    using chat_messages_json(3) [of system prompt]
    by (simp add: json_roundtrip) (simp add: ollama_request_json_def build_ollama_request_def temperature_member_def)
  let ?gemini = "gemini_request_json (build_gemini_request system prompt)"
  have "json_ok ?gemini" "nesting ?gemini \<le> max_nesting"
    by (simp_all add: gemini_request_json_def build_gemini_request_def content_part_json_def text_part_json_def max_nesting_def)
  then show "json_parse (json_text ?gemini)
     = Inr (JObject ((if system = [] then []
           else [(''system_instruction'', JObject [(''parts'', JArray [JObject [(''text'', JString (valid_text system))]])])])
         @ [(''contents'', JArray [JObject [(''parts'', JArray [JObject [(''text'', JString (valid_text prompt))]])]])]))"
    by (simp add: json_roundtrip) (simp add: gemini_request_json_def build_gemini_request_def content_part_json_def text_part_json_def)
qed


section \<open>The answer of the model\<close>

text \<open>The JSON of an answer, as the prompt asks for it; \<open>show\<close> writes a confidence.\<close>

definition strings_json :: "string list \<Rightarrow> json" where
  "strings_json ss = JArray (map JString ss)"

definition item_json :: "(rat \<Rightarrow> string) \<Rightarrow> llm_item \<Rightarrow> json" where
  "item_json show it = JObject
     [(''uid'', JNumber (fmt_d (uint (it_uid it)))), (''account'', JString (it_account it)),
      (''label'', JString (it_label it)), (''confidence'', JNumber (show (it_confidence it))),
      (''reason'', JString (it_reason it)), (''summary'', JString (it_summary it)),
      (''key_points'', strings_json (it_key_points it)), (''action_items'', strings_json (it_action_items it)),
      (''priority'', JString (it_priority it)), (''urgency'', JString (it_urgency it))]"

definition wrapper_json :: "(rat \<Rightarrow> string) \<Rightarrow> llm_wrapper \<Rightarrow> json" where
  "wrapper_json show w = JObject
     [(''schema_version'', JNumber (fmt_d (wr_version w))),
      (''classifications'', JArray (map (item_json show) (wr_items w)))]"

text \<open>An item that JSON can carry: its texts are valid UTF-8 and its confidence is written exactly.\<close>

definition utf8 :: "string \<Rightarrow> bool" where
  "utf8 s \<longleftrightarrow> valid_text s = s"

definition portable_item :: "(rat \<Rightarrow> string) \<Rightarrow> llm_item \<Rightarrow> bool" where
  "portable_item show it \<longleftrightarrow>
     utf8 (it_account it) \<and> utf8 (it_label it) \<and> utf8 (it_reason it) \<and> utf8 (it_summary it)
     \<and> list_all utf8 (it_key_points it) \<and> list_all utf8 (it_action_items it)
     \<and> utf8 (it_priority it) \<and> utf8 (it_urgency it)
     \<and> number_ok (show (it_confidence it)) \<and> parse_float (show (it_confidence it)) = Some (it_confidence it)"

lemma clean_strings: "list_all utf8 ss \<Longrightarrow> clean_json (strings_json ss) = strings_json ss"
  by (induction ss) (simp_all add: strings_json_def utf8_def)

lemma decode_strings_json: "decode_strings cx (strings_json ss) [] = (ss, None)"
proof -
  have "decode_elements decode_string [] cx (map JString ss) [] = (ss, None)"
    by (induction ss) (simp_all add: decode_string_def first_error_def)
  then show ?thesis by (simp add: decode_strings_def strings_json_def decode_slice_def)
qed

lemma item_json_clean: "portable_item show it \<Longrightarrow> clean_json (item_json show it) = item_json show it"
  by (simp add: item_json_def portable_item_def clean_strings utf8_def)

lemma item_json_ok: "portable_item show it \<Longrightarrow> json_ok (item_json show it)"
  by (simp add: item_json_def portable_item_def strings_json_def number_ok_fmt_d list_all_iff)

lemma nesting_strings: "nesting (strings_json ss) = 1"
proof -
  have "foldr max (map nesting (map JString ss)) 0 = 0" by (induction ss) simp_all
  then show ?thesis by (simp add: strings_json_def)
qed

lemma nesting_item: "nesting (item_json show it) = 2"
  by (simp add: item_json_def nesting_strings)

lemma decode_item_json:
  "portable_item show it \<Longrightarrow> decode_item cx (item_json show it) empty_item = (it, None)"
  by (simp add: decode_item_def item_json_def decode_struct_def find_field_def struct_field_def decode_string_def
      decode_uint32_def decode_float64_def decode_number_def uint32_number_fmt_d decode_strings_json
      portable_item_def first_error_def empty_item_def)

text \<open>Decoding undoes encoding.\<close>

lemma decode_wrapper_json:
  assumes "list_all (portable_item show) (wr_items w)" and "int64 (wr_version w)"
  shows "decode_wrapper (json_text (wrapper_json show w)) = Inr w"
proof -
  have clean: "clean_json (wrapper_json show w) = wrapper_json show w"
    using assms(1) by (simp add: wrapper_json_def list_all_iff item_json_clean)
  have shallow: "foldr max (map (nesting \<circ> item_json show) its) 0 \<le> 2" for its
    by (induction its) (simp_all add: nesting_item)
  have "nesting (wrapper_json show w) \<le> max_nesting"
    using shallow [of "wr_items w"] by (simp add: wrapper_json_def max_nesting_def)
  moreover have "json_ok (wrapper_json show w)"
    using assms(1) by (simp add: wrapper_json_def number_ok_fmt_d list_all_iff item_json_ok)
  ultimately have parsed: "json_parse (json_text (wrapper_json show w)) = Inr (wrapper_json show w)"
    by (simp add: json_roundtrip clean)
  have "decode_elements decode_item empty_item cx (map (item_json show) its) [] = (its, None)"
    if "list_all (portable_item show) its" for its cx
    using that by (induction its) (simp_all add: decode_item_json first_error_def)
  then have "decode_slice ''[]llm.classificationItem'' decode_item empty_item cx
      (JArray (map (item_json show) (wr_items w))) [] = (wr_items w, None)" for cx
    using assms(1) by (simp add: decode_slice_def)
  then show ?thesis
    using assms(2)
    by (simp add: decode_wrapper_def unmarshal_def parsed)
      (simp add: wrapper_json_def decode_struct_def find_field_def struct_field_def decode_int_def decode_number_def
        signed_number_fmt_d first_error_def)
qed



definition demo_item :: llm_item where
  "demo_item = empty_item\<lparr>it_uid := 7, it_account := ''a'', it_label := ''Ads'', it_confidence := 1 / 2,
     it_summary := [CHR 0x60, CHR 0x60, CHR 0x60, chr 10, chr 34], it_key_points := [''k'']\<rparr>"

definition demo_wrapper :: llm_wrapper where
  "demo_wrapper = \<lparr>wr_version = 1, wr_items = [demo_item]\<rparr>"

lemma literal_half: "literal_value ''0.5'' = 1 / 2"
  by (simp add: literal_value_def has_prefix_def is_digit_def byte_def nat_of_digits_def digit_val_def)

lemma parse_half: "parse_float ''0.5'' = Some (1 / 2)"
  using float64_exact [of 1 "- 1" "1 / 2"] by (simp add: parse_float_def literal_half pow2_def)

lemma demo_portable: "portable_item (\<lambda>_. ''0.5'') demo_item"
proof -
  have "number_ok ''0.5''" by code_simp
  moreover have "utf8 s" if "list_all (\<lambda>c. byte c < 128) s" for s
    using that by (simp add: utf8_def valid_text_ascii)
  ultimately show ?thesis by (simp add: portable_item_def demo_item_def empty_item_def byte_def chr_def parse_half)
qed


section \<open>Examples\<close>

text \<open>The letter case of a key does not matter, an unknown key is skipped and a null leaves the field alone.\<close>

lemma decode_lenient:
  \<open>decode_wrapper ''{"Schema_Version":1,"note":[{}],"classifications":[{"UID":7,"label":null}]}''
     = Inr \<lparr>wr_version = 1, wr_items = [empty_item\<lparr>it_uid := 7\<rparr>]\<rparr>\<close>
  by code_simp

text \<open>A fraction is no message identifier, and the error names the path of the field.\<close>

lemma decode_fraction:
  \<open>decode_wrapper ''{"classifications":[{"uid":7.0}]}'' = Inl (Err
     ''json: cannot unmarshal number 7.0 into Go struct field classificationItem.classifications.uid of type uint32'')\<close>
  by code_simp

lemma decode_truncated: \<open>decode_wrapper ''{"schema_version":1'' = Inl (Err ''unexpected end of JSON input'')\<close>
  by code_simp

text \<open>Telegram's refusal, and an answer that is not JSON.\<close>

lemma telegram_refusal:
  \<open>decode_telegram_response ''{"ok":false,"error_code":429,"description":"Too Many Requests"}''
     = Inr \<lparr>tr_ok = False, tr_description = ''Too Many Requests'', tr_code = 429\<rparr>\<close>
  by code_simp

lemma telegram_html:
  \<open>decode_telegram_response ''<html>'' = Inl (Err
     (''invalid character '' @ [chr 39, CHR ''<'', chr 39] @ '' looking for beginning of value''))\<close>
  by code_simp

end
