(* ===== verification/RunInvariant.thy ===== *)
theory RunInvariant
  imports PipelineProps
begin

text \<open>
  What a run of the pipeline leaves of the outside world: a predicate that the four calls of the
  outside keep (fetching, writing flags, classifying and sending) holds after every run in which it
  held before.  The locale \<open>run_invariant\<close> states that contract of the ingesters, the provider and the
  channel; \<open>Connections\<close> interprets it on the program.
\<close>

locale run_invariant =
  fixes env :: "('s, 'w) pipeline_env" and inv :: "'w \<Rightarrow> bool"
  assumes fetch_keeps: "inv x \<Longrightarrow> inv (snd (pn_fetch_all env accts opts n x))"
    and flags_keep: "inv x \<Longrightarrow> inv (snd (pn_apply_flags env a fs x))"
    and classify_keeps: "inv x \<Longrightarrow> inv (snd (pn_classify env req x))"
    and send_keeps: "inv x \<Longrightarrow> inv (snd (pn_send env t x))"
begin

lemma with_ext_keeps:
  "with_ext f w = (r, w') \<Longrightarrow> (\<And>x. inv x \<Longrightarrow> inv (snd (f x))) \<Longrightarrow> inv (w_ext w) \<Longrightarrow> inv (w_ext w')"
  by (auto simp: with_ext_def split: prod.splits) (metis snd_conv)

lemma repair_keeps:
  "repair_once (pn_classify env) cfg raw pe labels x = (r, x') \<Longrightarrow> inv x \<Longrightarrow> inv x'"
  by (auto simp: repair_once_def split: sum.splits prod.splits option.splits)
    (metis classify_keeps snd_conv)+

lemma fallback_keeps:
  assumes "inv x"
  shows "inv (snd (classify_with_partial_fallback (pn_classify env) decode cfg request x))"
proof -
  obtain resp e x1 where eq: "pn_classify env request x = ((resp, e), x1)" by (metis surj_pair)
  have x1: "inv x1" using classify_keeps [OF assms, of request] by (simp add: eq)
  show ?thesis
    unfolding classify_with_partial_fallback_def Let_def eq
    using x1 by (auto dest: repair_keeps split: prod.split option.split sum.split)
qed

lemma apply_groups_keeps: "inv (w_ext w) \<Longrightarrow> inv (w_ext (apply_groups env gs w))"
proof (induction gs arbitrary: w)
  case (Cons g gs)
  obtain label fs where g: "g = (label, fs)" by fastforce
  have "inv (w_ext (snd (with_ext (pn_apply_flags env a fs) w)))" for a
    using with_ext_keeps [of "pn_apply_flags env a fs" w, OF surjective_pairing flags_keep Cons.prems] .
  then show ?case using Cons by (simp add: g split: option.split)
qed simp

lemma classification_flags_keep: "inv (w_ext w) \<Longrightarrow> inv (w_ext (apply_classification_flags env cs w))"
  by (simp add: apply_classification_flags_def Let_def apply_groups_keeps)

lemma act_keeps:
  assumes "inv (w_ext w)"
  shows "inv (w_ext (snd (act env opts r ms out rendered w)))"
proof -
  define w1 where "w1 = (if \<not> ro_dry_run opts \<and> co_err out = None then apply_classification_flags env (co_valid out) w else w)"
  have w1: "inv (w_ext w1)" using assms by (simp add: w1_def classification_flags_keep)
  obtain e w2 where eq: "(if ro_dry_run opts then (None, w1) else with_ext (pn_send env rendered) w1) = (e, w2)" by fastforce
  have "inv (w_ext w2)"
    using eq w1 with_ext_keeps [of "pn_send env rendered" w1 e w2] send_keeps by (auto split: if_splits)
  then show ?thesis
    unfolding act_def Let_def w1_def [symmetric] eq by (cases e) simp_all
qed

lemma reason_keeps:
  assumes "inv (w_ext w)"
  shows "inv (w_ext (snd (reason env opts r ms results errors w)))"
proof -
  obtain out w1 where eq: "with_ext (classify_with_partial_fallback (pn_classify env) (pn_decode env) (pn_cfg env)
      (build_request (pn_cfg env) ms)) w = (out, w1)" by fastforce
  have w1: "inv (w_ext w1)" using with_ext_keeps [OF eq fallback_keeps assms] .
  obtain d w2 where eq2: "build_digest_data_partial env (res_run r) ms out results errors w1 = (d, w2)" by fastforce
  have w2: "inv (w_ext w2)" using digest_ext [of env "res_run r" ms out results errors w1] w1 by (simp add: eq2)
  show ?thesis
    unfolding reason_def eq eq2 prod.case Let_def
    using w2 by (auto intro: act_keeps split: sum.split)
qed

lemma after_fetch_keeps:
  assumes "inv (w_ext w)"
  shows "inv (w_ext (snd (after_fetch env opts run results w)))"
proof -
  obtain ms w1 where eq: "(if \<not> ro_force opts \<and> flatten_messages results \<noteq> []
      then filter_processed env (flatten_messages results) w else (flatten_messages results, w)) = (ms, w1)" by fastforce
  have "w_ext w1 = w_ext w"
    using eq filter_processed_ext [of env "flatten_messages results" w] by (auto split: if_splits)
  then show ?thesis
    unfolding after_fetch_def Let_def eq prod.case using assms by (auto intro: reason_keeps)
qed

lemma after_record_keeps:
  assumes "inv (w_ext w)"
  shows "inv (w_ext (snd (after_record env opts run w)))"
proof -
  obtain since w1 where eq: "fetch_window env opts w = (since, w1)" by fastforce
  have w1: "inv (w_ext w1)" using fetch_window_ext [of env opts w] assms by (simp add: eq)
  show ?thesis
  proof (cases since)
    case (Inr t)
    obtain rs w2 where eq2: "with_ext (pn_fetch_all env (imap_accounts (cfg_imap (pn_cfg env)))
        (fetch_options_of (pn_cfg env) t) (cc_max_accounts (cfg_concurrency (pn_cfg env)))) w1 = (rs, w2)" by fastforce
    have "inv (w_ext w2)" using with_ext_keeps [OF eq2 fetch_keeps w1] .
    then show ?thesis by (simp add: after_record_def eq Inr eq2 after_fetch_keeps)
  qed (simp add: after_record_def eq w1)
qed

lemma run_keeps:
  assumes "inv (w_ext w)"
  shows "inv (w_ext (snd (run_pipeline env opts w)))"
proof -
  obtain t w1 where eq: "now env w = (t, w1)" by fastforce
  let ?r = "\<lparr>run_id = [], run_started = t, run_finished = None, run_state = RunRunning, run_count = 0, run_error = []\<rparr>"
  obtain r w2 where eq2: "with_store env (\<lambda>ops io. so_record_run ops io ?r) w1 = (r, w2)" by fastforce
  have "w_ext w2 = w_ext w"
    using now_ext [of env w] with_store_ext [of env "\<lambda>ops io. so_record_run ops io ?r" w1] eq eq2 by simp
  then show ?thesis
    using assms by (cases r) (simp_all add: run_pipeline_def eq eq2 after_record_keeps)
qed

end

end
