(* ===== verification/Environment.thy ===== *)
theory Environment
  imports Config GoNumbers
begin

text \<open>
  \<open>internal/config/env.go\<close>: the layer of environment variables.  The environment is a partial
  function (\<open>os.LookupEnv\<close>).  Each helper takes the key and the current value of the field it may
  overwrite, and returns the field's new value with the errors to append; \<open>env_field\<close> runs a helper
  on a field of a record (the code's \<open>&cfg.Field\<close>), and \<open>env_steps\<close> is the sequence of such calls
  with the accumulated errors.
\<close>

type_synonym environment = "string \<rightharpoonup> string"

definition env_prefix :: string where
  "env_prefix = ''EMAILER_''"

text \<open>\<open>errors.Join\<close>: nil for no error, otherwise the texts on lines of their own.\<close>

definition join_errors :: "err list \<Rightarrow> err option" where
  "join_errors es = (if es = [] then None else Some (Err (join_with [CHR 0x0A] (map err_text es))))"

section \<open>The helpers\<close>

definition load_string :: "environment \<Rightarrow> string \<Rightarrow> string \<Rightarrow> string \<times> err list" where
  "load_string env key dst = (case env key of None \<Rightarrow> (dst, []) | Some v \<Rightarrow> (v, []))"

definition env_error :: "string \<Rightarrow> err \<Rightarrow> err" where
  "env_error key e = Wrap (''env '' @ go_quote key @ '': '') e"

definition load_bool :: "environment \<Rightarrow> string \<Rightarrow> bool \<Rightarrow> bool \<times> err list" where
  "load_bool env key dst =
     (case env key of
        None \<Rightarrow> (dst, [])
      | Some v \<Rightarrow>
          (case parse_bool v of
             Inl e \<Rightarrow> (dst, [env_error key (num_error ''ParseBool'' v e)])
           | Inr b \<Rightarrow> (b, [])))"

definition load_int :: "environment \<Rightarrow> string \<Rightarrow> int \<Rightarrow> int \<times> err list" where
  "load_int env key dst =
     (case env key of
        None \<Rightarrow> (dst, [])
      | Some v \<Rightarrow>
          (case atoi v of
             Inl e \<Rightarrow> (dst, [env_error key (num_error ''Atoi'' v e)])
           | Inr n \<Rightarrow> (n, [])))"

definition load_int64 :: "environment \<Rightarrow> string \<Rightarrow> int \<Rightarrow> int \<times> err list" where
  "load_int64 env key dst =
     (case env key of
        None \<Rightarrow> (dst, [])
      | Some v \<Rightarrow>
          (case parse_int 10 v of
             Inl e \<Rightarrow> (dst, [env_error key (num_error ''ParseInt'' v e)])
           | Inr n \<Rightarrow> (n, [])))"

definition load_duration :: "environment \<Rightarrow> string \<Rightarrow> duration \<Rightarrow> duration \<times> err list" where
  "load_duration env key dst =
     (case env key of
        None \<Rightarrow> (dst, [])
      | Some v \<Rightarrow>
          (case parse_duration v of
             Inl e \<Rightarrow> (dst, [env_error key e])
           | Inr d \<Rightarrow> (d, [])))"

text \<open>The loop that splits at commas and keeps the non-empty trimmed parts; \<open>splitComma\<close> of
  \<open>flags.go\<close> is the same loop.\<close>

definition clean_parts :: "string \<Rightarrow> string list" where
  "clean_parts v = filter (\<lambda>p. p \<noteq> []) (map trim_space (split_char (CHR '','') v))"

definition load_string_slice ::
  "(string list \<Rightarrow> 'a) \<Rightarrow> environment \<Rightarrow> string \<Rightarrow> 'a \<Rightarrow> 'a \<times> err list" where
  "load_string_slice wrap env key dst =
     (case env key of
        None \<Rightarrow> (dst, [])
      | Some v \<Rightarrow>
          if v = [] then (dst, [])
          else if clean_parts v \<noteq> [] then (wrap (clean_parts v), []) else (dst, []))"

section \<open>The sections of the configuration\<close>

type_synonym 'a env_step = "'a \<Rightarrow> 'a \<times> err list"

definition env_field :: "('b \<Rightarrow> 'b \<times> err list) \<Rightarrow> ('a \<Rightarrow> 'b) \<Rightarrow> (('b \<Rightarrow> 'b) \<Rightarrow> 'a \<Rightarrow> 'a) \<Rightarrow> 'a env_step" where
  "env_field load field update r = (case load (field r) of (v, es) \<Rightarrow> (update (\<lambda>_. v) r, es))"

fun env_steps :: "'a env_step list \<Rightarrow> 'a env_step" where
  "env_steps [] r = (r, [])"
| "env_steps (f # fs) r =
     (case f r of (r, es) \<Rightarrow> case env_steps fs r of (r, es') \<Rightarrow> (r, es @ es'))"

definition env_llm :: "environment \<Rightarrow> llm_config env_step" where
  "env_llm env = env_steps
     [env_field (load_string env (env_prefix @ ''LLM_PROVIDER'')) llm_provider llm_provider_update,
      env_field (load_string env (env_prefix @ ''LLM_API_KEY'')) llm_api_key llm_api_key_update,
      env_field (load_string env (env_prefix @ ''LLM_MODEL'')) llm_model llm_model_update,
      env_field (load_string env (env_prefix @ ''LLM_ENDPOINT'')) llm_endpoint llm_endpoint_update,
      env_field (load_duration env (env_prefix @ ''LLM_TIMEOUT'')) llm_timeout llm_timeout_update,
      env_field (load_int env (env_prefix @ ''LLM_MAX_RETRIES'')) llm_max_retries llm_max_retries_update,
      env_field (load_int env (env_prefix @ ''LLM_MAX_CONCURRENT'')) llm_max_concurrent llm_max_concurrent_update,
      env_field (load_int env (env_prefix @ ''LLM_ANALYSIS_REPAIR_MAX_ATTEMPTS''))
        llm_repair_max_attempts llm_repair_max_attempts_update]"

definition no_account :: imap_account where
  "no_account = \<lparr>acct_label = [], acct_host = [], acct_port = 0, acct_username = [], acct_password = [],
     acct_folders = None, acct_use_tls = False\<rparr>"

definition env_account :: "environment \<Rightarrow> imap_account env_step" where
  "env_account env = env_steps
     [env_field (load_string env (env_prefix @ ''IMAP_HOST'')) acct_host acct_host_update,
      env_field (load_string env (env_prefix @ ''IMAP_LABEL'')) acct_label acct_label_update,
      env_field (load_int env (env_prefix @ ''IMAP_PORT'')) acct_port acct_port_update,
      env_field (load_string env (env_prefix @ ''IMAP_USERNAME'')) acct_username acct_username_update,
      env_field (load_string env (env_prefix @ ''IMAP_PASSWORD'')) acct_password acct_password_update,
      env_field (load_string_slice Some env (env_prefix @ ''IMAP_FOLDERS'')) acct_folders acct_folders_update,
      env_field (load_bool env (env_prefix @ ''IMAP_USE_TLS'')) acct_use_tls acct_use_tls_update]"

text \<open>The account is read even when it is not used, so its errors count.\<close>

definition env_accounts :: "environment \<Rightarrow> imap_config env_step" where
  "env_accounts env c =
     (case env_account env no_account of (a, es) \<Rightarrow>
        (if env (env_prefix @ ''IMAP_HOST'') \<noteq> None
         then c\<lparr>imap_accounts := imap_accounts c @ [normalize_account a]\<rparr> else c, es))"

definition env_imap :: "environment \<Rightarrow> imap_config env_step" where
  "env_imap env = env_steps
     [env_accounts env,
      env_field (load_duration env (env_prefix @ ''IMAP_TIMEOUT'')) imap_timeout imap_timeout_update]"

definition env_telegram :: "environment \<Rightarrow> telegram_config env_step" where
  "env_telegram env = env_steps
     [env_field (load_string env (env_prefix @ ''TELEGRAM_BOT_TOKEN'')) tg_bot_token tg_bot_token_update,
      env_field (load_int64 env (env_prefix @ ''TELEGRAM_CHAT_ID'')) tg_chat_id tg_chat_id_update]"

definition env_storage :: "environment \<Rightarrow> storage_config env_step" where
  "env_storage env = env_steps
     [env_field (load_string env (env_prefix @ ''STATE_PATH'')) st_state_path st_state_path_update,
      env_field (load_bool env (env_prefix @ ''STATELESS'')) st_stateless st_stateless_update]"

definition env_digest :: "environment \<Rightarrow> digest_config env_step" where
  "env_digest env = env_steps
     [env_field (load_int env (env_prefix @ ''DIGEST_MAX_MESSAGE_EXCERPT'')) dg_max_excerpt dg_max_excerpt_update,
      env_field (load_bool env (env_prefix @ ''DIGEST_INCLUDE_READ_STATUS'')) dg_read_status dg_read_status_update,
      env_field (load_bool env (env_prefix @ ''DIGEST_INCLUDE_GLOBAL_STATS'')) dg_global_stats dg_global_stats_update,
      env_field (load_bool env (env_prefix @ ''DIGEST_INCLUDE_ACCOUNT_STATS'')) dg_account_stats dg_account_stats_update,
      env_field (load_bool env (env_prefix @ ''DIGEST_INCLUDE_SUMMARIES'')) dg_summaries dg_summaries_update,
      env_field (load_bool env (env_prefix @ ''DIGEST_INCLUDE_KEY_POINTS'')) dg_key_points dg_key_points_update,
      env_field (load_bool env (env_prefix @ ''DIGEST_INCLUDE_ACTION_ITEMS'')) dg_action_items dg_action_items_update,
      env_field (load_bool env (env_prefix @ ''DIGEST_INCLUDE_RAW_EXCERPT_FALLBACK'')) dg_raw_fallback dg_raw_fallback_update,
      env_field (load_int env (env_prefix @ ''DIGEST_MAX_MESSAGES'')) dg_max_messages dg_max_messages_update,
      env_field (load_int env (env_prefix @ ''DIGEST_MAX_KEY_POINTS_PER_MESSAGE'')) dg_max_key_points dg_max_key_points_update,
      env_field (load_int env (env_prefix @ ''DIGEST_MAX_ACTION_ITEMS_PER_MESSAGE'')) dg_max_action_items dg_max_action_items_update,
      env_field (load_bool env (env_prefix @ ''DIGEST_PRIORITY_ONLY'')) dg_priority_only dg_priority_only_update]"

definition env_labels :: "environment \<Rightarrow> labels_config env_step" where
  "env_labels env = env_steps
     [env_field (load_string_slice id env (env_prefix @ ''LABELS_CUSTOM'')) lb_custom lb_custom_update]"

definition env_concurrency :: "environment \<Rightarrow> concurrency_config env_step" where
  "env_concurrency env = env_steps
     [env_field (load_int env (env_prefix @ ''CONCURRENCY_MAX_ACCOUNTS'')) cc_max_accounts cc_max_accounts_update,
      env_field (load_int env (env_prefix @ ''CONCURRENCY_MAX_LLM_CALLS'')) cc_max_llm_calls cc_max_llm_calls_update,
      env_field (load_int env (env_prefix @ ''CONCURRENCY_FETCH_BATCH_SIZE'')) cc_fetch_batch cc_fetch_batch_update]"

definition env_config :: "environment \<Rightarrow> config env_step" where
  "env_config env = env_steps
     [env_field (load_bool env (env_prefix @ ''FETCH_UNREAD_ONLY'')) cfg_fetch_unread_only cfg_fetch_unread_only_update,
      env_field (load_duration env (env_prefix @ ''MAX_WINDOW'')) cfg_max_window cfg_max_window_update,
      env_field (env_llm env) cfg_llm cfg_llm_update,
      env_field (env_imap env) cfg_imap cfg_imap_update,
      env_field (env_telegram env) cfg_telegram cfg_telegram_update,
      env_field (env_storage env) cfg_storage cfg_storage_update,
      env_field (env_digest env) cfg_digest cfg_digest_update,
      env_field (env_labels env) cfg_labels cfg_labels_update,
      env_field (env_concurrency env) cfg_concurrency cfg_concurrency_update]"

text \<open>\<open>loadEnv\<close>: the configuration is changed also when there are errors.\<close>

definition load_env :: "environment \<Rightarrow> config \<Rightarrow> err option \<times> config" where
  "load_env env c = (case env_config env c of (c, es) \<Rightarrow> (join_errors es, c))"

section \<open>What the environment can do\<close>

declare env_steps.simps(2) [simp del]

lemma env_steps_errors [simp]:
  "snd (env_steps [] r) = []"
  "snd (env_steps (f # fs) r) = [] \<longleftrightarrow> snd (f r) = [] \<and> snd (env_steps fs (fst (f r))) = []"
  by (simp_all add: env_steps.simps(2) split: prod.split)

lemma env_steps_value [simp]: "fst (env_steps (f # fs) r) = fst (env_steps fs (fst (f r)))"
  by (simp add: env_steps.simps(2) split: prod.split)

lemma env_field_errors [simp]: "snd (env_field load field update r) = snd (load (field r))"
  by (simp add: env_field_def split: prod.split)

lemma env_field_value: "fst (env_field load field update r) = update (\<lambda>_. fst (load (field r))) r"
  by (simp add: env_field_def split: prod.split)

datatype env_kind = EnvBool | EnvInt | EnvInt64 | EnvDuration

fun env_reads :: "env_kind \<Rightarrow> string \<Rightarrow> bool" where
  "env_reads EnvBool v = (\<not> isl (parse_bool v))"
| "env_reads EnvInt v = (\<not> isl (atoi v))"
| "env_reads EnvInt64 v = (\<not> isl (parse_int 10 v))"
| "env_reads EnvDuration v = (\<not> isl (parse_duration v))"

definition env_well_formed :: "environment \<Rightarrow> string \<times> env_kind \<Rightarrow> bool" where
  "env_well_formed env var \<longleftrightarrow>
     (case env (env_prefix @ fst var) of None \<Rightarrow> True | Some v \<Rightarrow> env_reads (snd var) v)"

text \<open>The variables that are not plain texts.\<close>

definition typed_variables :: "(string \<times> env_kind) list" where
  "typed_variables =
     [(''FETCH_UNREAD_ONLY'', EnvBool), (''MAX_WINDOW'', EnvDuration), (''LLM_TIMEOUT'', EnvDuration),
      (''LLM_MAX_RETRIES'', EnvInt), (''LLM_MAX_CONCURRENT'', EnvInt),
      (''LLM_ANALYSIS_REPAIR_MAX_ATTEMPTS'', EnvInt), (''IMAP_PORT'', EnvInt), (''IMAP_USE_TLS'', EnvBool),
      (''IMAP_TIMEOUT'', EnvDuration), (''TELEGRAM_CHAT_ID'', EnvInt64), (''STATELESS'', EnvBool),
      (''DIGEST_MAX_MESSAGE_EXCERPT'', EnvInt), (''DIGEST_INCLUDE_READ_STATUS'', EnvBool),
      (''DIGEST_INCLUDE_GLOBAL_STATS'', EnvBool), (''DIGEST_INCLUDE_ACCOUNT_STATS'', EnvBool),
      (''DIGEST_INCLUDE_SUMMARIES'', EnvBool), (''DIGEST_INCLUDE_KEY_POINTS'', EnvBool),
      (''DIGEST_INCLUDE_ACTION_ITEMS'', EnvBool), (''DIGEST_INCLUDE_RAW_EXCERPT_FALLBACK'', EnvBool),
      (''DIGEST_MAX_MESSAGES'', EnvInt), (''DIGEST_MAX_KEY_POINTS_PER_MESSAGE'', EnvInt),
      (''DIGEST_MAX_ACTION_ITEMS_PER_MESSAGE'', EnvInt), (''DIGEST_PRIORITY_ONLY'', EnvBool),
      (''CONCURRENCY_MAX_ACCOUNTS'', EnvInt), (''CONCURRENCY_MAX_LLM_CALLS'', EnvInt),
      (''CONCURRENCY_FETCH_BATCH_SIZE'', EnvInt)]"

lemma load_errors [simp]:
  "snd (load_string env k dst) = []"
  "snd (load_string_slice wrap env k dst') = []"
  "snd (load_bool env (env_prefix @ v) b) = [] \<longleftrightarrow> env_well_formed env (v, EnvBool)"
  "snd (load_int env (env_prefix @ v) n) = [] \<longleftrightarrow> env_well_formed env (v, EnvInt)"
  "snd (load_int64 env (env_prefix @ v) n) = [] \<longleftrightarrow> env_well_formed env (v, EnvInt64)"
  "snd (load_duration env (env_prefix @ v) n) = [] \<longleftrightarrow> env_well_formed env (v, EnvDuration)"
  by (simp_all add: load_string_def load_string_slice_def load_bool_def load_int_def load_int64_def
      load_duration_def env_well_formed_def split: option.split sum.split)

lemma env_accounts_errors: "snd (env_accounts env c) = snd (env_account env no_account)"
  by (simp add: env_accounts_def split: prod.split)

lemmas env_sections = env_llm_def env_account_def env_imap_def env_telegram_def env_storage_def
  env_digest_def env_labels_def env_concurrency_def

lemma load_env_errors:
  "fst (load_env env c) = None \<longleftrightarrow> list_all (env_well_formed env) typed_variables"
proof -
  have llm: "snd (env_llm env r) = [] \<longleftrightarrow> list_all (env_well_formed env)
      [(''LLM_TIMEOUT'', EnvDuration), (''LLM_MAX_RETRIES'', EnvInt), (''LLM_MAX_CONCURRENT'', EnvInt),
       (''LLM_ANALYSIS_REPAIR_MAX_ATTEMPTS'', EnvInt)]" for r
    by (simp add: env_llm_def)
  have account: "snd (env_account env r) = [] \<longleftrightarrow> list_all (env_well_formed env)
      [(''IMAP_PORT'', EnvInt), (''IMAP_USE_TLS'', EnvBool)]" for r
    by (simp add: env_account_def)
  have imap: "snd (env_imap env r) = [] \<longleftrightarrow> list_all (env_well_formed env)
      [(''IMAP_PORT'', EnvInt), (''IMAP_USE_TLS'', EnvBool), (''IMAP_TIMEOUT'', EnvDuration)]" for r
    using account by (simp add: env_imap_def env_accounts_errors)
  have digest: "snd (env_digest env r) = [] \<longleftrightarrow> list_all (env_well_formed env)
      [(''DIGEST_MAX_MESSAGE_EXCERPT'', EnvInt), (''DIGEST_INCLUDE_READ_STATUS'', EnvBool),
       (''DIGEST_INCLUDE_GLOBAL_STATS'', EnvBool), (''DIGEST_INCLUDE_ACCOUNT_STATS'', EnvBool),
       (''DIGEST_INCLUDE_SUMMARIES'', EnvBool), (''DIGEST_INCLUDE_KEY_POINTS'', EnvBool),
       (''DIGEST_INCLUDE_ACTION_ITEMS'', EnvBool), (''DIGEST_INCLUDE_RAW_EXCERPT_FALLBACK'', EnvBool),
       (''DIGEST_MAX_MESSAGES'', EnvInt), (''DIGEST_MAX_KEY_POINTS_PER_MESSAGE'', EnvInt),
       (''DIGEST_MAX_ACTION_ITEMS_PER_MESSAGE'', EnvInt), (''DIGEST_PRIORITY_ONLY'', EnvBool)]" for r
    by (simp add: env_digest_def)
  have "fst (load_env env c) = None \<longleftrightarrow> snd (env_config env c) = []"
    by (simp add: load_env_def join_errors_def split: prod.split)
  also have "\<dots> \<longleftrightarrow> list_all (env_well_formed env) typed_variables"
    by (simp add: env_config_def llm imap digest env_telegram_def env_storage_def env_labels_def
        env_concurrency_def typed_variables_def)
  finally show ?thesis .
qed

text \<open>C25: Loading the environment fails exactly when a set variable that is not a plain text has a
  malformed value; a variable of an IMAP account counts even when no account is made of it.\<close>

theorem load_env_fails_iff:
  "fst (load_env env c) = None \<longleftrightarrow> list_all (env_well_formed env) typed_variables"
  by (rule load_env_errors)

lemma load_unset [simp]:
  assumes "env key = None"
  shows "load_string env key x = (x, [])" "load_string_slice wrap env key y = (y, [])"
    "load_bool env key b = (b, [])" "load_int env key n = (n, [])" "load_int64 env key n = (n, [])"
    "load_duration env key n = (n, [])"
  using assms by (simp_all add: load_string_def load_string_slice_def load_bool_def load_int_def
      load_int64_def load_duration_def)

lemma load_env_unset:
  assumes "\<And>v. env (env_prefix @ v) = None"
  shows "load_env env c = (None, c)"
proof -
  note unset = env_steps.simps(2) env_field_def load_unset [of env "env_prefix @ v" for v, OF assms]
  have "env_llm env r = (r, [])" for r by (simp add: env_llm_def unset)
  moreover have "env_imap env r = (r, [])" for r
    by (simp add: env_imap_def env_accounts_def env_account_def unset assms)
  moreover have "env_telegram env r = (r, [])" for r by (simp add: env_telegram_def unset)
  moreover have "env_storage env r = (r, [])" for r by (simp add: env_storage_def unset)
  moreover have "env_digest env r = (r, [])" for r by (simp add: env_digest_def unset)
  moreover have "env_labels env r = (r, [])" for r by (simp add: env_labels_def unset)
  moreover have "env_concurrency env r = (r, [])" for r by (simp add: env_concurrency_def unset)
  ultimately show ?thesis
    by (simp add: load_env_def env_config_def unset join_errors_def)
qed

text \<open>The accounts: those of the file are kept, and at most one is appended.\<close>

lemma snd_load_env: "snd (load_env env c) = fst (env_config env c)"
  by (simp add: load_env_def split: prod.split)

lemma env_accounts_value:
  "fst (env_accounts env c) =
     c\<lparr>imap_accounts := imap_accounts c
        @ (if env (env_prefix @ ''IMAP_HOST'') = None then []
           else [normalize_account (fst (env_account env no_account))])\<rparr>"
  by (simp add: env_accounts_def split: prod.split)

lemma load_env_accounts:
  "imap_accounts (cfg_imap (snd (load_env env c))) =
     imap_accounts (cfg_imap c)
     @ (if env (env_prefix @ ''IMAP_HOST'') = None then []
        else [normalize_account (fst (env_account env no_account))])"
  by (simp add: snd_load_env env_config_def env_imap_def env_accounts_value env_field_value)

section \<open>The width of the numbers\<close>

text \<open>The integers of a configuration are Go \<open>int\<close>s and \<open>int64\<close>s of 64 bits.\<close>

definition typed_account :: "imap_account \<Rightarrow> bool" where
  "typed_account a \<longleftrightarrow> int64 (acct_port a)"

definition typed_config :: "config \<Rightarrow> bool" where
  "typed_config c \<longleftrightarrow>
     int64 (llm_timeout (cfg_llm c)) \<and> int64 (llm_max_retries (cfg_llm c))
     \<and> int64 (llm_max_concurrent (cfg_llm c)) \<and> int64 (llm_repair_max_attempts (cfg_llm c))
     \<and> list_all typed_account (imap_accounts (cfg_imap c)) \<and> int64 (imap_timeout (cfg_imap c))
     \<and> int64 (tg_chat_id (cfg_telegram c))
     \<and> int64 (dg_max_excerpt (cfg_digest c)) \<and> int64 (dg_max_messages (cfg_digest c))
     \<and> int64 (dg_max_key_points (cfg_digest c)) \<and> int64 (dg_max_action_items (cfg_digest c))
     \<and> int64 (cc_max_accounts (cfg_concurrency c)) \<and> int64 (cc_max_llm_calls (cfg_concurrency c))
     \<and> int64 (cc_fetch_batch (cfg_concurrency c)) \<and> int64 (cfg_max_window c)"

lemma typed_default: "typed_config default_config"
  by (simp add: typed_config_def default_config_def int64_def second_ns_def hour_ns_def)

lemma typed_normalize: "typed_account a \<Longrightarrow> typed_account (normalize_account a)"
  by (simp add: typed_account_def normalize_port int64_def)

lemma load_values_typed [simp]:
  "int64 n \<Longrightarrow> int64 (fst (load_int env k n))"
  "int64 n \<Longrightarrow> int64 (fst (load_int64 env k n))"
  "int64 n \<Longrightarrow> int64 (fst (load_duration env k n))"
  by (auto simp: load_int_def load_int64_def load_duration_def atoi_def
      dest: parse_int_range parse_duration_range split: option.split sum.split)

lemma typed_env_account: "typed_account (fst (env_account env no_account))"
  by (simp add: env_account_def typed_account_def no_account_def env_field_value int64_def [of 0])

lemma load_env_typed:
  assumes "typed_config c"
  shows "typed_config (snd (load_env env c))"
  using assms typed_normalize [OF typed_env_account [of env]]
  by (simp add: typed_config_def snd_load_env env_config_def env_field_value env_llm_def env_imap_def
      env_accounts_value env_telegram_def env_digest_def env_concurrency_def)

end
