(* ===== verification/Flags.thy ===== *)
theory Flags
  imports Environment
begin

text \<open>
  \<open>internal/config/flags.go\<close>: the layer of command-line flags, on a model of the package \<open>flag\<close> of
  the standard library: a flag set is the list of its flags with their current values, and
  \<open>parse_flags\<close> is \<open>FlagSet.Parse\<close> with \<open>ContinueOnError\<close>.
\<close>

section \<open>Package \<open>flag\<close>\<close>

datatype flag_value = FBool bool | FInt int | FInt64 int | FString string | FDuration duration

type_synonym flag_set = "(string \<times> flag_value) list"

definition set_flag :: "string \<Rightarrow> flag_value \<Rightarrow> flag_set \<Rightarrow> flag_set" where
  "set_flag name v fs = map (\<lambda>(n, w). if n = name then (n, v) else (n, w)) fs"

text \<open>The errors that \<open>numError\<close> and the \<open>Set\<close> methods return.\<close>

fun flag_num_error :: "num_error \<Rightarrow> err" where
  "flag_num_error BadSyntax = Err ''parse error''"
| "flag_num_error OutOfRange = Err ''value out of range''"

fun read_flag :: "flag_value \<Rightarrow> string \<Rightarrow> err + flag_value" where
  "read_flag (FBool _) v = (case parse_bool v of Inl e \<Rightarrow> Inl (Err ''parse error'') | Inr b \<Rightarrow> Inr (FBool b))"
| "read_flag (FInt _) v = (case parse_int 0 v of Inl e \<Rightarrow> Inl (flag_num_error e) | Inr n \<Rightarrow> Inr (FInt n))"
| "read_flag (FInt64 _) v = (case parse_int 0 v of Inl e \<Rightarrow> Inl (flag_num_error e) | Inr n \<Rightarrow> Inr (FInt64 n))"
| "read_flag (FString _) v = Inr (FString v)"
| "read_flag (FDuration _) v = (case parse_duration v of Inl e \<Rightarrow> Inl (Err ''parse error'') | Inr d \<Rightarrow> Inr (FDuration d))"

text \<open>One argument: not a flag, the terminator, malformed, or a name with the text after its first
  equals sign.\<close>

datatype flag_arg = Positional | Terminator | BadFlag | FlagArg string "string option"

definition cut_equals :: "string \<Rightarrow> string \<times> string option" where
  "cut_equals name =
     (case index_of ''='' name of None \<Rightarrow> (name, None) | Some k \<Rightarrow> (take k name, Some (drop (Suc k) name)))"

definition flag_arg :: "string \<Rightarrow> flag_arg" where
  "flag_arg s =
     (if length s < 2 \<or> hd s \<noteq> CHR ''-'' then Positional
      else if s = ''--'' then Terminator
      else let name = (if s ! 1 = CHR ''-'' then drop 2 s else drop 1 s) in
        if name = [] \<or> hd name = CHR ''-'' \<or> hd name = CHR ''='' then BadFlag
        else (case cut_equals name of (n, v) \<Rightarrow> FlagArg n v))"

definition help_requested :: err where
  "help_requested = Sentinel ''flag: help requested''"

definition flag_error :: "string \<Rightarrow> string \<Rightarrow> err \<Rightarrow> err" where
  "flag_error value name e = Wrap (''invalid value '' @ go_quote value @ '' for flag -'' @ name @ '': '') e"

fun is_bool_flag :: "flag_value \<Rightarrow> bool" where
  "is_bool_flag (FBool _) = True"
| "is_bool_flag _ = False"

text \<open>\<open>Parse\<close>: the flags after the arguments, and the arguments that are left.\<close>

fun parse_flags :: "flag_set \<Rightarrow> string list \<Rightarrow> err + flag_set \<times> string list" where
  "parse_flags fs [] = Inr (fs, [])"
| "parse_flags fs (s # args) =
     (case flag_arg s of
        Positional \<Rightarrow> Inr (fs, s # args)
      | Terminator \<Rightarrow> Inr (fs, args)
      | BadFlag \<Rightarrow> Inl (Err (''bad flag syntax: '' @ s))
      | FlagArg name v \<Rightarrow>
     (case map_of fs name of
        None \<Rightarrow>
          if name = ''help'' \<or> name = ''h'' then Inl help_requested
          else Inl (Err (''flag provided but not defined: -'' @ name))
      | Some old \<Rightarrow>
          if is_bool_flag old then
            (case v of
               None \<Rightarrow> parse_flags (set_flag name (FBool True) fs) args
             | Some value \<Rightarrow>
                 (case read_flag old value of
                    Inl e \<Rightarrow> Inl (Wrap (''invalid boolean value '' @ go_quote value @ '' for -'' @ name @ '': '') e)
                  | Inr new \<Rightarrow> parse_flags (set_flag name new fs) args))
          else
            (case v of
               Some value \<Rightarrow>
                 (case read_flag old value of
                    Inl e \<Rightarrow> Inl (flag_error value name e)
                  | Inr new \<Rightarrow> parse_flags (set_flag name new fs) args)
             | None \<Rightarrow>
                 (case args of
                    [] \<Rightarrow> Inl (Err (''flag needs an argument: -'' @ name))
                  | value # args' \<Rightarrow>
                      (case read_flag old value of
                         Inl e \<Rightarrow> Inl (flag_error value name e)
                       | Inr new \<Rightarrow> parse_flags (set_flag name new fs) args')))))"

fun bool_of :: "flag_value option \<Rightarrow> bool" where
  "bool_of (Some (FBool b)) = b" | "bool_of _ = False"

fun int_of_flag :: "flag_value option \<Rightarrow> int" where
  "int_of_flag (Some (FInt n)) = n" | "int_of_flag (Some (FInt64 n)) = n" | "int_of_flag (Some (FDuration n)) = n"
| "int_of_flag _ = 0"

fun text_of_flag :: "flag_value option \<Rightarrow> string" where
  "text_of_flag (Some (FString s)) = s" | "text_of_flag _ = []"

section \<open>The flags of the configuration\<close>

definition flags_top :: "config \<Rightarrow> flag_set" where
  "flags_top c =
     [(''fetch-unread-only'', FBool (cfg_fetch_unread_only c)), (''max-window'', FDuration (cfg_max_window c))]"

definition flags_llm :: "llm_config \<Rightarrow> flag_set" where
  "flags_llm c =
     [(''llm-provider'', FString (llm_provider c)), (''llm-api-key'', FString (llm_api_key c)),
      (''llm-model'', FString (llm_model c)), (''llm-endpoint'', FString (llm_endpoint c)),
      (''llm-timeout'', FDuration (llm_timeout c)), (''llm-max-retries'', FInt (llm_max_retries c)),
      (''llm-max-concurrent'', FInt (llm_max_concurrent c)),
      (''llm-analysis-repair-max-attempts'', FInt (llm_repair_max_attempts c))]"

definition flags_imap :: flag_set where
  "flags_imap =
     [(''imap-host'', FString []), (''imap-label'', FString []), (''imap-port'', FInt 0),
      (''imap-username'', FString []), (''imap-password'', FString []), (''imap-folders'', FString []),
      (''imap-use-tls'', FBool False)]"

definition flags_telegram :: "telegram_config \<Rightarrow> flag_set" where
  "flags_telegram c =
     [(''telegram-bot-token'', FString (tg_bot_token c)), (''telegram-chat-id'', FInt64 (tg_chat_id c))]"

definition flags_storage :: "storage_config \<Rightarrow> flag_set" where
  "flags_storage c =
     [(''state-path'', FString (st_state_path c)), (''stateless'', FBool (st_stateless c))]"

definition flags_digest :: "digest_config \<Rightarrow> flag_set" where
  "flags_digest c =
     [(''digest-max-message-excerpt'', FInt (dg_max_excerpt c)),
      (''digest-include-read-status'', FBool (dg_read_status c)),
      (''digest-include-global-stats'', FBool (dg_global_stats c)),
      (''digest-include-account-stats'', FBool (dg_account_stats c)),
      (''digest-include-summaries'', FBool (dg_summaries c)),
      (''digest-include-key-points'', FBool (dg_key_points c)),
      (''digest-include-action-items'', FBool (dg_action_items c)),
      (''digest-include-raw-excerpt-fallback'', FBool (dg_raw_fallback c)),
      (''digest-max-messages'', FInt (dg_max_messages c)),
      (''digest-max-key-points-per-message'', FInt (dg_max_key_points c)),
      (''digest-max-action-items-per-message'', FInt (dg_max_action_items c)),
      (''digest-priority-only'', FBool (dg_priority_only c))]"

definition flags_labels :: flag_set where
  "flags_labels = [(''labels-custom'', FString [])]"

definition flags_concurrency :: "concurrency_config \<Rightarrow> flag_set" where
  "flags_concurrency c =
     [(''concurrency-max-accounts'', FInt (cc_max_accounts c)),
      (''concurrency-max-llm-calls'', FInt (cc_max_llm_calls c))]"

definition config_flags :: "config \<Rightarrow> flag_set" where
  "config_flags c =
     flags_top c @ flags_llm (cfg_llm c) @ flags_imap @ flags_telegram (cfg_telegram c)
     @ flags_storage (cfg_storage c) @ flags_digest (cfg_digest c) @ flags_labels
     @ flags_concurrency (cfg_concurrency c)"

section \<open>Applying the flags\<close>

definition split_comma :: "string \<Rightarrow> string list" where
  "split_comma s = clean_parts s"

definition apply_llm :: "flag_set \<Rightarrow> llm_config \<Rightarrow> llm_config" where
  "apply_llm fs c = c
     \<lparr>llm_provider := text_of_flag (map_of fs ''llm-provider''),
      llm_api_key := text_of_flag (map_of fs ''llm-api-key''),
      llm_model := text_of_flag (map_of fs ''llm-model''),
      llm_endpoint := text_of_flag (map_of fs ''llm-endpoint''),
      llm_timeout := int_of_flag (map_of fs ''llm-timeout''),
      llm_max_retries := int_of_flag (map_of fs ''llm-max-retries''),
      llm_max_concurrent := int_of_flag (map_of fs ''llm-max-concurrent''),
      llm_repair_max_attempts := int_of_flag (map_of fs ''llm-analysis-repair-max-attempts'')\<rparr>"

definition flag_account :: "flag_set \<Rightarrow> imap_account" where
  "flag_account fs =
     normalize_account
       \<lparr>acct_label = text_of_flag (map_of fs ''imap-label''), acct_host = text_of_flag (map_of fs ''imap-host''),
        acct_port = int_of_flag (map_of fs ''imap-port''),
        acct_username = text_of_flag (map_of fs ''imap-username''),
        acct_password = text_of_flag (map_of fs ''imap-password''),
        acct_folders = (let f = text_of_flag (map_of fs ''imap-folders'') in
                        if f \<noteq> [] then Some (split_comma f) else None),
        acct_use_tls = bool_of (map_of fs ''imap-use-tls'')\<rparr>"

definition apply_imap :: "flag_set \<Rightarrow> imap_config \<Rightarrow> imap_config" where
  "apply_imap fs c =
     (if text_of_flag (map_of fs ''imap-host'') \<noteq> []
      then c\<lparr>imap_accounts := imap_accounts c @ [flag_account fs]\<rparr> else c)"

definition apply_telegram :: "flag_set \<Rightarrow> telegram_config \<Rightarrow> telegram_config" where
  "apply_telegram fs c = c
     \<lparr>tg_bot_token := text_of_flag (map_of fs ''telegram-bot-token''),
      tg_chat_id := int_of_flag (map_of fs ''telegram-chat-id'')\<rparr>"

definition apply_storage :: "flag_set \<Rightarrow> storage_config \<Rightarrow> storage_config" where
  "apply_storage fs c = c
     \<lparr>st_state_path := text_of_flag (map_of fs ''state-path''),
      st_stateless := bool_of (map_of fs ''stateless'')\<rparr>"

definition apply_digest :: "flag_set \<Rightarrow> digest_config \<Rightarrow> digest_config" where
  "apply_digest fs c = c
     \<lparr>dg_max_excerpt := int_of_flag (map_of fs ''digest-max-message-excerpt''),
      dg_read_status := bool_of (map_of fs ''digest-include-read-status''),
      dg_global_stats := bool_of (map_of fs ''digest-include-global-stats''),
      dg_account_stats := bool_of (map_of fs ''digest-include-account-stats''),
      dg_summaries := bool_of (map_of fs ''digest-include-summaries''),
      dg_key_points := bool_of (map_of fs ''digest-include-key-points''),
      dg_action_items := bool_of (map_of fs ''digest-include-action-items''),
      dg_raw_fallback := bool_of (map_of fs ''digest-include-raw-excerpt-fallback''),
      dg_max_messages := int_of_flag (map_of fs ''digest-max-messages''),
      dg_max_key_points := int_of_flag (map_of fs ''digest-max-key-points-per-message''),
      dg_max_action_items := int_of_flag (map_of fs ''digest-max-action-items-per-message''),
      dg_priority_only := bool_of (map_of fs ''digest-priority-only'')\<rparr>"

definition apply_labels :: "flag_set \<Rightarrow> labels_config \<Rightarrow> labels_config" where
  "apply_labels fs c =
     (let s = text_of_flag (map_of fs ''labels-custom'') in
      if s \<noteq> [] then c\<lparr>lb_custom := split_comma s\<rparr> else c)"

definition apply_concurrency :: "flag_set \<Rightarrow> concurrency_config \<Rightarrow> concurrency_config" where
  "apply_concurrency fs c = c
     \<lparr>cc_max_accounts := int_of_flag (map_of fs ''concurrency-max-accounts''),
      cc_max_llm_calls := int_of_flag (map_of fs ''concurrency-max-llm-calls'')\<rparr>"

definition apply_config_flags :: "flag_set \<Rightarrow> config \<Rightarrow> config" where
  "apply_config_flags fs c = c
     \<lparr>cfg_fetch_unread_only := bool_of (map_of fs ''fetch-unread-only''),
      cfg_max_window := int_of_flag (map_of fs ''max-window''),
      cfg_llm := apply_llm fs (cfg_llm c),
      cfg_imap := apply_imap fs (cfg_imap c),
      cfg_telegram := apply_telegram fs (cfg_telegram c),
      cfg_storage := apply_storage fs (cfg_storage c),
      cfg_digest := apply_digest fs (cfg_digest c),
      cfg_labels := apply_labels fs (cfg_labels c),
      cfg_concurrency := apply_concurrency fs (cfg_concurrency c)\<rparr>"

text \<open>\<open>loadFlags\<close>: the arguments after the flags are not looked at.\<close>

definition load_flags :: "string list \<Rightarrow> config \<Rightarrow> err + config" where
  "load_flags args c =
     (case parse_flags (config_flags c) args of
        Inl e \<Rightarrow> Inl (Wrap ''config.loadFlags: '' e)
      | Inr (fs, rest) \<Rightarrow> Inr (apply_config_flags fs c))"

section \<open>Reading back what was written\<close>

fun kind_of :: "flag_value \<Rightarrow> nat" where
  "kind_of (FBool _) = 0" | "kind_of (FInt _) = 1" | "kind_of (FInt64 _) = 2" | "kind_of (FString _) = 3"
| "kind_of (FDuration _) = 4"

text \<open>A value as one writes it on the command line, and an argument that sets a flag.\<close>

fun show_flag :: "flag_value \<Rightarrow> string" where
  "show_flag (FBool b) = (if b then ''true'' else ''false'')"
| "show_flag (FInt n) = fmt_d n"
| "show_flag (FInt64 n) = fmt_d n"
| "show_flag (FString s) = s"
| "show_flag (FDuration d) = fmt_d d @ ''ns''"

definition show_arg :: "string \<times> flag_value \<Rightarrow> string" where
  "show_arg f = ''--'' @ fst f @ ''='' @ show_flag (snd f)"

fun typed_flag :: "flag_value \<Rightarrow> bool" where
  "typed_flag (FInt n) = int64 n" | "typed_flag (FInt64 n) = int64 n"
| "typed_flag (FDuration d) = int64 d" | "typed_flag _ = True"

fun representable :: "flag_value \<Rightarrow> bool" where
  "representable (FDuration d) = (int64 d \<and> d \<noteq> - (2 ^ 63))" | "representable v = typed_flag v"

definition flag_name :: "string \<Rightarrow> bool" where
  "flag_name n \<longleftrightarrow> n \<noteq> [] \<and> CHR ''='' \<notin> set n \<and> hd n \<noteq> CHR ''-''"

lemma read_show_flag:
  assumes "representable v" and "kind_of old = kind_of v"
  shows "read_flag old (show_flag v) = Inr v"
proof (cases v)
  case (FBool b)
  then show ?thesis using assms(2) by (cases old) (auto simp: parse_bool_def)
next
  case (FDuration d)
  have "unit_of ''ns'' = Some 1" by (simp add: unit_of_def units_def)
  then have "parse_duration (fmt_d d @ ''ns'') = Inr d"
    using assms(1) FDuration parse_duration_unit [of "''ns''" 1 "nat d"] parse_duration_unit [of "''ns''" 1 "nat (- d)"]
    by (auto simp: fmt_d_def int64_def)
  then show ?thesis using assms(2) FDuration by (cases old) auto
qed (use assms in \<open>cases old; simp add: parse_int_fmt_d\<close>)+

lemma flag_arg_show:
  assumes "flag_name n"
  shows "flag_arg (show_arg (n, v)) = FlagArg n (Some (show_flag v))"
proof -
  have "cut_equals (n @ ''='' @ show_flag v) = (n, Some (show_flag v))"
    using assms index_of_char [of "CHR ''=''" n "show_flag v"] by (simp add: cut_equals_def flag_name_def)
  moreover have "hd n \<noteq> CHR ''=''" using assms by (cases n) (auto simp: flag_name_def)
  ultimately show ?thesis using assms by (simp add: flag_arg_def show_arg_def flag_name_def)
qed

lemma map_of_set_flag:
  "map_of (set_flag n v fs) m = (if m = n \<and> map_of fs n \<noteq> None then Some v else map_of fs m)"
  by (induction fs) (auto simp: set_flag_def)

lemma parse_flags_show:
  assumes "\<And>n v. (n, v) \<in> set kvs \<Longrightarrow>
      representable v \<and> flag_name n \<and> (\<exists>w. map_of fs n = Some w \<and> kind_of w = kind_of v)"
  shows "parse_flags fs (map show_arg kvs @ args) = parse_flags (fold (\<lambda>(n, v). set_flag n v) kvs fs) args"
  using assms
proof (induction kvs arbitrary: fs)
  case (Cons kv kvs)
  obtain n v where kv: "kv = (n, v)" by fastforce
  obtain w where w: "representable v" "flag_name n" "map_of fs n = Some w" "kind_of w = kind_of v"
    using Cons.prems [of n v] kv by auto
  have "read_flag w (show_flag v) = Inr v" using w by (intro read_show_flag) auto
  then have "parse_flags fs (show_arg kv # map show_arg kvs @ args) =
      parse_flags (set_flag n v fs) (map show_arg kvs @ args)"
    using w by (simp add: kv flag_arg_show)
  also have "\<dots> = parse_flags (fold (\<lambda>(n, v). set_flag n v) kvs (set_flag n v fs)) args"
    using Cons.prems w by (intro Cons.IH) (fastforce simp: map_of_set_flag)
  finally show ?case by (simp add: kv)
qed simp

text \<open>Setting every flag of a set gives the settings, whatever the flags were before.\<close>

lemma set_all_flags:
  assumes "map fst kvs = map fst fs" and "distinct (map fst (before @ fs))"
  shows "fold (\<lambda>(n, v). set_flag n v) kvs (before @ fs) = before @ kvs"
  using assms
proof (induction kvs arbitrary: before fs)
  case (Cons kv kvs)
  obtain n v where kv: "kv = (n, v)" by fastforce
  obtain w gs where fs: "fs = (n, w) # gs" "map fst kvs = map fst gs" using Cons.prems(1) kv by (cases fs) auto
  have other: "set_flag n v hs = hs" if "n \<notin> fst ` set hs" for hs
    using that by (induction hs) (auto simp: set_flag_def)
  have "set_flag n v (before @ fs) = (before @ [(n, v)]) @ gs"
    using Cons.prems(2) other [of "before"] other [of gs] by (simp add: fs set_flag_def) 
  moreover have "distinct (map fst ((before @ [(n, v)]) @ gs))" using Cons.prems(2) by (auto simp: fs)
  ultimately show ?case using Cons.IH [OF fs(2), of "before @ [(n, v)]"] by (simp add: kv)
qed simp

lemma config_flag_names: "map fst (config_flags c) = map fst (config_flags default_config)"
  by (simp add: config_flags_def flags_top_def flags_llm_def flags_telegram_def flags_storage_def
      flags_digest_def flags_concurrency_def)

lemma config_flag_kinds: "map (kind_of \<circ> snd) (config_flags c) = map (kind_of \<circ> snd) (config_flags default_config)"
  by (simp add: config_flags_def flags_top_def flags_llm_def flags_telegram_def flags_storage_def
      flags_digest_def flags_concurrency_def flags_imap_def flags_labels_def)

lemma config_flags_wf:
  "list_all flag_name (map fst (config_flags default_config)) \<and> distinct (map fst (config_flags default_config))"
  by code_simp

text \<open>The settings that have a flag are those of \<open>c\<close>, the others those of \<open>c0\<close>.\<close>

definition overlay :: "config \<Rightarrow> config \<Rightarrow> config" where
  "overlay c c0 =
     c\<lparr>cfg_imap := cfg_imap c0, cfg_labels := cfg_labels c0, cfg_prompts := cfg_prompts c0,
       cfg_concurrency := (cfg_concurrency c)\<lparr>cc_fetch_batch := cc_fetch_batch (cfg_concurrency c0)\<rparr>\<rparr>"

lemma apply_all_flags: "apply_config_flags (config_flags c) c0 = overlay c c0"
  by (simp add: apply_config_flags_def config_flags_def flags_top_def flags_llm_def flags_imap_def
      flags_telegram_def flags_storage_def flags_digest_def flags_labels_def flags_concurrency_def
      apply_llm_def apply_imap_def apply_telegram_def apply_storage_def apply_digest_def apply_labels_def
      apply_concurrency_def overlay_def)

lemma load_all_flags:
  assumes "typed_config c" and "0 < cfg_max_window c" and "0 < llm_timeout (cfg_llm c)"
  shows "load_flags (map show_arg (config_flags c)) c0 = Inr (overlay c c0)"
proof -
  let ?fs = "config_flags c0" and ?kvs = "config_flags c"
  have names: "map fst ?kvs = map fst ?fs" and kinds: "map (kind_of \<circ> snd) ?kvs = map (kind_of \<circ> snd) ?fs"
    using config_flag_names [of c] config_flag_names [of c0] config_flag_kinds [of c] config_flag_kinds [of c0] by simp_all
  have wf: "list_all flag_name (map fst ?fs)" "distinct (map fst ?fs)"
    using config_flags_wf config_flag_names [of c0] by simp_all
  have repr: "list_all representable (map snd ?kvs)"
    using assms by (simp add: config_flags_def flags_top_def flags_llm_def flags_imap_def
      flags_telegram_def flags_storage_def flags_digest_def flags_labels_def flags_concurrency_def
      typed_config_def int64_def)
  have "representable v \<and> flag_name n \<and> (\<exists>w. map_of ?fs n = Some w \<and> kind_of w = kind_of v)"
    if mem: "(n, v) \<in> set ?kvs" for n v
  proof -
    obtain i where i: "i < length ?kvs" "?kvs ! i = (n, v)" using mem unfolding in_set_conv_nth by blast
    have len: "length ?fs = length ?kvs" using names by (metis length_map)
    have "fst (?fs ! i) = n" using arg_cong [OF names, of "\<lambda>xs. xs ! i"] i len by simp
    then have "map_of ?fs n = Some (snd (?fs ! i))" using wf(2) i len by (metis map_of_eq_Some_iff nth_mem prod.collapse)
    moreover have "kind_of (snd (?fs ! i)) = kind_of v" using arg_cong [OF kinds, of "\<lambda>xs. xs ! i"] i len by simp
    moreover have "representable v" using repr mem by (auto simp: list_all_iff)
    moreover have "n \<in> set (map fst ?fs)" using mem names by (metis fst_conv image_eqI set_map)
    then have "flag_name n" using wf(1) by (auto simp: list_all_iff)
    ultimately show ?thesis by blast
  qed
  then have "parse_flags ?fs (map show_arg ?kvs @ []) = parse_flags (fold (\<lambda>(n, v). set_flag n v) ?kvs ?fs) []"
    by (rule parse_flags_show)
  also have "fold (\<lambda>(n, v). set_flag n v) ?kvs ?fs = ?kvs"
    using set_all_flags [OF names, of "[]"] wf(2) by simp
  finally show ?thesis by (simp add: load_flags_def apply_all_flags)
qed



lemma apply_own_flags: "apply_config_flags (config_flags c) c = c"
  by (simp add: apply_all_flags overlay_def)

section \<open>Arguments after the flags\<close>

lemma parse_flags_stop:
  assumes "parse_flags fs pre = Inr (gs, [])" and "flag_arg s = Positional"
  shows "\<exists>r. parse_flags fs (pre @ s # rest) = Inr (gs, r)"
  using assms(1)
proof (induction fs pre rule: parse_flags.induct)
  case (1 fs)
  then show ?case using assms(2) by simp
next
  case (2 fs t args)
  show ?case
  proof (cases "flag_arg t")
    case (FlagArg name v)
    obtain old where old: "map_of fs name = Some old"
      using "2.prems" FlagArg by (cases "map_of fs name") (auto split: if_splits)
    note IH = "2.IH" [OF FlagArg old]
    show ?thesis
    proof (cases "is_bool_flag old")
      case True
      then show ?thesis using "2.prems" FlagArg old IH by (cases v) (auto split: sum.splits)
    next
      case False
      then show ?thesis using "2.prems" FlagArg old IH
        by (cases v; cases args) (auto split: sum.splits)
    qed
  qed (use "2.prems" in auto)
qed

text \<open>The first argument that is not a flag ends the flags: it and everything after it, known or
  unknown, well-formed or not, has no effect on the configuration and is not an error.\<close>

theorem positional_ends_flags:
  assumes "parse_flags (config_flags c) pre = Inr (fs, [])" and "flag_arg s = Positional"
  shows "load_flags (pre @ s # rest) c = load_flags pre c"
  using parse_flags_stop [OF assms, of rest] assms(1) by (auto simp: load_flags_def)

theorem positional_ends_flags_witness:
  "load_flags ([''--stateless''] @ ''false'' # [''--fetch-unread-only'', ''--nonsense'']) default_config
     = load_flags [''--stateless''] default_config"
  by (rule positional_ends_flags [where fs = "set_flag ''stateless'' (FBool True) (config_flags default_config)"])
    (code_simp, code_simp)

section \<open>The width of the numbers\<close>

lemma read_flag_typed: "read_flag old v = Inr new \<Longrightarrow> typed_flag new"
  by (cases old) (auto split: sum.splits dest: parse_int_range parse_duration_range)

lemma set_flag_typed:
  "list_all typed_flag (map snd fs) \<Longrightarrow> typed_flag v \<Longrightarrow> list_all typed_flag (map snd (set_flag n v fs))"
  by (auto simp: set_flag_def list_all_iff)

lemma parse_flags_typed:
  "parse_flags fs args = Inr (gs, r) \<Longrightarrow> list_all typed_flag (map snd fs) \<Longrightarrow> list_all typed_flag (map snd gs)"
proof (induction fs args rule: parse_flags.induct)
  case (2 fs t args)
  show ?case
  proof (cases "flag_arg t")
    case (FlagArg name v)
    obtain old where old: "map_of fs name = Some old"
      using "2.prems"(1) FlagArg by (cases "map_of fs name") (auto split: if_splits)
    have set: "list_all typed_flag (map snd (set_flag name new fs))" if "typed_flag new" for new
      using set_flag_typed [OF "2.prems"(2) that] .
    note IH = "2.IH" [OF FlagArg old]
    show ?thesis
    proof (cases "is_bool_flag old")
      case True
      then show ?thesis using "2.prems"(1) FlagArg old IH(1,2) set set [OF read_flag_typed]
        by (cases v) (auto split: sum.splits)
    next
      case False
      show ?thesis
      proof (cases v)
        case None
        then obtain a as new where args: "args = a # as" "read_flag old a = Inr new"
          "parse_flags (set_flag name new fs) as = Inr (gs, r)"
          using "2.prems"(1) FlagArg old False by (cases args) (auto split: sum.splits)
        show ?thesis using IH(3) [OF False None args] set [OF read_flag_typed [OF args(2)]] by simp
      next
        case (Some val)
        then show ?thesis using "2.prems"(1) FlagArg old False IH(4) set [OF read_flag_typed]
          by (auto split: sum.splits)
      qed
    qed
  qed (use "2.prems" in auto)
qed simp

lemma int_of_flag_typed:
  "list_all typed_flag (map snd fs) \<Longrightarrow> int64 (int_of_flag (map_of fs n))"
proof (cases "map_of fs n")
  case (Some v)
  assume "list_all typed_flag (map snd fs)"
  then have "typed_flag v" using map_of_SomeD [OF Some] by (auto simp: list_all_iff)
  then show ?thesis using Some by (cases v) (auto simp: int64_def)
qed (simp add: int64_def)

lemma config_flags_typed: "typed_config c \<Longrightarrow> list_all typed_flag (map snd (config_flags c))"
  by (simp add: config_flags_def flags_top_def flags_llm_def flags_imap_def flags_telegram_def
      flags_storage_def flags_digest_def flags_labels_def flags_concurrency_def typed_config_def int64_def)

lemma apply_flags_typed:
  assumes "parse_flags (config_flags c) args = Inr (fs, r)" and "typed_config c"
  shows "typed_config (apply_config_flags fs c)"
proof -
  note num = int_of_flag_typed [OF parse_flags_typed [OF assms(1) config_flags_typed [OF assms(2)]]]
  have "typed_account (flag_account fs)"
    unfolding flag_account_def by (rule typed_normalize) (simp add: typed_account_def num)
  then show ?thesis
    using assms(2) by (simp add: typed_config_def apply_config_flags_def apply_llm_def apply_imap_def
        apply_telegram_def apply_digest_def apply_concurrency_def num)
qed

end
