(* ===== verification/Load.thy ===== *)
theory Load
  imports Flags
begin

text \<open>
  \<open>internal/config/load.go\<close>, \<open>yaml.go\<close> and \<open>json.go\<close>: the layers of the configuration.  Reading a file
  and \<open>yaml.Unmarshal\<close> of \<open>yaml.v3\<close> are the parameter \<open>config_lib\<close>: decoding into a map gives the
  number of its keys, decoding into a configuration overwrites the fields that the text has.
\<close>

record config_lib =
  cl_read_file :: "string \<Rightarrow> err + string"
  cl_keys :: "string \<Rightarrow> err + nat"
  cl_into :: "string \<Rightarrow> config \<Rightarrow> err + config"

record load_options =
  lo_config_path :: string
  lo_args :: "string list option" \<comment> \<open>None is nil\<close>

definition load_yaml :: "config_lib \<Rightarrow> string \<Rightarrow> config \<Rightarrow> err + config" where
  "load_yaml lib path c =
     (case cl_read_file lib path of
        Inl e \<Rightarrow> Inl (Wrap ''config.loadYAML: '' e)
      | Inr data \<Rightarrow>
     (case cl_keys lib data of
        Inl e \<Rightarrow> Inl (Wrap ''config.loadYAML: '' e)
      | Inr n \<Rightarrow>
          if n = 0 then Inr c
          else (case cl_into lib data c of
              Inl e \<Rightarrow> Inl (Wrap ''config.loadYAML: '' e)
            | Inr c \<Rightarrow> Inr c)))"

definition load_json :: "config_lib \<Rightarrow> string \<Rightarrow> config \<Rightarrow> err + config" where
  "load_json lib path c =
     (case cl_read_file lib path of
        Inl e \<Rightarrow> Inl (Wrap ''config.loadJSON: '' e)
      | Inr data \<Rightarrow>
          if is_blank data then Inr c
          else (case cl_keys lib data of
              Inl e \<Rightarrow> Inl (Wrap ''config.loadJSON: '' e)
            | Inr n \<Rightarrow>
                if n = 0 then Inr c
                else (case cl_into lib data c of
                    Inl e \<Rightarrow> Inl (Wrap ''config.loadJSON: '' e)
                  | Inr c \<Rightarrow> Inr c)))"

definition load_file :: "config_lib \<Rightarrow> string \<Rightarrow> config \<Rightarrow> err + config" where
  "load_file lib path c =
     (if has_suffix ''.yaml'' path \<or> has_suffix ''.yml'' path then
        (case load_yaml lib path c of Inl e \<Rightarrow> Inl (Wrap ''config.Load: '' e) | Inr c \<Rightarrow> Inr c)
      else if has_suffix ''.json'' path then
        (case load_json lib path c of Inl e \<Rightarrow> Inl (Wrap ''config.Load: '' e) | Inr c \<Rightarrow> Inr c)
      else Inl (Err (''config.Load: unsupported config file extension: '' @ go_quote path
                     @ '' (supported: .yaml, .yml, .json)'')))"

definition load :: "config_lib \<Rightarrow> environment \<Rightarrow> string list \<Rightarrow> load_options \<Rightarrow> err + config" where
  "load lib env os_args opts =
     (case (if lo_config_path opts \<noteq> [] then load_file lib (lo_config_path opts) default_config
            else Inr default_config) of
        Inl e \<Rightarrow> Inl e
      | Inr c \<Rightarrow>
     (case load_env env c of
        (Some e, c) \<Rightarrow> Inl e
      | (None, c) \<Rightarrow> load_flags (case lo_args opts of None \<Rightarrow> os_args | Some args \<Rightarrow> args) c))"

section \<open>The layers\<close>

text \<open>The configuration after the file, and the arguments that are parsed.\<close>

definition file_config :: "config_lib \<Rightarrow> load_options \<Rightarrow> err + config" where
  "file_config lib opts =
     (if lo_config_path opts \<noteq> [] then load_file lib (lo_config_path opts) default_config else Inr default_config)"

definition args_of :: "string list \<Rightarrow> load_options \<Rightarrow> string list" where
  "args_of os_args opts = (case lo_args opts of None \<Rightarrow> os_args | Some args \<Rightarrow> args)"

lemma load_eq:
  "load lib env os_args opts =
     (case file_config lib opts of
        Inl e \<Rightarrow> Inl e
      | Inr c \<Rightarrow> (case load_env env c of (Some e, c) \<Rightarrow> Inl e | (None, c) \<Rightarrow> load_flags (args_of os_args opts) c))"
  unfolding load_def file_config_def args_of_def by (rule refl)

lemma load_Inr:
  assumes "load lib env os_args opts = Inr c'"
  obtains c fs r where "file_config lib opts = Inr c" and "fst (load_env env c) = None"
    and "parse_flags (config_flags (snd (load_env env c))) (args_of os_args opts) = Inr (fs, r)"
    and "c' = apply_config_flags fs (snd (load_env env c))"
proof -
  obtain c where c: "file_config lib opts = Inr c" using assms by (auto simp: load_eq split: sum.splits)
  obtain e c1 where c1: "load_env env c = (e, c1)" by fastforce
  have "load_flags (args_of os_args opts) c1 = Inr c'" "e = None"
    using assms c c1 by (auto simp: load_eq split: option.splits)
  then show thesis using that c c1 by (auto simp: load_flags_def split: sum.splits)
qed

text \<open>With no file, no variable and no argument the configuration is the default one.\<close>

theorem load_defaults:
  assumes "\<And>v. env (env_prefix @ v) = None"
  shows "load lib env os_args \<lparr>lo_config_path = [], lo_args = Some []\<rparr> = Inr default_config"
proof -
  have "load_env env default_config = (None, default_config)" using assms by (rule load_env_unset)
  then show ?thesis by (simp add: load_def load_flags_def apply_own_flags)
qed

theorem load_defaults_witness:
  "load \<lparr>cl_read_file = \<lambda>_. Inr [], cl_keys = \<lambda>_. Inr 0, cl_into = \<lambda>_. Inr\<rparr> Map.empty [''x'']
     \<lparr>lo_config_path = [], lo_args = Some []\<rparr> = Inr default_config"
  by (rule load_defaults) simp



text \<open>C27: Accounts accumulate: those of the file come first, then the one of the environment when
  \<open>EMAILER_IMAP_HOST\<close> is set, then the one of the flags when \<open>-imap-host\<close> is not empty.\<close>

theorem load_accounts:
  assumes "load lib env os_args opts = Inr c'"
  shows "\<exists>c fs r. file_config lib opts = Inr c
    \<and> parse_flags (config_flags (snd (load_env env c))) (args_of os_args opts) = Inr (fs, r)
    \<and> imap_accounts (cfg_imap c') =
        imap_accounts (cfg_imap c)
        @ (if env (env_prefix @ ''IMAP_HOST'') = None then []
           else [normalize_account (fst (env_account env no_account))])
        @ (if text_of_flag (map_of fs ''imap-host'') = [] then [] else [flag_account fs])"
proof -
  obtain c fs r where c: "file_config lib opts = Inr c"
    and fs: "parse_flags (config_flags (snd (load_env env c))) (args_of os_args opts) = Inr (fs, r)"
    and c': "c' = apply_config_flags fs (snd (load_env env c))"
    using assms by (rule load_Inr)
  then show ?thesis
    using load_env_accounts [of env c]
    by (intro exI [of _ c] exI [of _ fs] exI [of _ r]) (simp add: apply_config_flags_def apply_imap_def)
qed

theorem load_accounts_witness:
  "\<exists>c fs r. file_config \<lparr>cl_read_file = \<lambda>_. Inr [], cl_keys = \<lambda>_. Inr 0, cl_into = \<lambda>_. Inr\<rparr>
       \<lparr>lo_config_path = [], lo_args = None\<rparr> = Inr c
    \<and> parse_flags (config_flags (snd (load_env [''EMAILER_IMAP_HOST'' \<mapsto> ''h''] c)))
        (args_of [''-imap-host=g''] \<lparr>lo_config_path = [], lo_args = None\<rparr>) = Inr (fs, r)
    \<and> imap_accounts (cfg_imap (apply_config_flags
          (set_flag ''imap-host'' (FString ''g'') (config_flags (snd (load_env [''EMAILER_IMAP_HOST'' \<mapsto> ''h''] default_config))))
          (snd (load_env [''EMAILER_IMAP_HOST'' \<mapsto> ''h''] default_config)))) =
        imap_accounts (cfg_imap c)
        @ (if [''EMAILER_IMAP_HOST'' \<mapsto> ''h''] (env_prefix @ ''IMAP_HOST'') = None then []
           else [normalize_account (fst (env_account [''EMAILER_IMAP_HOST'' \<mapsto> ''h''] no_account))])
        @ (if text_of_flag (map_of fs ''imap-host'') = [] then [] else [flag_account fs])"
  by (rule load_accounts) code_simp



end
