(* ===== verification/Logging.thy ===== *)
theory Logging
  imports Config "HOL-Library.Sublist"
begin

text \<open>
  \<open>internal/log\<close>: level parsing, the JSON logger as a handler, and the handler that replaces secrets.
  A value is what \<open>log/slog\<close> distinguishes: a string, a group, anything else with its text (a number
  or a duration), an error, and the wrapper \<open>Sensitive\<close>.  The JSON encoder and the clock are left
  out: \<open>handle\<close> returns the record that is encoded, and nothing below the minimum level is.
\<close>

section \<open>Levels\<close>

definition parse_level :: "string \<Rightarrow> err + int" where
  "parse_level s =
     (let l = to_lower s in
      if l = ''debug'' then Inr (- 4)
      else if l = ''info'' then Inr 0
      else if l = ''warn'' \<or> l = ''warning'' then Inr 4
      else if l = ''error'' then Inr 8
      else Inl (Err (''log: unknown level '' @ go_quote s @ '': valid values are debug, info, warn, error'')))"

section \<open>Records and handlers\<close>

datatype log_value =
  LogString string
| LogGroup "(string \<times> log_value) list"
| LogOther string
| LogError err
| LogSensitive string

type_synonym log_attrs = "(string \<times> log_value) list"

text \<open>The text that the JSON encoder prints for the values that are not groups.\<close>

fun value_text :: "log_value \<Rightarrow> string" where
  "value_text (LogString s) = s"
| "value_text (LogGroup as) = []"
| "value_text (LogOther s) = s"
| "value_text (LogError e) = err_text e"
| "value_text (LogSensitive s) = ''[REDACTED]''"

fun texts_of :: "log_value \<Rightarrow> string list" where
  "texts_of (LogGroup as) = concat (map (\<lambda>(k, v). texts_of v) as)"
| "texts_of v = [value_text v]"

record log_record =
  lr_level :: int
  lr_message :: string
  lr_attrs :: log_attrs

datatype log_frame = FrameAttrs log_attrs | FrameGroup string

datatype log_handler =
  JsonHandler int bool "log_frame list"
| RedactionHandler log_handler "string list"

datatype log_option = WithLevel int | WithAddSource bool

fun apply_option :: "log_option \<Rightarrow> int \<times> bool \<Rightarrow> int \<times> bool" where
  "apply_option (WithLevel l) (_, src) = (l, src)"
| "apply_option (WithAddSource b) (l, _) = (l, b)"

definition new_logger :: "string \<Rightarrow> log_option list \<Rightarrow> err + log_handler" where
  "new_logger level opts =
     (case parse_level level of
        Inl e \<Rightarrow> Inl e
      | Inr l \<Rightarrow> (case fold apply_option opts (l, False) of (l, src) \<Rightarrow> Inr (JsonHandler l src [])))"

section \<open>Redaction\<close>

text \<open>\<open>ReplaceAllString\<close> for a pattern that \<open>regexp.QuoteMeta\<close> made of a literal: the matches from the
  left that do not overlap.\<close>

lemma index_of_shrinks:
  assumes "index_of p s = Some k" and "p \<noteq> []"
  shows "length (drop (k + length p) s) < length s"
  using index_of_Some [OF assms(1)] assms(2) by (cases p) auto

function replace_all :: "string \<Rightarrow> string \<Rightarrow> string \<Rightarrow> string" where
  "replace_all p r s =
     (if p = [] then s
      else case index_of p s of
          None \<Rightarrow> s
        | Some k \<Rightarrow> take k s @ r @ replace_all p r (drop (k + length p) s))"
  by pat_completeness auto
termination
  by (relation "measure (\<lambda>(p, r, s). length s)") (auto dest: index_of_shrinks)

declare replace_all.simps [simp del]

lemma replace_all_None: "p = [] \<or> index_of p s = None \<Longrightarrow> replace_all p r s = s"
  and replace_all_Some: "p \<noteq> [] \<Longrightarrow> index_of p s = Some k \<Longrightarrow>
    replace_all p r s = take k s @ r @ replace_all p r (drop (k + length p) s)"
  by (auto simp: replace_all.simps [of p r s])

definition redact_text :: "string list \<Rightarrow> string \<Rightarrow> string" where
  "redact_text ps s = fold (\<lambda>p s. replace_all p ''[REDACTED]'' s) ps s"

text \<open>\<open>redactAttr\<close> leaves everything that is neither a string nor a group as it is.\<close>

fun redact_value :: "string list \<Rightarrow> log_value \<Rightarrow> log_value" where
  "redact_value ps (LogString s) = LogString (redact_text ps s)"
| "redact_value ps (LogGroup as) = LogGroup (map (\<lambda>(k, v). (k, redact_value ps v)) as)"
| "redact_value ps v = v"

definition redact_attr :: "string list \<Rightarrow> string \<times> log_value \<Rightarrow> string \<times> log_value" where
  "redact_attr ps a = (fst a, redact_value ps (snd a))"

fun nest_attrs :: "log_frame list \<Rightarrow> log_attrs \<Rightarrow> log_attrs" where
  "nest_attrs [] as = as"
| "nest_attrs (FrameAttrs bs # fs) as = bs @ nest_attrs fs as"
| "nest_attrs (FrameGroup g # fs) as = [(g, LogGroup (nest_attrs fs as))]"

fun log_enabled :: "log_handler \<Rightarrow> int \<Rightarrow> bool" where
  "log_enabled (JsonHandler l src fs) level \<longleftrightarrow> l \<le> level"
| "log_enabled (RedactionHandler h ps) level \<longleftrightarrow> log_enabled h level"

fun log_handle :: "log_handler \<Rightarrow> log_record \<Rightarrow> log_record" where
  "log_handle (JsonHandler l src fs) r = r\<lparr>lr_attrs := nest_attrs fs (lr_attrs r)\<rparr>"
| "log_handle (RedactionHandler h ps) r =
     log_handle h \<lparr>lr_level = lr_level r, lr_message = redact_text ps (lr_message r),
                   lr_attrs = map (redact_attr ps) (lr_attrs r)\<rparr>"

fun with_attrs :: "log_handler \<Rightarrow> log_attrs \<Rightarrow> log_handler" where
  "with_attrs (JsonHandler l src fs) as = JsonHandler l src (fs @ [FrameAttrs as])"
| "with_attrs (RedactionHandler h ps) as = RedactionHandler (with_attrs h as) ps"

fun with_group :: "log_handler \<Rightarrow> string \<Rightarrow> log_handler" where
  "with_group (JsonHandler l src fs) g = JsonHandler l src (fs @ [FrameGroup g])"
| "with_group (RedactionHandler h ps) g = RedactionHandler (with_group h g) ps"

definition with_secret_redaction :: "log_handler \<Rightarrow> string list \<Rightarrow> log_handler" where
  "with_secret_redaction h ps = RedactionHandler h ps"

definition with_run_id :: "log_handler \<Rightarrow> string \<Rightarrow> log_handler" where
  "with_run_id h run = with_attrs h [(''run_id'', LogString run)]"

text \<open>A call of the logger: what is written, if anything.\<close>

definition log_call :: "log_handler \<Rightarrow> int \<Rightarrow> string \<Rightarrow> log_attrs \<Rightarrow> log_record option" where
  "log_call h level msg as =
     (if log_enabled h level
      then Some (log_handle h \<lparr>lr_level = level, lr_message = msg, lr_attrs = as\<rparr>) else None)"

definition written_texts :: "log_record \<Rightarrow> string list" where
  "written_texts r = lr_message r # concat (map (texts_of \<circ> snd) (lr_attrs r))"

section \<open>What redaction removes\<close>

lemma contains_iff_sublist: "contains_str s p \<longleftrightarrow> sublist p s"
proof
  assume "contains_str s p"
  then obtain k where k: "index_of p s = Some k" by (auto simp: contains_str_def)
  then obtain r where "drop k s = p @ r" using index_of_Some [OF k] by (auto simp: has_prefix_iff)
  then have "s = take k s @ p @ r" by (metis append_take_drop_id)
  then show "sublist p s" by (metis sublist_appendI)
next
  assume "sublist p s"
  then obtain a b where "s = a @ p @ b" by (auto simp: sublist_def)
  then have "has_prefix p (drop (length a) s)" by (simp add: has_prefix_append)
  then show "contains_str s p" using index_of_None [of p s] by (auto simp: contains_str_def)
qed

lemma index_of_first: "index_of p s = Some k \<Longrightarrow> j < k \<Longrightarrow> \<not> has_prefix p (drop j s)"
proof (induction s arbitrary: j k)
  case (Cons c cs)
  then show ?case by (cases j) (auto split: if_splits)
qed (auto split: if_splits)

lemma sublist_split_char:
  assumes "c \<notin> set q" and "sublist q (a @ c # b)"
  shows "sublist q a \<or> sublist q b"
proof -
  have "sublist q a \<or> sublist q (c # b) \<or> (\<exists>x y. q = x @ y \<and> suffix x a \<and> prefix y (c # b))"
    using assms(2) by (simp add: sublist_append)
  moreover have "y = []" if "q = x @ y" "prefix y (c # b)" for x y
    using that assms(1) by (cases y) auto
  moreover have "sublist q b" if "sublist q (c # b)"
    using that assms(1) by (cases q) (auto simp: sublist_Cons_right)
  ultimately show ?thesis by (metis append_Nil2 suffix_imp_sublist)
qed

text \<open>A secret that has nothing in common with the replacement.\<close>

definition plain_secret :: "string \<Rightarrow> bool" where
  "plain_secret p \<longleftrightarrow> p \<noteq> [] \<and> CHR ''['' \<notin> set p \<and> CHR '']'' \<notin> set p \<and> \<not> contains_str ''REDACTED'' p"

lemma plain_secret_token:
  assumes "plain_secret q" and "sublist q (a @ ''[REDACTED]'' @ b)"
  shows "sublist q a \<or> sublist q b"
proof -
  have "sublist q a \<or> sublist q (''REDACTED'' @ CHR '']'' # b)"
    using sublist_split_char [of "CHR ''[''" q a "''REDACTED'' @ CHR '']'' # b"] assms
    by (simp add: plain_secret_def)
  then show ?thesis
    using sublist_split_char [of "CHR '']''" q "''REDACTED''" b] assms(1)
    by (auto simp: plain_secret_def contains_iff_sublist)
qed

lemma replace_all_introduces:
  assumes "plain_secret q" and "sublist q (replace_all p ''[REDACTED]'' s)"
  shows "sublist q s"
  using assms(2)
proof (induction p "''[REDACTED]''" s rule: replace_all.induct)
  case (1 p s)
  show ?case
  proof (cases "p = [] \<or> index_of p s = None")
    case True
    then show ?thesis using "1.prems" by (simp add: replace_all_None)
  next
    case False
    then obtain k where k: "index_of p s = Some k" and p: "p \<noteq> []" by auto
    have "sublist q (take k s @ ''[REDACTED]'' @ replace_all p ''[REDACTED]'' (drop (k + length p) s))"
      using "1.prems" by (simp add: replace_all_Some [OF p k])
    from plain_secret_token [OF assms(1) this] show ?thesis
      using "1.hyps" [OF p k] sublist_order.order.trans [OF _ sublist_take] sublist_order.order.trans [OF _ sublist_drop] by blast
  qed
qed

lemma replace_all_removes:
  assumes "plain_secret p"
  shows "\<not> sublist p (replace_all p ''[REDACTED]'' s)"
  using assms
proof (induction p "''[REDACTED]''" s rule: replace_all.induct)
  case (1 p s)
  then have p: "p \<noteq> []" by (simp add: plain_secret_def)
  show ?case
  proof (cases "index_of p s")
    case None
    then show ?thesis by (simp add: replace_all_None contains_str_def flip: contains_iff_sublist)
  next
    case (Some k)
    have "\<not> sublist p (take k s)"
    proof
      assume "sublist p (take k s)"
      then obtain a b where ab: "take k s = a @ p @ b" by (auto simp: sublist_def)
      then have "length a + length p + length b \<le> k" by (metis add.assoc length_append length_take min.cobounded2)
      then have "length a < k" using p by (cases p) simp_all
      moreover have "drop (length a) s = p @ b @ drop k s" using ab by (metis append.assoc append_eq_conv_conj append_take_drop_id)
      ultimately show False using index_of_first [OF Some, of "length a"] by (simp add: has_prefix_append)
    qed
    moreover have "\<not> sublist p (replace_all p ''[REDACTED]'' (drop (k + length p) s))" using 1 p Some by blast
    ultimately show ?thesis
      using plain_secret_token [OF "1.prems"] by (auto simp: replace_all_Some [OF p Some])
  qed
qed

lemma redact_text_clean:
  assumes "list_all plain_secret ps" and "p \<in> set ps"
  shows "\<not> contains_str (redact_text ps s) p"
proof -
  have keep: "\<not> sublist q (redact_text ps s)" if "list_all plain_secret ps" "plain_secret q" "\<not> sublist q s" for q ps s
    using that
  proof (induction ps arbitrary: s)
    case (Cons a ps)
    have "\<not> sublist q (replace_all a ''[REDACTED]'' s)" using replace_all_introduces [of q a s] Cons.prems by blast
    then show ?case using Cons by (simp add: redact_text_def)
  qed (simp add: redact_text_def)
  have "\<not> sublist p (redact_text ps s)" using assms
  proof (induction ps arbitrary: s)
    case (Cons a ps)
    show ?case
    proof (cases "p = a")
      case True
      then have "\<not> sublist p (replace_all a ''[REDACTED]'' s)" using Cons.prems replace_all_removes by simp
      then show ?thesis using keep [of ps p] Cons.prems True by (simp add: redact_text_def)
    next
      case False
      then show ?thesis using Cons by (simp add: redact_text_def)
    qed
  qed simp
  then show ?thesis by (simp add: contains_iff_sublist)
qed

text \<open>The values that are never errors or other opaque ones.\<close>

fun textual :: "log_value \<Rightarrow> bool" where
  "textual (LogString s) = True"
| "textual (LogGroup as) = list_all (\<lambda>(k, v). textual v) as"
| "textual (LogSensitive s) = True"
| "textual v = False"

lemma plain_secret_replacement: "plain_secret p \<Longrightarrow> \<not> contains_str ''[REDACTED]'' p"
  using plain_secret_token [of p "[]" "[]"] by (auto simp: contains_iff_sublist plain_secret_def)

lemma redact_value_clean:
  assumes "list_all plain_secret ps" and "p \<in> set ps" and "textual v"
  shows "t \<in> set (texts_of (redact_value ps v)) \<Longrightarrow> \<not> contains_str t p"
  using assms(3)
proof (induction v arbitrary: t rule: textual.induct)
  case (1 s)
  then show ?case using redact_text_clean [OF assms(1,2)] by simp
next
  case (3 s)
  then show ?case using plain_secret_replacement assms(1,2) by (auto simp: list_all_iff)
next
  case (2 as)
  from "2.prems" obtain k v where "(k, v) \<in> set as" "t \<in> set (texts_of (redact_value ps v))" "textual v"
    by (fastforce simp: list_all_iff)
  then show ?case using "2.IH" by blast
qed simp_all

text \<open>C30: No secret survives in what the redacting logger writes of a call, neither in the message nor
  in any attribute at any depth of groups, provided that every attribute is a string or a group of
  such, and that no secret has a part in common with the replacement text.\<close>

theorem redaction_complete:
  assumes "list_all plain_secret ps" and "p \<in> set ps" and "list_all (textual \<circ> snd) as"
    and "log_call (with_secret_redaction (JsonHandler l src []) ps) level msg as = Some r"
    and "t \<in> set (written_texts r)"
  shows "\<not> contains_str t p"
proof -
  have r: "lr_message r = redact_text ps msg" "lr_attrs r = map (redact_attr ps) as"
    using assms(4) by (auto simp: log_call_def with_secret_redaction_def split: if_splits)
  from assms(5) consider "t = redact_text ps msg"
    | k v where "(k, v) \<in> set as" "t \<in> set (texts_of (redact_value ps v))"
    by (auto simp: written_texts_def r redact_attr_def)
  then show ?thesis
  proof cases
    case 1
    then show ?thesis using redact_text_clean [OF assms(1,2)] by simp
  next
    case 2
    then show ?thesis using redact_value_clean [OF assms(1,2)] assms(3) by (fastforce simp: list_all_iff)
  qed
qed

theorem redaction_complete_witness:
  "\<not> contains_str (redact_text [''hunter2''] ''login with hunter2'') ''hunter2''"
  by (rule redaction_complete [of "[''hunter2'']" "''hunter2''" "[(''k'', LogGroup [(''p'', LogString ''hunter2'')])]" 0 False 0
        "''login with hunter2''" "\<lparr>lr_level = 0, lr_message = redact_text [''hunter2''] ''login with hunter2'',
          lr_attrs = map (redact_attr [''hunter2'']) [(''k'', LogGroup [(''p'', LogString ''hunter2'')])]\<rparr>"])
    (simp_all add: plain_secret_def contains_str_def has_prefix_def log_call_def with_secret_redaction_def written_texts_def)

text \<open>An error that is logged as an attribute is not redacted at all, whatever the secrets are, and
  neither are the attributes that \<open>With\<close> attaches to a logger.  The program logs every failure as
  \<open>slog.Any("error", err)\<close>, and the text of a failed Telegram request contains the bot token.\<close>

theorem redaction_misses_errors:
  "log_call (with_secret_redaction (JsonHandler l src []) ps) l msg [(''error'', LogError e)]
     = Some \<lparr>lr_level = l, lr_message = redact_text ps msg, lr_attrs = [(''error'', LogError e)]\<rparr>
   \<and> log_call (with_attrs (with_secret_redaction (JsonHandler l src []) ps) [(k, LogString s)]) l msg []
     = Some \<lparr>lr_level = l, lr_message = redact_text ps msg, lr_attrs = [(k, LogString s)]\<rparr>"
  by (simp add: log_call_def with_secret_redaction_def redact_attr_def)

text \<open>The level names, in any case, and nothing else.\<close>

lemma parse_level_iff:
  "parse_level s = Inr l \<longleftrightarrow>
     (to_lower s, l) \<in> {(''debug'', - 4), (''info'', 0), (''warn'', 4), (''warning'', 4), (''error'', 8)}"
  by (auto simp: parse_level_def Let_def)

end
