(* ===== verification/Sha256.thy ===== *)
theory Sha256
  imports GoStrings "HOL-Library.Word"
begin

text \<open>
  \<open>payloadHash\<close> of \<open>internal/orchestrator/orchestrator.go\<close>: the SHA-256 of a rendered digest in
  hexadecimal, as it is stored with the delivery.  \<open>crypto/sha256\<close> and \<open>encoding/hex\<close> belong to the standard
  library, so the hash is written out as FIPS 180-4 has it, on 32-bit words.  The lemmas show that the
  padding fills whole blocks and loses nothing, that a hash has 64 hexadecimal digits, and the value on
  the two examples of the standard.
\<close>

unbundle bit_operations_syntax

type_synonym word32 = "32 word"

section \<open>Padding\<close>

text \<open>The most significant byte first; the length in bits is a \<open>uint64\<close>.\<close>

definition be_bytes :: "nat \<Rightarrow> nat \<Rightarrow> nat list" where
  "be_bytes k n = map (\<lambda>i. n div 256 ^ (k - 1 - i) mod 256) [0..<k]"

definition zeros_for :: "nat \<Rightarrow> nat" where
  "zeros_for len = (119 - len mod 64) mod 64"

definition sha_pad :: "nat list \<Rightarrow> nat list" where
  "sha_pad bs = bs @ 128 # replicate (zeros_for (length bs)) 0 @ be_bytes 8 (8 * length bs)"

section \<open>The compression function\<close>

definition rotr :: "nat \<Rightarrow> word32 \<Rightarrow> word32" where
  "rotr n x = drop_bit n x OR push_bit (32 - n) x"

definition small_sigma0 :: "word32 \<Rightarrow> word32" where
  "small_sigma0 x = rotr 7 x XOR rotr 18 x XOR drop_bit 3 x"

definition small_sigma1 :: "word32 \<Rightarrow> word32" where
  "small_sigma1 x = rotr 17 x XOR rotr 19 x XOR drop_bit 10 x"

definition big_sigma0 :: "word32 \<Rightarrow> word32" where
  "big_sigma0 x = rotr 2 x XOR rotr 13 x XOR rotr 22 x"

definition big_sigma1 :: "word32 \<Rightarrow> word32" where
  "big_sigma1 x = rotr 6 x XOR rotr 11 x XOR rotr 25 x"

definition sha_ch :: "word32 \<Rightarrow> word32 \<Rightarrow> word32 \<Rightarrow> word32" where
  "sha_ch x y z = (x AND y) XOR (NOT x AND z)"

definition sha_maj :: "word32 \<Rightarrow> word32 \<Rightarrow> word32 \<Rightarrow> word32" where
  "sha_maj x y z = (x AND y) XOR (x AND z) XOR (y AND z)"

definition sha_constants :: "word32 list" where
  "sha_constants =
    [1116352408, 1899447441, 3049323471, 3921009573, 961987163, 1508970993, 2453635748, 2870763221,
     3624381080, 310598401, 607225278, 1426881987, 1925078388, 2162078206, 2614888103, 3248222580,
     3835390401, 4022224774, 264347078, 604807628, 770255983, 1249150122, 1555081692, 1996064986,
     2554220882, 2821834349, 2952996808, 3210313671, 3336571891, 3584528711, 113926993, 338241895,
     666307205, 773529912, 1294757372, 1396182291, 1695183700, 1986661051, 2177026350, 2456956037,
     2730485921, 2820302411, 3259730800, 3345764771, 3516065817, 3600352804, 4094571909, 275423344,
     430227734, 506948616, 659060556, 883997877, 958139571, 1322822218, 1537002063, 1747873779,
     1955562222, 2024104815, 2227730452, 2361852424, 2428436474, 2756734187, 3204031479, 3329325298]"

type_synonym sha_state =
  "word32 \<times> word32 \<times> word32 \<times> word32 \<times> word32 \<times> word32 \<times> word32 \<times> word32"

definition sha_init :: sha_state where
  "sha_init =
     (1779033703, 3144134277, 1013904242, 2773480762,
      1359893119, 2600822924, 528734635, 1541459225)"

fun sha_round :: "word32 \<times> word32 \<Rightarrow> sha_state \<Rightarrow> sha_state" where
  "sha_round (k, w) (a, b, c, d, e, f, g, h) =
     (let t = h + big_sigma1 e + sha_ch e f g + k + w
      in (t + (big_sigma0 a + sha_maj a b c), a, b, c, d + t, e, f, g))"

text \<open>The words of a block, and the further words of the schedule, which are collected backwards.\<close>

fun be_words :: "nat list \<Rightarrow> word32 list" where
  "be_words (a # b # c # d # bs) = word_of_nat (((a * 256 + b) * 256 + c) * 256 + d) # be_words bs"
| "be_words _ = []"

fun schedule :: "nat \<Rightarrow> word32 list \<Rightarrow> word32 list" where
  "schedule 0 ws = rev ws"
| "schedule (Suc n) ws =
     schedule n ((small_sigma1 (ws ! 1) + ws ! 6 + small_sigma0 (ws ! 14) + ws ! 15) # ws)"

fun add_state :: "sha_state \<Rightarrow> sha_state \<Rightarrow> sha_state" where
  "add_state (a, b, c, d, e, f, g, h) (a', b', c', d', e', f', g', h') =
     (a + a', b + b', c + c', d + d', e + e', f + f', g + g', h + h')"

definition sha_block :: "nat list \<Rightarrow> sha_state \<Rightarrow> sha_state" where
  "sha_block bs s = add_state s (fold sha_round (zip sha_constants (schedule 48 (rev (be_words bs)))) s)"

function blocks_of :: "nat list \<Rightarrow> nat list list" where
  "blocks_of bs = (if bs = [] then [] else take 64 bs # blocks_of (drop 64 bs))"
  by pat_completeness auto
termination by (relation "measure length") auto

declare blocks_of.simps [simp del]

fun state_words :: "sha_state \<Rightarrow> word32 list" where
  "state_words (a, b, c, d, e, f, g, h) = [a, b, c, d, e, f, g, h]"

definition sum256 :: "nat list \<Rightarrow> nat list" where
  "sum256 bs =
     concat (map (\<lambda>w. be_bytes 4 (unat w)) (state_words (fold sha_block (blocks_of (sha_pad bs)) sha_init)))"

definition payload_hash :: "string \<Rightarrow> string" where
  "payload_hash payload = hex_string (map chr (sum256 (map byte payload)))"

section \<open>The constants\<close>

text \<open>The standard defines the constants as the first 32 bits of the fractional parts of the square and
  cube roots of the first primes: \<open>c\<close> is that of the \<open>k\<close>-th root of \<open>p\<close> when, with the whole part \<open>q\<close> in
  front of it, it is the largest 32-bit approximation from below.\<close>

definition root_fraction :: "nat \<Rightarrow> nat \<Rightarrow> nat \<Rightarrow> nat \<Rightarrow> bool" where
  "root_fraction k p q c \<longleftrightarrow>
     (q * 2 ^ 32 + c) ^ k \<le> p * 2 ^ (32 * k) \<and> p * 2 ^ (32 * k) < (q * 2 ^ 32 + c + 1) ^ k"

definition small_primes :: "nat list" where
  "small_primes =
    [2, 3, 5, 7, 11, 13, 17, 19, 23, 29, 31, 37, 41, 43, 47, 53,
     59, 61, 67, 71, 73, 79, 83, 89, 97, 101, 103, 107, 109, 113, 127, 131,
     137, 139, 149, 151, 157, 163, 167, 173, 179, 181, 191, 193, 197, 199, 211, 223,
     227, 229, 233, 239, 241, 251, 257, 263, 269, 271, 277, 281, 283, 293, 307, 311]"

definition whole_root :: "nat \<Rightarrow> nat \<Rightarrow> nat" where
  "whole_root k p = length (takeWhile (\<lambda>q. q ^ k \<le> p) [1, 2, 3, 4, 5, 6, 7])"

lemma sha_constants_roots:
  "list_all2 (\<lambda>p c. root_fraction 3 p (whole_root 3 p) (unat c)) small_primes sha_constants"
  by (simp add: small_primes_def sha_constants_def root_fraction_def whole_root_def)

lemma sha_init_roots:
  "list_all2 (\<lambda>p c. root_fraction 2 p (whole_root 2 p) (unat c)) (take 8 small_primes) (state_words sha_init)"
  by (simp add: small_primes_def sha_init_def root_fraction_def whole_root_def)

section \<open>Shape of the padding and of the hash\<close>

lemma be_bytes_0 [simp]: "be_bytes 0 n = []"
  by (simp add: be_bytes_def)

lemma length_be_bytes [simp]: "length (be_bytes k n) = k"
  by (simp add: be_bytes_def)

lemma be_bytes_Suc: "be_bytes (Suc k) n = be_bytes k (n div 256) @ [n mod 256]"
proof -
  have "n div 256 ^ (k - i) = n div 256 div 256 ^ (k - 1 - i)" if less: "i < k" for i
  proof -
    obtain j where "k - i = Suc j" "k - 1 - i = j" using less by (cases "k - i") auto
    then show ?thesis by (simp only: power_Suc div_mult2_eq)
  qed
  then have "map (\<lambda>i. n div 256 ^ (k - i) mod 256) [0..<k] = be_bytes k (n div 256)"
    unfolding be_bytes_def by (intro map_cong) (simp_all only: set_upt atLeastLessThan_iff)
  then show ?thesis by (simp add: be_bytes_def)
qed

lemma be_bytes_inj: "be_bytes k n = be_bytes k m \<Longrightarrow> n < 256 ^ k \<Longrightarrow> m < 256 ^ k \<Longrightarrow> n = m"
proof (induction k arbitrary: n m)
  case (Suc k)
  then have "n div 256 = m div 256" "n mod 256 = m mod 256"
    by (simp_all add: be_bytes_Suc Suc.IH less_mult_imp_div_less mult.commute)
  then show ?case by (metis div_mult_mod_eq)
qed simp

lemma length_sha_pad: "length (sha_pad bs) = length bs + 9 + zeros_for (length bs)"
  by (simp add: sha_pad_def)

lemma pad_whole: "length (sha_pad bs) mod 64 = 0"
proof -
  define q r where "q = length bs div 64" and "r = length bs mod 64"
  have r: "r < 64" "length bs = 64 * q + r" by (simp_all add: q_def r_def)
  then have "length bs + 9 + (119 - r) = 64 * (q + 2)" by simp
  then have "(length bs + 9 + (119 - r)) mod 64 = 0" by (simp only: mod_mult_self1_is_0)
  then show ?thesis unfolding length_sha_pad zeros_for_def r_def [symmetric] by (simp only: mod_add_right_eq)
qed

text \<open>Two different messages are padded differently.\<close>

lemma pad_inj:
  assumes "sha_pad bs = sha_pad cs" and "length bs < 2 ^ 61" and "length cs < 2 ^ 61"
  shows "bs = cs"
proof -
  have tail: "drop (length (sha_pad xs) - 8) (sha_pad xs) = be_bytes 8 (8 * length xs)" for xs
    by (simp add: length_sha_pad sha_pad_def)
  then have "be_bytes 8 (8 * length bs) = be_bytes 8 (8 * length cs)" using assms(1) by metis
  then have "8 * length bs = 8 * length cs" by (rule be_bytes_inj) (use assms(2,3) in simp_all)
  then show ?thesis using assms(1) by (simp add: sha_pad_def)
qed

lemma concat_blocks: "concat (blocks_of bs) = bs"
  by (induction bs rule: blocks_of.induct) (subst blocks_of.simps, simp)

lemma blocks_whole: "length bs mod 64 = 0 \<Longrightarrow> b \<in> set (blocks_of bs) \<Longrightarrow> length b = 64"
proof (induction bs rule: blocks_of.induct)
  case (1 bs)
  show ?case
  proof (cases "bs = []")
    case True
    then show ?thesis using 1 by (simp add: blocks_of.simps)
  next
    case False
    then have "64 \<le> length bs" using 1(2) by (metis dvd_imp_le length_greater_0_conv mod_0_imp_dvd)
    then show ?thesis using 1 False by (auto simp: blocks_of.simps [of bs] le_mod_geq)
  qed
qed

lemma length_state_words [simp]: "length (state_words s) = 8"
  by (cases s rule: state_words.cases) simp

lemma length_sum256 [simp]: "length (sum256 bs) = 32"
  by (simp add: sum256_def length_concat o_def sum_list_triv)

lemma length_hex_string [simp]: "length (hex_string s) = 2 * length s"
  by (simp add: hex_string_def length_concat o_def hex_byte_def sum_list_triv)

definition hex_digits :: string where
  "hex_digits = ''0123456789abcdef''"

lemma hex_digit_lower: "n < 16 \<Longrightarrow> hex_digit n \<in> set hex_digits"
proof -
  assume "n < 16"
  then have "n \<in> set [0..<16]" by simp
  moreover have "\<forall>n \<in> set [0..<16]. hex_digit n \<in> set hex_digits" by code_simp
  ultimately show ?thesis by blast
qed

lemma hex_string_lower: "set (hex_string s) \<subseteq> set hex_digits"
proof -
  have "byte c < 256" for c by (simp add: byte_def)
  then show ?thesis by (auto simp: hex_string_def hex_byte_def intro!: hex_digit_lower less_mult_imp_div_less)
qed

text \<open>What is stored as the hash of a digest is 64 lower-case hexadecimal digits, whatever was sent.\<close>

theorem payload_hash_digits: "length (payload_hash payload) = 64 \<and> set (payload_hash payload) \<subseteq> set hex_digits"
  by (simp add: payload_hash_def hex_string_lower)

section \<open>The example of the standard\<close>

text \<open>For the evaluation every sum is reduced to 32 bits as soon as it is made.\<close>

definition narrow :: "word32 \<Rightarrow> word32" where
  "narrow x = word_of_nat (unat x)"

lemma narrow_id: "narrow x = x"
  by (simp add: narrow_def)

lemma narrow_numeral: "narrow (numeral n) = word_of_nat (numeral n mod 4294967296)" "narrow 0 = 0" "narrow 1 = 1"
  by (simp_all add: narrow_def unsigned_numeral take_bit_eq_mod)

lemma rotr_narrow: "rotr n x = drop_bit n x OR narrow (push_bit (32 - n) x)"
  by (simp add: rotr_def narrow_id)

lemma round_narrow:
  "sha_round (k, w) (a, b, c, d, e, f, g, h) =
     (let t = narrow (h + big_sigma1 e + sha_ch e f g + k + w)
      in (narrow (t + (big_sigma0 a + sha_maj a b c)), a, b, c, narrow (d + t), e, f, g))"
  by (simp add: Let_def narrow_id)

lemma schedule_narrow:
  "schedule (Suc n) ws =
     schedule n (narrow (small_sigma1 (ws ! 1) + ws ! 6 + small_sigma0 (ws ! 14) + ws ! 15) # ws)"
  by (simp add: narrow_id)

lemmas schedule_eval = schedule_narrow schedule_narrow [of "pred_numeral m" for m, folded numeral_eq_Suc]

lemmas sha_eval = rotr_narrow narrow_numeral small_sigma0_def small_sigma1_def big_sigma0_def big_sigma1_def
  sha_ch_def sha_maj_def Let_def

definition abc_schedule :: "word32 list" where
  "abc_schedule =
    1633837952 # replicate 14 0 @
    [24, 1633837952, 983040, 2108187653, 1610613702, 1050508152, 25426944, 316456923,
     3806512014, 3357629466, 3073800610, 3854317833, 845560923, 2636160359, 3968280267, 1881225380,
     3552024379, 2482346367, 996719219, 2952069057, 4043988066, 176896406, 1924104970, 2483675966,
     610538786, 2672279444, 4037431130, 1042573945, 657669027, 206005234, 2215296807, 2049510749,
     106709978, 4215179723, 3430291419, 3118885940, 2845390439, 2226839261, 3256115900, 344409900,
     2987358873, 4015503821, 3957764664, 2682456414, 2025622859, 2755645205, 1720397816, 4004225740,
     313650667]"

lemma abc_zeros: "replicate 14 z @ ws = z # z # z # z # z # z # z # z # z # z # z # z # z # z # ws"
  by (simp add: numeral_eq_Suc)

lemmas abc_words = abc_schedule_def abc_zeros

lemma abc_schedule: "schedule 48 (rev (be_words (sha_pad (map byte ''abc'')))) = abc_schedule"
proof -
  have first: "rev (be_words (sha_pad (map byte ''abc''))) = 24 # replicate 14 0 @ [1633837952]"
    by code_simp
  show ?thesis
    unfolding first abc_zeros by (simp del: schedule.simps(2) add: schedule_eval sha_eval abc_words)
qed

lemma abc_rounds0:
  "fold sha_round (zip (take 16 (drop 0 sha_constants)) (take 16 (drop 0 abc_schedule)))
     (1779033703, 3144134277, 1013904242, 2773480762, 1359893119, 2600822924, 528734635, 1541459225) =
   (2969183118, 3227803614, 3643992854, 2274437520, 123276749, 194179596, 1952073950, 509051416)"
  by (simp del: sha_round.simps add: sha_constants_def abc_words round_narrow sha_eval)

lemma abc_rounds1:
  "fold sha_round (zip (take 16 (drop 16 sha_constants)) (take 16 (drop 16 abc_schedule)))
     (2969183118, 3227803614, 3643992854, 2274437520, 123276749, 194179596, 1952073950, 509051416) =
   (1941126133, 3935906338, 2684750640, 909411017, 3126399250, 17410874, 2917635127, 1628611511)"
  by (simp del: sha_round.simps add: sha_constants_def abc_words round_narrow sha_eval)

lemma abc_rounds2:
  "fold sha_round (zip (take 16 (drop 32 sha_constants)) (take 16 (drop 32 abc_schedule)))
     (1941126133, 3935906338, 2684750640, 909411017, 3126399250, 17410874, 2917635127, 1628611511) =
   (1098003085, 2706117808, 1923828625, 643991573, 4274981830, 3581645993, 3077922209, 2819559920)"
  by (simp del: sha_round.simps add: sha_constants_def abc_words round_narrow sha_eval)

lemma abc_rounds3:
  "fold sha_round (zip (take 16 (drop 48 sha_constants)) (take 16 (drop 48 abc_schedule)))
     (1098003085, 2706117808, 1923828625, 643991573, 4274981830, 3581645993, 3077922209, 2819559920) =
   (1349398616, 3550093669, 80891244, 3093179625, 1593118500, 4212265488, 2492278198, 2518632596)"
  by (simp del: sha_round.simps add: sha_constants_def abc_words round_narrow sha_eval)

lemma be_bytes4: "be_bytes 4 n = [n div 16777216 mod 256, n div 65536 mod 256, n div 256 mod 256, n mod 256]"
proof -
  have "[0..<4] = [0, 1, 2, 3::nat]" by code_simp
  then show ?thesis by (simp add: be_bytes_def)
qed

lemma payload_hash_abc:
  "payload_hash ''abc'' = ''ba7816bf8f01cfea414140de5dae2223b00361a396177a9cb410ff61f20015ad''"
proof -
  have pad: "sha_pad (map byte ''abc'') = [97, 98, 99, 128] @ replicate 59 0 @ [24]" by code_simp
  have blocks: "blocks_of (sha_pad (map byte ''abc'')) = [sha_pad (map byte ''abc'')]"
    unfolding pad by (simp add: blocks_of.simps)
  have zip_parts: "zip sha_constants abc_schedule =
      zip (take 16 (drop 0 sha_constants)) (take 16 (drop 0 abc_schedule))
      @ zip (take 16 (drop 16 sha_constants)) (take 16 (drop 16 abc_schedule))
      @ zip (take 16 (drop 32 sha_constants)) (take 16 (drop 32 abc_schedule))
      @ zip (take 16 (drop 48 sha_constants)) (take 16 (drop 48 abc_schedule))"
    by (simp add: sha_constants_def abc_words)
  have block: "sha_block (sha_pad (map byte ''abc'')) sha_init =
     (3128432319, 2399260650, 1094795486, 1571693091, 2953011619, 2518121116, 3021012833, 4060091821)"
    unfolding sha_block_def abc_schedule zip_parts fold_append o_apply sha_init_def
      abc_rounds0 abc_rounds1 abc_rounds2 abc_rounds3 by simp
  have sum: "sum256 (map byte ''abc'') =
      [186, 120, 22, 191, 143, 1, 207, 234, 65, 65, 64, 222, 93, 174, 34, 35,
       176, 3, 97, 163, 150, 23, 122, 156, 180, 16, 255, 97, 242, 0, 21, 173]"
    unfolding sum256_def blocks fold_simps block by (simp add: be_bytes4)
  show ?thesis
    unfolding payload_hash_def sum by code_simp
qed
end
