(* ===== verification/Render.thy ===== *)
theory Render
  imports Digest "HOL-Library.Sublist"
begin

text \<open>
  The two digest templates of \<open>internal/digest/markdown.go\<close> and \<open>fallback.go\<close>, written out as the
  text that \<open>text/template\<close> produces from them: a marker with a dash trims the white space on its
  side, so each block starts with its own line break.  \<open>ft\<close> is \<open>formatTime\<close>, which prints a time in
  the zone that it carries.
\<close>

definition line :: "string \<Rightarrow> string" where
  "line s = CHR 0x0A # s"

definition lines_of :: "string list \<Rightarrow> string" where
  "lines_of ls = concat (map line ls)"

definition bullets :: "string list \<Rightarrow> string" where
  "bullets xs = concat (map (\<lambda>x. line (''- '' @ x)) xs)"

definition numbered :: "(nat \<Rightarrow> 'a \<Rightarrow> string) \<Rightarrow> 'a list \<Rightarrow> string" where
  "numbered f xs = concat (map (\<lambda>(i, x). f (Suc i) x) (enumerate 0 xs))"

definition num :: "nat \<Rightarrow> string" where
  "num n = fmt_d (int n)"

definition em_dash :: string where
  "em_dash = encode_rune 0x2014"

definition warning_sign :: string where
  "warning_sign = encode_rune 0x26A0 @ encode_rune 0xFE0F"

text \<open>\<open>printf "%.0f"\<close> of the confidence times 100.\<close>

definition percent :: "rat \<Rightarrow> string" where
  "percent c = (if c < 0 then ''-'' else []) @ digits_of (round_even (\<bar>c\<bar> * 100)) @ ''%''"

section \<open>Blocks that the templates share\<close>

definition label_line :: "string counter \<Rightarrow> string" where
  "label_line m = line ''**Labels:**'' @ concat (map (\<lambda>(l, n). '' '' @ l @ ''='' @ num n) (label_counts m))"

definition top_block :: "string list \<Rightarrow> string list \<Rightarrow> string" where
  "top_block senders domains =
     (if senders = [] then [] else line ''**Top senders:**'' @ bullets senders)
     @ (if domains = [] then [] else line ''**Noisiest domains:**'' @ bullets domains)"

definition global_block :: "digest_config \<Rightarrow> digest_stats \<Rightarrow> string" where
  "global_block cfg s =
     lines_of [''## Summary'', [],
       ''**Fetched:** '' @ num (gs_fetched s),
       ''**Classified:** '' @ num (gs_classified s),
       ''**Failed:** '' @ num (gs_failed s),
       ''**Accounts:** '' @ num (gs_accounts_checked s) @ '' checked, '' @ num (gs_accounts_succeeded s)
         @ '' succeeded, '' @ num (gs_accounts_failed s) @ '' failed'',
       ''**High priority:** '' @ num (gs_high_priority s)]
     @ (if dg_read_status cfg
        then lines_of [''**Read:** '' @ num (gs_read s), ''**Unread:** '' @ num (gs_unread s)] else [])
     @ label_line (case gs_labels s of None \<Rightarrow> [] | Some m \<Rightarrow> m)
     @ top_block (gs_top_senders s) (gs_top_domains s)"

definition account_block :: "digest_config \<Rightarrow> account_stats \<Rightarrow> string" where
  "account_block cfg a =
     lines_of [''### '' @ as_label a, [],
       ''**Fetched:** '' @ num (as_fetched a) @ '' | **Classified:** '' @ num (as_classified a)
         @ '' | **Failed:** '' @ num (as_failed a)]
     @ (if dg_read_status cfg
        then line (''**Read:** '' @ num (as_read a) @ '' | **Unread:** '' @ num (as_unread a)) else [])
     @ label_line (as_labels a)
     @ top_block (as_top_senders a) (as_top_domains a)
     @ (if as_error a = [] then [] else line (warning_sign @ '' **Fetch error:** '' @ as_error a))"

definition entry_head :: "digest_config \<Rightarrow> (time \<Rightarrow> string) \<Rightarrow> nat \<Rightarrow> message_entry \<Rightarrow> string" where
  "entry_head cfg ft i m =
     lines_of [''### '' @ num i @ ''. '' @ me_subject m, [],
       ''**From:** '' @ me_from m @ '' | **Date:** '' @ ft (me_date m)]
     @ (if dg_read_status cfg then line (''**Status:** '' @ read_badge cfg (me_is_read m)) else [])"

section \<open>The Markdown template\<close>

definition highlights_block :: "string list option \<Rightarrow> string" where
  "highlights_block h =
     (case h of
        None \<Rightarrow> []
      | Some hs \<Rightarrow> line ''## Highlights''
          @ (if hs = [] then line (em_dash @ '' Nothing notable this run.'') else bullets hs))"

definition needs_attention_block :: "digest_config \<Rightarrow> (time \<Rightarrow> string) \<Rightarrow> message_entry list \<Rightarrow> string" where
  "needs_attention_block cfg ft high =
     (if high = [] then []
      else line (''## '' @ encode_rune 0x1F6A8 @ '' Needs Attention'')
        @ numbered (\<lambda>i m. entry_head cfg ft i m
            @ lines_of [''**Priority:** '' @ display_priority (cl_priority (me_class m)),
                        ''**Reason:** '' @ cl_reason (me_class m)]) high
        @ line ''---'')"

definition excerpt_line :: "digest_config \<Rightarrow> message_entry \<Rightarrow> string \<Rightarrow> string" where
  "excerpt_line cfg m hint =
     line (if dg_raw_fallback cfg then ''> '' @ truncate_bytes (dg_max_excerpt cfg) (me_excerpt m)
           else ''> [Raw excerpt omitted '' @ em_dash @ '' enable '' @ hint @ '' to view]'')"

definition analysis_block :: "digest_config \<Rightarrow> message_entry \<Rightarrow> string" where
  "analysis_block cfg m =
     (if \<not> dg_summaries cfg then []
      else if \<not> is_blank (cl_summary (me_class m)) then
        lines_of [''**Summary:** '' @ cl_summary (me_class m), [], ''**Key points:**'']
        @ bullets (truncate_key_points cfg (cl_key_points (me_class m)))
        @ (if dg_action_items cfg \<and> cl_action_items (me_class m) \<noteq> []
           then lines_of [[], ''**Action items:**'']
             @ bullets (truncate_action_items cfg (cl_action_items (me_class m)))
           else [])
      else (case cl_error (me_class m) of
          Some e \<Rightarrow> line (warning_sign @ '' **Analysis failed ('' @ ae_stage e @ ''):** '' @ ae_error e)
            @ excerpt_line cfg m ''include_raw_excerpt_fallback''
        | None \<Rightarrow> excerpt_line cfg m ''include_raw_excerpt_fallback or include_summaries''))"

definition entry_block :: "digest_config \<Rightarrow> (time \<Rightarrow> string) \<Rightarrow> nat \<Rightarrow> message_entry \<Rightarrow> string" where
  "entry_block cfg ft i m =
     entry_head cfg ft i m
     @ lines_of [''**Priority:** '' @ display_priority (cl_priority (me_class m)),
                 ''**Confidence:** '' @ percent (cl_confidence (me_class m)),
                 ''**Reason:** '' @ cl_reason (me_class m)]
     @ analysis_block cfg m"

definition group_block :: "digest_config \<Rightarrow> (time \<Rightarrow> string) \<Rightarrow> string \<Rightarrow> message_entry list \<Rightarrow> string" where
  "group_block cfg ft label es =
     lines_of [[], ''## '' @ label @ '' ('' @ num (length es) @ '')''] @ numbered (entry_block cfg ft) es"

text \<open>The data that \<open>Render\<close> hands to the template, and the template.\<close>

record markdown_input =
  mi_run :: string
  mi_generated :: time
  mi_account :: string
  mi_fetched :: nat
  mi_failed :: nat
  mi_groups :: "(string \<times> message_entry list) list"
  mi_labels :: "string list"
  mi_total :: nat
  mi_stats :: digest_stats
  mi_accounts :: "account_stats list"
  mi_high :: "message_entry list"
  mi_highlights :: "string list option"

definition markdown_page :: "digest_config \<Rightarrow> (time \<Rightarrow> string) \<Rightarrow> markdown_input \<Rightarrow> string" where
  "markdown_page cfg ft v =
     ''# '' @ encode_rune 0x1F4E7 @ '' Email Digest''
     @ lines_of [[], ''**Run ID:** '' @ mi_run v, ''**Generated:** '' @ ft (mi_generated v)]
     @ (if mi_account v = [] then [] else line (''**Account:** '' @ mi_account v))
     @ highlights_block (mi_highlights v)
     @ (if \<not> dg_global_stats cfg then []
        else global_block cfg (mi_stats v)
          @ line (''**Messages:** '' @ num (mi_total v) @ '' classified ('' @ num (mi_fetched v)
              @ '' fetched, '' @ num (mi_failed v) @ '' failed)''))
     @ (if \<not> dg_account_stats cfg then []
        else line ''## Account Stats''
          @ (if mi_accounts v = [] then line ''No account stats available.''
             else concat (map (account_block cfg) (mi_accounts v))))
     @ needs_attention_block cfg ft (mi_high v)
     @ concat (map (\<lambda>l. group_block cfg ft l (group_of (mi_groups v) l)) (mi_labels v))
     @ lines_of [[], ''---'', [], ''*Generated by Email AI Agent*'', []]"

definition markdown_render :: "digest_config \<Rightarrow> (time \<Rightarrow> string) \<Rightarrow> digest_data \<Rightarrow> string" where
  "markdown_render cfg ft d =
     (let ms = select_messages cfg (dd_messages d)
      in markdown_page cfg ft
           \<lparr>mi_run = dd_run_id d, mi_generated = dd_generated d, mi_account = dd_account d, mi_fetched = dd_fetched d,
            mi_failed = dd_failed d, mi_groups = group_by_label ms, mi_labels = label_order ms, mi_total = length ms,
            mi_stats = prepare_stats d, mi_accounts = dd_accounts d, mi_high = collect_high_priority ms,
            mi_highlights = dd_highlights d\<rparr>)"

section \<open>The fallback template\<close>

record fallback_input =
  fi_run :: string
  fi_generated :: time
  fi_account :: string
  fi_messages :: "message_entry list"
  fi_stats :: digest_stats
  fi_accounts :: "account_stats list"

definition fallback_entry :: "digest_config \<Rightarrow> (time \<Rightarrow> string) \<Rightarrow> nat \<Rightarrow> message_entry \<Rightarrow> string" where
  "fallback_entry cfg ft i m =
     entry_head cfg ft i m @ lines_of [[], ''> '' @ fallback_truncate cfg (me_excerpt m)]"

definition fallback_page :: "digest_config \<Rightarrow> (time \<Rightarrow> string) \<Rightarrow> fallback_input \<Rightarrow> string" where
  "fallback_page cfg ft v =
     ''# '' @ warning_sign @ '' Email Digest (Fallback)''
     @ lines_of [[], ''**Run ID:** '' @ fi_run v, ''**Generated:** '' @ ft (fi_generated v)]
     @ (if fi_account v = [] then [] else line (''**Account:** '' @ fi_account v))
     @ lines_of [''**Status:** '' @ warning_sign @ '' LLM classification was unavailable '' @ em_dash
                 @ '' messages are listed without labels.'', [], ''---'']
     @ (if dg_global_stats cfg \<or> dg_account_stats cfg
        then global_block cfg (fi_stats v)
          @ (if fi_accounts v = [] then []
             else line ''## Account Stats'' @ concat (map (account_block cfg) (fi_accounts v)))
        else line ''No stats available.'')
     @ lines_of [[], ''---'', [], ''## Fetched Messages ('' @ num (length (fi_messages v)) @ '')'']
     @ numbered (fallback_entry cfg ft) (fi_messages v)
     @ lines_of [[], ''---'', [], ''*Generated by Email AI Agent (fallback mode)*'', []]"

definition fallback_render :: "digest_config \<Rightarrow> (time \<Rightarrow> string) \<Rightarrow> digest_data \<Rightarrow> string" where
  "fallback_render cfg ft d =
     fallback_page cfg ft
       \<lparr>fi_run = dd_run_id d, fi_generated = dd_generated d, fi_account = dd_account d,
        fi_messages = fallback_select cfg (dd_messages d), fi_stats = fallback_stats d, fi_accounts = dd_accounts d\<rparr>"

section \<open>What a digest shows\<close>

lemma sublist_append1: "sublist x a \<Longrightarrow> sublist x (a @ b)"
  and sublist_append2: "sublist x b \<Longrightarrow> sublist x (a @ b)"
  by (auto simp: sublist_append)

lemma sublist_member: "x \<in> set xs \<Longrightarrow> sublist (f x) (concat (map f xs))"
  by (induction xs) (auto intro: sublist_append1 sublist_append2)

lemma sublist_numbered: "x \<in> set xs \<Longrightarrow> \<exists>i. sublist (f i x) (numbered f xs)"
proof -
  assume "x \<in> set xs"
  then obtain j where "j < length xs" "xs ! j = x" by (auto simp: in_set_conv_nth)
  then have "(j, x) \<in> set (enumerate 0 xs)" by (auto simp: in_set_enumerate_eq)
  from sublist_member [OF this, of "\<lambda>(i, x). f (Suc i) x"] show ?thesis by (auto simp: numbered_def)
qed

lemma selected_in_group:
  assumes "m \<in> set ms"
  shows "m \<in> set (group_of (group_by_label ms) (entry_label m))" and "entry_label m \<in> set (label_order ms)"
  using assms keys_group_by [of entry_label ms]
  by (simp_all add: group_of_group_by_label label_order_def group_by_label_keys)



section \<open>Settings without effect\<close>

lemma key_points_unused:
  "entry_head (cfg\<lparr>dg_key_points := b\<rparr>) = entry_head cfg"
  "analysis_block (cfg\<lparr>dg_key_points := b\<rparr>) = analysis_block cfg"
  "global_block (cfg\<lparr>dg_key_points := b\<rparr>) = global_block cfg"
  "account_block (cfg\<lparr>dg_key_points := b\<rparr>) = account_block cfg"
  "select_messages (cfg\<lparr>dg_key_points := b\<rparr>) = select_messages cfg"
  by (intro ext; simp add: entry_head_def read_badge_def analysis_block_def excerpt_line_def
      truncate_key_points_def truncate_action_items_def global_block_def account_block_def
      select_messages_def limit_reached_def Let_def split: option.split)+

lemma raw_fallback_unused:
  "entry_head (cfg\<lparr>dg_summaries := False, dg_raw_fallback := b\<rparr>) = entry_head (cfg\<lparr>dg_summaries := False\<rparr>)"
  "analysis_block (cfg\<lparr>dg_summaries := False, dg_raw_fallback := b\<rparr>) = analysis_block (cfg\<lparr>dg_summaries := False\<rparr>)"
  "global_block (cfg\<lparr>dg_summaries := False, dg_raw_fallback := b\<rparr>) = global_block (cfg\<lparr>dg_summaries := False\<rparr>)"
  "account_block (cfg\<lparr>dg_summaries := False, dg_raw_fallback := b\<rparr>) = account_block (cfg\<lparr>dg_summaries := False\<rparr>)"
  "select_messages (cfg\<lparr>dg_summaries := False, dg_raw_fallback := b\<rparr>) = select_messages (cfg\<lparr>dg_summaries := False\<rparr>)"
  by (intro ext; simp add: entry_head_def read_badge_def analysis_block_def excerpt_line_def
      global_block_def account_block_def select_messages_def limit_reached_def Let_def split: option.split)+

lemma markdown_render_cong:
  assumes "entry_head c = entry_head c'" "analysis_block c = analysis_block c'" "global_block c = global_block c'"
    "account_block c = account_block c'" "select_messages c = select_messages c'"
    "dg_global_stats c = dg_global_stats c'" "dg_account_stats c = dg_account_stats c'"
  shows "markdown_render c ft d = markdown_render c' ft d"
proof -
  have "entry_block c = entry_block c'" "needs_attention_block c = needs_attention_block c'"
    by (intro ext; simp only: entry_block_def needs_attention_block_def assms)+
  moreover from this have "group_block c = group_block c'" by (intro ext) (simp only: group_block_def)
  ultimately show ?thesis by (simp only: markdown_render_def markdown_page_def assms)
qed

lemma fallback_render_cong:
  assumes "entry_head c = entry_head c'" "global_block c = global_block c'" "account_block c = account_block c'"
    "fallback_select c = fallback_select c'" "dg_max_excerpt c = dg_max_excerpt c'"
    "(dg_global_stats c \<or> dg_account_stats c) = (dg_global_stats c' \<or> dg_account_stats c')"
  shows "fallback_render c ft d = fallback_render c' ft d"
proof -
  have "fallback_entry c = fallback_entry c'" by (intro ext) (simp only: fallback_entry_def fallback_truncate_def assms)
  then show ?thesis by (simp only: fallback_render_def fallback_page_def assms)
qed

text \<open>Three settings do not do what their names say: \<open>include_key_points\<close> has no effect at all,
  \<open>include_raw_excerpt_fallback\<close> has none when summaries are off (no excerpt is shown then), and in
  the fallback digest either of the two statistics settings shows both kinds.\<close>

theorem digest_settings_ignored:
  "markdown_render (cfg\<lparr>dg_key_points := b\<rparr>) ft d = markdown_render cfg ft d
   \<and> markdown_render (cfg\<lparr>dg_summaries := False, dg_raw_fallback := b\<rparr>) ft d
     = markdown_render (cfg\<lparr>dg_summaries := False\<rparr>) ft d
   \<and> fallback_render (cfg\<lparr>dg_global_stats := True, dg_account_stats := False\<rparr>) ft d
     = fallback_render (cfg\<lparr>dg_global_stats := False, dg_account_stats := True\<rparr>) ft d"
proof (intro conjI)
  show "markdown_render (cfg\<lparr>dg_key_points := b\<rparr>) ft d = markdown_render cfg ft d"
    by (rule markdown_render_cong) (simp_all only: key_points_unused, simp_all)
  show "markdown_render (cfg\<lparr>dg_summaries := False, dg_raw_fallback := b\<rparr>) ft d
     = markdown_render (cfg\<lparr>dg_summaries := False\<rparr>) ft d"
    by (rule markdown_render_cong) (simp_all only: raw_fallback_unused, simp_all)
  show "fallback_render (cfg\<lparr>dg_global_stats := True, dg_account_stats := False\<rparr>) ft d
     = fallback_render (cfg\<lparr>dg_global_stats := False, dg_account_stats := True\<rparr>) ft d"
    by (rule fallback_render_cong)
      ((intro ext)?; simp add: entry_head_def read_badge_def global_block_def account_block_def fallback_select_def
        limit_reached_def Let_def)+
qed

end
