(* ===== verification/Program.thy ===== *)
theory Program
  imports Load Logging Sha256 Render PipelineProps Wire NoopStore SqliteStore
begin

text \<open>
  \<open>cmd/emailer/main.go\<close>: the command line program.  It reads its own flags, loads and validates the
  configuration, opens the store and the IMAP connections, makes the provider and the channel, runs
  the pipeline once and maps its status to an exit code.  The outside world is a record \<open>program\<close> of
  what the other packages take from outside; the log output is left out, what goes to the standard
  error is a \<open>report\<close>.
\<close>

section \<open>The flags of the program\<close>

record main_flags =
  mf_config :: string
  mf_log_level :: string
  mf_dry_run :: bool
  mf_force :: bool
  mf_window :: "duration option"
  mf_rest :: "string list"

definition no_flags :: main_flags where
  "no_flags = \<lparr>mf_config = [], mf_log_level = [], mf_dry_run = False, mf_force = False, mf_window = None, mf_rest = []\<rparr>"

text \<open>A window that does not parse leaves the one before in place.\<close>

definition set_window :: "string \<Rightarrow> main_flags \<Rightarrow> main_flags" where
  "set_window v f = (case parse_duration v of Inl e \<Rightarrow> f | Inr d \<Rightarrow> f\<lparr>mf_window := Some d\<rparr>)"

text \<open>\<open>parseMainFlags\<close>: the loop over the arguments; \<^const>\<open>None\<close> is the request for help.\<close>

fun parse_main_flags :: "string list \<Rightarrow> main_flags \<Rightarrow> main_flags option" where
  "parse_main_flags [] f = Some f"
| "parse_main_flags (arg # args) f =
     (if arg = ''--help'' \<or> arg = ''-h'' then None
      else if arg = ''--config'' \<or> arg = ''-config'' then
        (case args of
           v # args' \<Rightarrow> if \<not> has_prefix ''-'' v then parse_main_flags args' (f\<lparr>mf_config := v\<rparr>) else parse_main_flags args f
         | [] \<Rightarrow> parse_main_flags args f)
      else if has_prefix ''--config='' arg then parse_main_flags args (f\<lparr>mf_config := drop 9 arg\<rparr>)
      else if arg = ''--log-level'' \<or> arg = ''-log-level'' then
        (case args of
           v # args' \<Rightarrow> if \<not> has_prefix ''-'' v then parse_main_flags args' (f\<lparr>mf_log_level := v\<rparr>) else parse_main_flags args f
         | [] \<Rightarrow> parse_main_flags args f)
      else if has_prefix ''--log-level='' arg then parse_main_flags args (f\<lparr>mf_log_level := drop 12 arg\<rparr>)
      else if arg = ''--dry-run'' \<or> arg = ''-dry-run'' then parse_main_flags args (f\<lparr>mf_dry_run := True\<rparr>)
      else if arg = ''--force-reprocess'' \<or> arg = ''-force-reprocess'' then parse_main_flags args (f\<lparr>mf_force := True\<rparr>)
      else if arg = ''--window'' \<or> arg = ''-window'' then
        (case args of
           v # args' \<Rightarrow> if \<not> has_prefix ''-'' v then parse_main_flags args' (set_window v f) else parse_main_flags args f
         | [] \<Rightarrow> parse_main_flags args f)
      else if has_prefix ''--window='' arg then parse_main_flags args (set_window (drop 9 arg) f)
      else parse_main_flags args (f\<lparr>mf_rest := mf_rest f @ [arg]\<rparr>))"

declare parse_main_flags.simps(2) [simp del]

section \<open>What the program takes from outside\<close>

text \<open>The steps of opening a database: \<open>sql.Open\<close>, the ping, the source and the instance of the
  migrations, and \<open>Up\<close>.\<close>

record open_io =
  oi_open :: "string \<Rightarrow> err option"
  oi_ping :: "err option"
  oi_source :: "err option"
  oi_instance :: "err option"
  oi_init :: "err option"
  oi_up :: "err option"

definition run_migrations :: "open_io \<Rightarrow> err option" where
  "run_migrations io =
     (case oi_source io of
        Some e \<Rightarrow> Some (Wrap ''migration source: '' e)
      | None \<Rightarrow>
     (case oi_instance io of
        Some e \<Rightarrow> Some (Wrap ''migration instance: '' e)
      | None \<Rightarrow>
     (case oi_init io of
        Some e \<Rightarrow> Some (Wrap ''migrate init: '' e)
      | None \<Rightarrow>
     (case oi_up io of
        Some e \<Rightarrow> if err_is ''no change'' e then None else Some (Wrap ''migrate up: '' e)
      | None \<Rightarrow> None))))"

definition new_sqlite_store :: "open_io \<Rightarrow> string \<Rightarrow> err option" where
  "new_sqlite_store io path =
     (case oi_open io path of
        Some e \<Rightarrow> Some (Wrap ''store.NewSQLiteStore: open db: '' e)
      | None \<Rightarrow>
     (case oi_ping io of
        Some e \<Rightarrow> Some (Wrap ''store.NewSQLiteStore: ping db: '' e)
      | None \<Rightarrow>
     (case run_migrations io of
        Some e \<Rightarrow> Some (Wrap ''store.NewSQLiteStore: migrations: '' e)
      | None \<Rightarrow> None)))"

text \<open>\<open>pg_called\<close> is what a call of a provider does to the world; \<open>pg_schedule n\<close> is the order in
  which the \<open>n\<close> tasks of the fetch run, and the other orders are those of Go's maps.\<close>

record ('w, 'c, 'e) program =
  pg_config :: config_lib
  pg_environment :: environment
  pg_open :: open_io
  pg_legacy :: "string \<Rightarrow> time option"
  pg_io :: "nat \<Rightarrow> store_io"
  pg_server :: "('w, 'c, 'e) imap_server"
  pg_schedule :: "nat \<Rightarrow> nat list"
  pg_keyword_order :: "(string \<times> uid list) list \<Rightarrow> (string \<times> uid list) list"
  pg_registry_order :: "string list \<Rightarrow> string list"
  pg_http :: "'w \<Rightarrow> http_service"
  pg_called :: "llm_request \<Rightarrow> 'w \<Rightarrow> 'w"
  pg_telegram :: "'w telegram_env"
  pg_show_time :: "time \<Rightarrow> string"
  pg_error_order :: "(string \<times> err) list \<Rightarrow> (string \<times> err) list"
  pg_group_order :: "(string \<times> flag list) list \<Rightarrow> (string \<times> flag list) list"
  pg_sender_order :: "string counter \<Rightarrow> string counter"

section \<open>Connections\<close>

datatype report = Usage | LoadError err | Invalid "config_error list" | LoggerError err | StoreError err
  | ClientError err | DialError imap_account err | LoginError imap_account err
  | ProviderMissing string "string list" | ProviderError err | ChannelMissing | ChannelError err

type_synonym 'c clients = "(string \<times> 'c imap_client) list"

fun close_all :: "('w, 'c, 'e) imap_server \<Rightarrow> 'c imap_client list \<Rightarrow> 'w \<Rightarrow> 'w" where
  "close_all sv [] w = w"
| "close_all sv (c # cs) w = (case close_client sv c w of (_, _, w) \<Rightarrow> close_all sv cs w)"

text \<open>Step 7: a failure closes what was opened before.\<close>

fun connect_accounts ::
  "('w, 'c, 'e) imap_server \<Rightarrow> duration \<Rightarrow> imap_account list \<Rightarrow> 'c clients \<Rightarrow> 'w \<Rightarrow> (report + 'c clients) \<times> 'w" where
  "connect_accounts sv timeout [] clients w = (Inr clients, w)"
| "connect_accounts sv timeout (a # as) clients w =
     (case new_imap_client True timeout of
        Inl e \<Rightarrow> (Inl (ClientError e), w)
      | Inr cli \<Rightarrow>
     (case dial sv a cli w of
        (Some e, cli, w) \<Rightarrow> (Inl (DialError a e), close_all sv (map snd clients) w)
      | (None, cli, w) \<Rightarrow>
     (case login sv a cli w of
        (Some e, cli, w) \<Rightarrow>
          (case close_client sv cli w of
             (_, _, w) \<Rightarrow> (Inl (LoginError a e), close_all sv (map snd clients) w))
      | (None, cli, w) \<Rightarrow> connect_accounts sv timeout as (clients @ [(acct_label a, cli)]) w)))"

section \<open>Provider and channel\<close>

datatype provider_kind = Gemini | Mistral | Ollama | OpenRouter

fun provider_factory :: "provider_kind \<Rightarrow> string \<Rightarrow> string \<Rightarrow> string \<Rightarrow> err + provider" where
  "provider_factory Gemini = gemini_factory"
| "provider_factory Mistral = mistral_factory"
| "provider_factory Ollama = ollama_factory"
| "provider_factory OpenRouter = openrouter_factory"

definition provider_registry :: "(string \<times> provider_kind) list option" where
  "provider_registry =
     Option.bind (register_factory ''gemini'' Gemini []) (\<lambda>r.
     Option.bind (register_factory ''mistral'' Mistral r) (\<lambda>r.
     Option.bind (register_factory ''ollama'' Ollama r) (\<lambda>r.
     register_factory ''openrouter'' OpenRouter r)))"

definition channel_registry :: "channel_factories option" where
  "channel_registry = register_channel ''telegram'' telegram_factory []"

text \<open>The provider's \<open>Classify\<close> as the pipeline calls it.\<close>

definition provider_call ::
  "('w, 'c, 'e) program \<Rightarrow> provider_kind \<Rightarrow> provider \<Rightarrow> 'w provider_call" where
  "provider_call pg kind p req w =
     ((case kind of
         Gemini \<Rightarrow> gemini_classify (gemini_service (pg_http pg w) p) req
       | Mistral \<Rightarrow> mistral_classify (mistral_service (pg_http pg w) p) req
       | Ollama \<Rightarrow> ollama_classify (ollama_service (pg_http pg w) p) req
       | OpenRouter \<Rightarrow> openrouter_classify (openrouter_service (pg_http pg w) p) req),
      pg_called pg req w)"

text \<open>Steps 8 to 10; the registries cannot panic, so their \<^const>\<open>None\<close> is not reached.\<close>

definition launch :: "('w, 'c, 'e) program \<Rightarrow> config \<Rightarrow> report + 'w provider_call \<times> channel" where
  "launch pg cfg =
     (let providers = the provider_registry; channels = the channel_registry;
          llm = cfg_llm cfg; name = llm_provider llm in
      case lookup_factory providers name of
        None \<Rightarrow> Inl (ProviderMissing name (pg_registry_order pg (registered providers)))
      | Some kind \<Rightarrow>
     (case provider_factory kind (llm_api_key llm) (llm_endpoint llm) (llm_model llm) of
        Inl e \<Rightarrow> Inl (ProviderError e)
      | Inr p \<Rightarrow>
     (case lookup_channel channels ''telegram'' of
        None \<Rightarrow> Inl ChannelMissing
      | Some factory \<Rightarrow>
     (case factory (CfgMap [(''bot_token'', CfgString (tg_bot_token (cfg_telegram cfg))),
                            (''chat_id'', CfgInt64 (tg_chat_id (cfg_telegram cfg)))]) of
        Inl e \<Rightarrow> Inl (ChannelError e)
      | Inr ch \<Rightarrow> Inr (provider_call pg kind p, ch)))))"

section \<open>The run\<close>

text \<open>What the pipeline sees of the world: the outside and the connected clients.\<close>

record ('w, 'c) app =
  ap_world :: 'w
  ap_clients :: "'c clients"

definition on_world :: "('w \<Rightarrow> 'a \<times> 'w) \<Rightarrow> ('w, 'c) app \<Rightarrow> 'a \<times> ('w, 'c) app" where
  "on_world f app = (case f (ap_world app) of (r, w) \<Rightarrow> (r, app\<lparr>ap_world := w\<rparr>))"

definition on_client ::
  "string \<Rightarrow> ('c imap_client \<Rightarrow> 'w \<Rightarrow> 'a \<times> 'c imap_client \<times> 'w) \<Rightarrow> 'a \<Rightarrow> ('w, 'c) app \<Rightarrow> 'a \<times> ('w, 'c) app" where
  "on_client label f missing app =
     (case map_of (ap_clients app) label of
        None \<Rightarrow> (missing, app)
      | Some c \<Rightarrow>
          (case f c (ap_world app) of
             (r, c, w) \<Rightarrow>
               (r, app\<lparr>ap_world := w, ap_clients := AList.update label c (ap_clients app)\<rparr>)))"

text \<open>The task of one account in \<open>FetchAll\<close>.\<close>

definition fetch_task ::
  "('w, 'c, 'e) imap_server \<Rightarrow> fetch_options \<Rightarrow> imap_account \<Rightarrow> ('w, 'c) app \<Rightarrow> fetch_result \<times> ('w, 'c) app" where
  "fetch_task sv opts a app =
     (case sv_ctx_err sv (ap_world app) of
        Some e \<Rightarrow> (cancelled_result e a, app)
      | None \<Rightarrow>
     (case on_client (acct_label a) (imap_fetch sv a opts)
             ([], Some (Err (''fetch_all: '' @ acct_label a @ '': no ingester registered''))) app of
        ((ms, e), app) \<Rightarrow> (\<lparr>ft_account = a, ft_messages = ms, ft_err = e\<rparr>, app)))"

fun fetch_tasks ::
  "('w, 'c, 'e) imap_server \<Rightarrow> fetch_options \<Rightarrow> imap_account list \<Rightarrow> nat list \<Rightarrow> fetch_result option list
   \<Rightarrow> ('w, 'c) app \<Rightarrow> fetch_result option list \<times> ('w, 'c) app" where
  "fetch_tasks sv opts accts [] slots app = (slots, app)"
| "fetch_tasks sv opts accts (i # is) slots app =
     (case fetch_task sv opts (accts ! i) app of
        (r, app) \<Rightarrow> fetch_tasks sv opts accts is (slots[i := Some r]) app)"

definition empty_slot :: fetch_result where
  "empty_slot = \<lparr>ft_account = no_account, ft_messages = [], ft_err = None\<rparr>"

definition fetch_all_accounts ::
  "('w, 'c, 'e) program \<Rightarrow> imap_account list \<Rightarrow> fetch_options \<Rightarrow> int \<Rightarrow> ('w, 'c) app
   \<Rightarrow> fetch_result list \<times> ('w, 'c) app" where
  "fetch_all_accounts pg accts opts limit app =
     (case fetch_tasks (pg_server pg) opts accts (pg_schedule pg (length accts)) (replicate (length accts) None) app of
        (slots, app) \<Rightarrow> (map (\<lambda>s. case s of None \<Rightarrow> empty_slot | Some r \<Rightarrow> r) slots, app))"

text \<open>The channel decodes its responses with \<open>encoding/json\<close>.\<close>

definition telegram_of :: "('w, 'c, 'e) program \<Rightarrow> 'w telegram_env" where
  "telegram_of pg = (pg_telegram pg)\<lparr>te_decode := decode_telegram_response\<rparr>"

text \<open>Step 11: \<open>orchestrator.New\<close> with what the steps before have made.\<close>

definition pipeline_of ::
  "('w, 'c, 'e) program \<Rightarrow> 's store_ops \<Rightarrow> config \<Rightarrow> 'c clients \<Rightarrow> 'w provider_call \<Rightarrow> channel
   \<Rightarrow> ('s, ('w, 'c) app) pipeline_env" where
  "pipeline_of pg ops cfg clients classify ch =
     \<lparr>pn_store = ops, pn_io = pg_io pg, pn_fetch_all = fetch_all_accounts pg,
      pn_has_ingester = (\<lambda>l. map_of clients l \<noteq> None),
      pn_apply_flags = (\<lambda>a fs. on_client (acct_label a) (apply_flags (pg_server pg) (pg_keyword_order pg) a fs) None),
      pn_classify = (\<lambda>req. on_world (classify req)), pn_decode = decode_wrapper,
      pn_render = (\<lambda>d. Inr (markdown_render (cfg_digest cfg) (pg_show_time pg) d)),
      pn_fallback = (\<lambda>d. Inr (fallback_render (cfg_digest cfg) (pg_show_time pg) d)),
      pn_channel = ''telegram'',
      pn_send = (\<lambda>t. on_world (telegram_send (telegram_of pg) ch t \<lparr>so_filename = [], so_caption = []\<rparr>)),
      pn_hash = payload_hash, pn_error_order = pg_error_order pg, pn_group_order = pg_group_order pg,
      pn_sender_order = pg_sender_order pg, pn_cfg = cfg\<rparr>"

definition options_of :: "main_flags \<Rightarrow> config \<Rightarrow> run_options" where
  "options_of f cfg = \<lparr>ro_window = mf_window f, ro_force = mf_force f, ro_dry_run = mf_dry_run f,
     ro_stateless = st_stateless (cfg_storage cfg)\<rparr>"

fun exit_code :: "run_status \<Rightarrow> nat" where
  "exit_code RunCompleted = 0"
| "exit_code RunDegraded = 0"
| "exit_code RunPartial = 0"
| "exit_code RunPartiallyClassified = 0"
| "exit_code RunIngestFailed = 1"
| "exit_code RunCancelled = 130"
| "exit_code _ = 1"

record outcome =
  oc_code :: nat
  oc_report :: "report option"
  oc_result :: "run_result option"

definition fatal :: "nat \<Rightarrow> report \<Rightarrow> outcome" where
  "fatal code r = \<lparr>oc_code = code, oc_report = Some r, oc_result = None\<rparr>"

text \<open>Steps 7 to 12 with an open store; the deferred calls close the clients.\<close>

definition serve ::
  "('w, 'c, 'e) program \<Rightarrow> 's store_ops \<Rightarrow> config \<Rightarrow> main_flags \<Rightarrow> 's \<Rightarrow> 'w \<Rightarrow> outcome \<times> 's \<times> 'w" where
  "serve pg ops cfg f s w =
     (case connect_accounts (pg_server pg) (imap_timeout (cfg_imap cfg)) (imap_accounts (cfg_imap cfg)) [] w of
        (Inl r, w) \<Rightarrow> (fatal 1 r, s, w)
      | (Inr clients, w) \<Rightarrow>
     (case launch pg cfg of
        Inl r \<Rightarrow> (fatal 1 r, s, close_all (pg_server pg) (map snd clients) w)
      | Inr (classify, ch) \<Rightarrow>
     (case run_pipeline (pipeline_of pg ops cfg clients classify ch) (options_of f cfg)
             \<lparr>w_store = s, w_ticks = 0, w_ext = \<lparr>ap_world = w, ap_clients = clients\<rparr>\<rparr> of
        (res, wd) \<Rightarrow>
          (\<lparr>oc_code = exit_code (res_status res), oc_report = None, oc_result = Some res\<rparr>, w_store wd,
           close_all (pg_server pg) (map snd (ap_clients (w_ext wd))) (ap_world (w_ext wd))))))"

text \<open>\<open>run\<close>: \<open>db\<close> is what the database file holds, or the empty tables of a new one.\<close>

definition run_program ::
  "('w, 'c, 'e) program \<Rightarrow> string list \<Rightarrow> sqlite_db \<Rightarrow> 'w \<Rightarrow> outcome \<times> sqlite_db \<times> 'w" where
  "run_program pg args db w =
     (case parse_main_flags args no_flags of
        None \<Rightarrow> (fatal 2 Usage, db, w)
      | Some f \<Rightarrow>
     (case load (pg_config pg) (pg_environment pg) args \<lparr>lo_config_path = mf_config f, lo_args = Some (mf_rest f)\<rparr> of
        Inl e \<Rightarrow> (fatal 2 (LoadError e), db, w)
      | Inr cfg \<Rightarrow>
          if validate cfg \<noteq> [] then (fatal 2 (Invalid (validate cfg)), db, w)
          else let cfg = validate_effect cfg in
     (case new_logger (if mf_log_level f = [] then ''info'' else mf_log_level f) [] of
        Inl e \<Rightarrow> (fatal 2 (LoggerError e), db, w)
      | Inr _ \<Rightarrow>
          if st_stateless (cfg_storage cfg)
          then (case serve pg noop_ops cfg f new_noop_store w of (o1, _, w) \<Rightarrow> (o1, db, w))
          else (case new_sqlite_store (pg_open pg) (st_state_path (cfg_storage cfg)) of
              Some e \<Rightarrow> (fatal 1 (StoreError e), db, w)
            | None \<Rightarrow> serve pg (sqlite_ops (pg_legacy pg)) cfg f db w))))"

end
