(* ===== verification/Connections.thy ===== *)
theory Connections
  imports RunInvariant Program
begin

text \<open>
  What the program guarantees as a whole: its exit codes, that a refused configuration has no effect,
  that a validated configuration always gets its provider and channel, and that every IMAP connection
  it opens is logged out again.  The last rests on the locale \<open>connection_meter\<close>, a count of open
  connections that dialling and logging out move by one, interpreted on any server with such a
  count attached.
\<close>

section \<open>Counting connections\<close>

definition conns :: "'c imap_client \<Rightarrow> int" where
  "conns c = (if ic_conn c = None then 0 else 1)"

definition client_conns :: "'c clients \<Rightarrow> int" where
  "client_conns cs = sum_list (map (conns \<circ> snd) cs)"

lemma client_conns_simps [simp]:
  "client_conns [] = 0" "client_conns (cs @ ds) = client_conns cs + client_conns ds"
  "client_conns [(l, c)] = conns c"
  by (simp_all add: client_conns_def)

lemma client_conns_update:
  "map_of cs l = Some c \<Longrightarrow> client_conns (AList.update l d cs) = client_conns cs - conns c + conns d"
  by (induction cs) (auto simp: client_conns_def)

locale connection_meter =
  fixes sv :: "('w, 'c, 'e) imap_server" and bal :: "'w \<Rightarrow> int"
  assumes dial_tls_meter: "sv_dial_tls sv a w = (r, w') \<Longrightarrow> bal w' = (if isl r then bal w else bal w + 1)"
    and dial_meter: "sv_dial sv a w = (r, w') \<Longrightarrow> bal w' = (if isl r then bal w else bal w + 1)"
    and logout_meter: "sv_logout sv conn w = (x, w') \<Longrightarrow> bal w' = bal w - 1"
    and starttls_meter: "sv_starttls sv conn h w = (x, w') \<Longrightarrow> bal w' = bal w"
    and login_meter: "sv_login sv conn u p w = (x, w') \<Longrightarrow> bal w' = bal w"
    and select_meter: "sv_select sv conn f b w = (y, w') \<Longrightarrow> bal w' = bal w"
    and search_meter: "sv_search sv conn t ks w = (z, w') \<Longrightarrow> bal w' = bal w"
    and headers_meter: "sv_headers sv conn us w = (hs, w') \<Longrightarrow> bal w' = bal w"
    and bodies_meter: "sv_bodies sv conn us w = (bs, w') \<Longrightarrow> bal w' = bal w"
    and store_meter: "sv_store sv conn us k w = (x, w') \<Longrightarrow> bal w' = bal w"
begin

text \<open>The connections that are open but belong to no client.\<close>

definition stray :: "'c imap_client \<Rightarrow> 'w \<Rightarrow> int" where
  "stray c w = bal w - conns c"

definition keeps :: "('c imap_client \<Rightarrow> 'w \<Rightarrow> 'x \<times> 'c imap_client \<times> 'w) \<Rightarrow> bool" where
  "keeps op \<longleftrightarrow> (\<forall>c w x c' w'. op c w = (x, c', w') \<longrightarrow> stray c' w' = stray c w)"

lemma keepsD: "keeps op \<Longrightarrow> op c w = (x, c', w') \<Longrightarrow> stray c' w' = stray c w"
  by (simp add: keeps_def)

lemma dial_stray:
  assumes "dial sv a c w = (e, c', w')" and "ic_conn c = None"
  shows "stray c' w' = stray c w \<and> (e \<noteq> None \<longrightarrow> c' = c)"
  using assms
  by (auto simp: dial_def Let_def connected_def stray_def conns_def dest!: dial_tls_meter dial_meter starttls_meter logout_meter
      split: if_splits prod.splits sum.splits option.splits)

lemma login_stray: "login sv a c w = (e, c', w') \<Longrightarrow> c' = c \<and> bal w' = bal w"
  by (auto simp: login_def dest: login_meter split: option.splits prod.splits)

lemma close_stray: "close_client sv c w = (e, c', w') \<Longrightarrow> bal w' = bal w - conns c"
  by (auto simp: close_client_def conns_def dest: logout_meter split: option.splits prod.splits)

lemma close_all_stray: "bal (close_all sv cs w) = bal w - sum_list (map conns cs)"
  by (induction cs arbitrary: w) (auto dest: close_stray split: prod.split)

lemma connect_stray:
  "connect_accounts sv timeout as clients w = (r, w') \<Longrightarrow>
     bal w' = bal w - client_conns clients + (case r of Inl _ \<Rightarrow> 0 | Inr cs \<Rightarrow> client_conns cs)"
proof (induction as arbitrary: clients w)
  case (Cons a as)
  define cli :: "'c imap_client" where "cli = \<lparr>ic_conn = None, ic_timeout = timeout\<rparr>"
  have new: "new_imap_client True timeout = Inr cli" by (simp add: new_imap_client_def cli_def)
  have none: "ic_conn cli = None" "conns cli = 0" by (simp_all add: cli_def conns_def)
  have closed: "bal (close_all sv (map snd clients) v) = bal v - client_conns clients" for v
    by (simp add: close_all_stray client_conns_def)
  obtain e cli1 w1 where eq: "dial sv a cli w = (e, cli1, w1)" by (metis surj_pair)
  have d: "bal w1 = bal w + conns cli1" "e \<noteq> None \<Longrightarrow> cli1 = cli"
    using dial_stray [OF eq none(1)] none(2) by (auto simp: stray_def)
  show ?case
  proof (cases e)
    case (Some x)
    then show ?thesis using Cons.prems d none closed [of w1] by (auto simp: new eq)
  next
    case None
    obtain f cli2 w2 where eq2: "login sv a cli1 w1 = (f, cli2, w2)" by (metis surj_pair)
    note l = login_stray [OF eq2]
    show ?thesis
    proof (cases f)
      case (Some x)
      obtain g cli3 w3 where eq3: "close_client sv cli2 w2 = (g, cli3, w3)" by (metis surj_pair)
      show ?thesis using Cons.prems None Some d l close_stray [OF eq3] closed [of w3]
        by (auto simp: new eq eq2 eq3 [unfolded conjunct1 [OF l]])
    next
      case None': None
      have "connect_accounts sv timeout as (clients @ [(acct_label a, cli2)]) w2 = (r, w')"
        using Cons.prems None None' by (simp add: new eq eq2)
      then show ?thesis using Cons.IH d l by fastforce
    qed
  qed
qed auto

lemma reconnect_keeps: "keeps (reconnect sv a)"
  unfolding keeps_def
proof (intro allI impI)
  fix c w x c' w'
  assume rec: "reconnect sv a c w = (x, c', w')"
  define w1 where "w1 = (case ic_conn c of None \<Rightarrow> w | Some conn \<Rightarrow> snd (sv_logout sv conn w))"
  let ?c = "c\<lparr>ic_conn := None\<rparr>"
  have w1: "bal w1 = bal w - conns c"
    using logout_meter by (auto simp: w1_def conns_def split: option.split) (metis surjective_pairing)
  obtain e c1 w2 where eq: "dial sv a ?c w1 = (e, c1, w2)" by (metis surj_pair)
  have d: "stray c1 w2 = stray c w"
    using dial_stray [OF eq] w1 by (simp add: stray_def conns_def [of "c\<lparr>ic_conn := _\<rparr>"])
  obtain f c2 w3 where eq2: "login sv a c1 w2 = (f, c2, w3)" by (metis surj_pair)
  show "stray c' w' = stray c w"
    using rec d login_stray [OF eq2]
    by (cases e; cases f) (auto simp: reconnect_def Let_def w1_def [symmetric] eq eq2 stray_def)
qed

lemma with_reconnect_keeps:
  assumes op: "keeps op"
  shows "keeps (with_reconnect sv a nil op)"
  unfolding keeps_def
proof (intro allI impI)
  fix c w x c' w'
  assume run: "with_reconnect sv a nil op c w = (x, c', w')"
  obtain e c1 w1 where eq: "(if ic_conn c = None then reconnect sv a c w else (None, c, w)) = (e, c1, w1)" by (metis surj_pair)
  have s1: "stray c1 w1 = stray c w" using eq keepsD [OF reconnect_keeps] by (auto split: if_splits)
  show "stray c' w' = stray c w"
  proof (cases e)
    case (Some y)
    then show ?thesis using run s1 by (simp add: with_reconnect_def eq)
  next
    case None
    obtain y f c2 w2 where eq2: "op c1 w1 = ((y, f), c2, w2)" by (metis surj_pair)
    have s2: "stray c2 w2 = stray c w" using keepsD [OF op eq2] s1 by simp
    obtain g c3 w3 where eq3: "reconnect sv a c2 w2 = (g, c3, w3)" by (metis surj_pair)
    have s3: "stray c3 w3 = stray c w" using keepsD [OF reconnect_keeps eq3] s2 by simp
    show ?thesis
      using run None s2 s3 keepsD [OF op, of c3 w3]
      by (auto simp: with_reconnect_def eq eq2 eq3 split: option.splits if_splits)
  qed
qed

lemma select_folder_bal: "select_folder sv folder ro c w = (r, w') \<Longrightarrow> bal w' = bal w"
  by (auto simp: select_folder_def dest: select_meter split: option.splits prod.splits sum.splits)

lemma search_bal: "search_by_window sv since unread c w = (r, w') \<Longrightarrow> bal w' = bal w"
  by (auto simp: search_by_window_def dest: search_meter split: option.splits prod.splits sum.splits)

lemma read_headers_bal: "read_headers sv conn chunks acc w = (r, w') \<Longrightarrow> bal w' = bal w"
  by (induction chunks arbitrary: acc w) (auto dest: headers_meter split: option.splits prod.splits)

lemma read_bodies_bal: "read_bodies sv conn chunks st w = (r, w') \<Longrightarrow> bal w' = bal w"
  by (induction chunks arbitrary: st w) (auto dest: bodies_meter split: option.splits prod.splits)

lemma fetch_headers_bal: "fetch_headers sv us bsz c w = (r, w') \<Longrightarrow> bal w' = bal w"
  by (auto simp: fetch_headers_def dest: read_headers_bal split: option.splits if_splits)

lemma fetch_body_bal: "fetch_body sv us bsz c w = (r, w') \<Longrightarrow> bal w' = bal w"
  by (auto simp: fetch_body_def dest: read_bodies_bal split: option.splits if_splits prod.splits sum.splits)

lemma fetch_folder_keeps: "keeps (fetch_folder sv a folder opts)"
  by (auto simp: keeps_def fetch_folder_def Let_def stray_def
      dest!: select_folder_bal search_bal fetch_headers_bal fetch_body_bal
      split: prod.splits sum.splits option.splits if_splits)

lemma fetch_loop_keeps: "keeps (fetch_loop sv a opts fs ms errs)"
proof (induction fs arbitrary: ms errs)
  case (Cons folder fs)
  have step: "stray c' w' = stray c w" if "with_reconnect sv a [] (fetch_folder sv a folder opts) c w = (x, c', w')" for c w x c' w'
    using keepsD [OF with_reconnect_keeps [OF fetch_folder_keeps] that] .
  show ?case
    unfolding keeps_def
    by (auto split: option.splits prod.splits dest!: step keepsD [OF Cons.IH])
qed (simp add: keeps_def)

lemma imap_fetch_keeps: "keeps (imap_fetch sv a opts)"
  by (auto simp: keeps_def imap_fetch_def Let_def split: if_splits prod.splits sum.splits
      dest!: keepsD [OF fetch_loop_keeps])

lemma store_groups_bal: "store_groups sv conn permanent gs w = (r, w') \<Longrightarrow> bal w' = bal w"
proof (induction gs arbitrary: r w)
  case (Cons g gs)
  then show ?case by (cases g) (auto dest: store_meter split: if_splits prod.splits option.splits)
qed simp

lemma apply_flags_once_keeps: "keeps (apply_flags_once sv order flags)"
  by (auto simp: keeps_def apply_flags_once_def Let_def stray_def dest!: select_folder_bal store_groups_bal
      split: prod.splits sum.splits option.splits if_splits)

lemma apply_flags_keeps: "keeps (apply_flags sv order a flags)"
  by (auto simp: keeps_def apply_flags_def split: prod.splits if_splits
      dest!: keepsD [OF with_reconnect_keeps [OF apply_flags_once_keeps]])

end

section \<open>A server with a count\<close>

definition keep_count :: "('w \<Rightarrow> 'a \<times> 'w) \<Rightarrow> 'w \<times> int \<Rightarrow> 'a \<times> 'w \<times> int" where
  "keep_count f wn = (case f (fst wn) of (r, w) \<Rightarrow> (r, w, snd wn))"

definition count_dial :: "('w \<Rightarrow> (err + 'c) \<times> 'w) \<Rightarrow> 'w \<times> int \<Rightarrow> (err + 'c) \<times> 'w \<times> int" where
  "count_dial f wn = (case f (fst wn) of (r, w) \<Rightarrow> (r, w, if isl r then snd wn else snd wn + 1))"

definition count_logout :: "('w \<Rightarrow> 'a \<times> 'w) \<Rightarrow> 'w \<times> int \<Rightarrow> 'a \<times> 'w \<times> int" where
  "count_logout f wn = (case f (fst wn) of (r, w) \<Rightarrow> (r, w, snd wn - 1))"

text \<open>The same server; a successful dial adds one to the count and a logout takes one away.\<close>

definition count_server :: "('w, 'c, 'e) imap_server \<Rightarrow> ('w \<times> int, 'c, 'e) imap_server" where
  "count_server sv =
     \<lparr>sv_dial_tls = \<lambda>a. count_dial (sv_dial_tls sv a), sv_dial = \<lambda>a. count_dial (sv_dial sv a),
      sv_starttls = \<lambda>c h. keep_count (sv_starttls sv c h), sv_set_timeout = sv_set_timeout sv,
      sv_login = \<lambda>c u p. keep_count (sv_login sv c u p), sv_logout = \<lambda>c. count_logout (sv_logout sv c),
      sv_select = \<lambda>c f b. keep_count (sv_select sv c f b), sv_search = \<lambda>c t ks. keep_count (sv_search sv c t ks),
      sv_headers = \<lambda>c us. keep_count (sv_headers sv c us), sv_bodies = \<lambda>c us. keep_count (sv_bodies sv c us),
      sv_store = \<lambda>c us k. keep_count (sv_store sv c us k), sv_ctx_err = sv_ctx_err sv \<circ> fst,
      sv_net_error = sv_net_error sv, sv_mime = sv_mime sv\<rparr>"

definition count_telegram :: "'w telegram_env \<Rightarrow> ('w \<times> int) telegram_env" where
  "count_telegram env =
     \<lparr>te_write_field = te_write_field env, te_create_file = te_create_file env, te_write_file = te_write_file env,
      te_close_writer = te_close_writer env, te_new_request = te_new_request env,
      te_do = \<lambda>u ps. keep_count (te_do env u ps), te_decode = te_decode env, te_ctx_err = te_ctx_err env \<circ> fst,
      te_wait = \<lambda>d. keep_count (te_wait env d), te_random = keep_count (te_random env)\<rparr>"

text \<open>The same program, with the count beside the world.\<close>

definition count_program :: "('w, 'c, 'e) program \<Rightarrow> ('w \<times> int, 'c, 'e) program" where
  "count_program pg =
     \<lparr>pg_config = pg_config pg, pg_environment = pg_environment pg, pg_open = pg_open pg, pg_legacy = pg_legacy pg,
      pg_io = pg_io pg, pg_server = count_server (pg_server pg), pg_schedule = pg_schedule pg,
      pg_keyword_order = pg_keyword_order pg, pg_registry_order = pg_registry_order pg,
      pg_http = pg_http pg \<circ> fst, pg_called = \<lambda>req (w, n). (pg_called pg req w, n),
      pg_telegram = count_telegram (pg_telegram pg), pg_show_time = pg_show_time pg,
      pg_error_order = pg_error_order pg, pg_group_order = pg_group_order pg, pg_sender_order = pg_sender_order pg\<rparr>"

interpretation counted: connection_meter "count_server sv" snd for sv :: "('w, 'c, 'e) imap_server"
  by unfold_locales (auto simp: count_server_def count_dial_def count_logout_def keep_count_def split: prod.splits)

section \<open>The program on a metered world\<close>

text \<open>A world in which neither the provider nor the channel touches an IMAP connection.\<close>

locale metered_program = connection_meter "pg_server pg" bal
  for pg :: "('w, 'c, 'e) program" and bal +
  assumes called_meter: "bal (pg_called pg req w) = bal w"
    and send_meter: "te_do (pg_telegram pg) u ps w = (x, w') \<Longrightarrow> bal w' = bal w"
    and wait_meter: "te_wait (pg_telegram pg) d w = (y, w') \<Longrightarrow> bal w' = bal w"
    and random_meter: "te_random (pg_telegram pg) w = (z, w') \<Longrightarrow> bal w' = bal w"
begin

definition settled :: "int \<Rightarrow> ('w, 'c) app \<Rightarrow> bool" where
  "settled base app \<longleftrightarrow> bal (ap_world app) = base + client_conns (ap_clients app)"

lemma on_client_settled:
  assumes "keeps op" and "settled base app"
  shows "settled base (snd (on_client label op missing app))"
proof (cases "map_of (ap_clients app) label")
  case (Some c)
  obtain x c' w' where eq: "op c (ap_world app) = (x, c', w')" by (metis surj_pair)
  have "stray c' w' = stray c (ap_world app)" using keepsD [OF assms(1) eq] .
  then show ?thesis
    using assms(2) by (simp add: on_client_def Some eq settled_def client_conns_update [OF Some] stray_def)
qed (simp add: on_client_def assms(2))

lemma on_world_settled:
  assumes "\<And>w. bal (snd (f w)) = bal w" and "settled base app"
  shows "settled base (snd (on_world f app))"
  using assms(1) [of "ap_world app"] assms(2) by (simp add: on_world_def settled_def case_prod_beta)

lemma fetch_task_settled:
  assumes "settled base app"
  shows "settled base (snd (fetch_task (pg_server pg) opts a app))"
proof (cases "sv_ctx_err (pg_server pg) (ap_world app)")
  case None
  then show ?thesis
    using on_client_settled [OF imap_fetch_keeps assms] by (simp add: fetch_task_def split: prod.splits) (metis snd_conv)
qed (simp add: fetch_task_def assms)

lemma fetch_tasks_settled:
  "settled base app \<Longrightarrow> settled base (snd (fetch_tasks (pg_server pg) opts accts is slots app))"
proof (induction "is" arbitrary: slots app)
  case (Cons i "is")
  have "settled base (snd (fetch_task (pg_server pg) opts (accts ! i) app))" using Cons.prems by (rule fetch_task_settled)
  then show ?case using Cons.IH by (simp add: case_prod_beta)
qed simp

lemma telegram_wait:
  "te_wait (telegram_of pg) = te_wait (pg_telegram pg)" "te_random (telegram_of pg) = te_random (pg_telegram pg)"
  by (simp_all add: telegram_of_def)

lemma send_document_bal: "send_document (telegram_of pg) ch t cap w = (e, w') \<Longrightarrow> bal w' = bal w"
  by (auto simp: send_document_def Let_def telegram_of_def dest: send_meter split: option.splits prod.splits sum.splits if_splits)

lemma send_loop_bal: "send_loop (telegram_of pg) ch t cap left n err w = (e, w') \<Longrightarrow> bal w' = bal w"
  by (induction left arbitrary: n err w)
    (auto simp: telegram_wait dest!: send_document_bal wait_meter random_meter split: option.splits prod.splits if_splits)

lemma telegram_send_bal: "bal (snd (telegram_send (telegram_of pg) ch t opts w)) = bal w"
  using send_loop_bal [OF surjective_pairing] by (simp add: telegram_send_def Let_def)

lemma pipeline_settled:
  assumes "settled base x"
  shows "settled base (snd (pn_fetch_all (pipeline_of pg ops cfg clients classify ch) accts o1 n x))"
    and "settled base (snd (pn_apply_flags (pipeline_of pg ops cfg clients classify ch) a fs x))"
    and "settled base (snd (pn_send (pipeline_of pg ops cfg clients classify ch) t x))"
    and "settled base (snd (pn_classify (pipeline_of pg ops cfg clients (provider_call pg kind p) ch) req x))"
  using assms fetch_tasks_settled [OF assms] on_client_settled [OF apply_flags_keeps assms]
  by (simp_all add: pipeline_of_def fetch_all_accounts_def case_prod_beta on_world_settled provider_call_def
      called_meter telegram_send_bal)

end

sublocale metered_program \<subseteq>
  pipe: run_invariant "pipeline_of pg ops cfg clients (provider_call pg kind p) ch" "settled base"
  for ops :: "'s store_ops" and cfg clients kind p ch base
  by unfold_locales (simp_all add: pipeline_settled)

context metered_program
begin

lemma launch_provider_call:
  assumes "launch pg cfg = Inr (classify, ch)"
  obtains kind p where "classify = provider_call pg kind p"
  using assms by (auto simp: launch_def Let_def split: option.splits sum.splits)

lemma serve_bal:
  assumes "serve pg ops cfg f s w = (o1, s', w')"
  shows "bal w' = bal w"
proof -
  obtain r w1 where eq: "connect_accounts (pg_server pg) (imap_timeout (cfg_imap cfg)) (imap_accounts (cfg_imap cfg)) [] w
      = (r, w1)" by fastforce
  note w1 = connect_stray [OF eq]
  show ?thesis
  proof (cases r)
    case (Inl x)
    then show ?thesis using assms w1 by (simp add: serve_def eq)
  next
    case (Inr clients)
    have closed: "bal (close_all (pg_server pg) (map snd cs) v) = bal v - client_conns cs" for cs v
      by (simp add: close_all_stray client_conns_def)
    show ?thesis
    proof (cases "launch pg cfg")
      case (Inl x)
      then show ?thesis using assms w1 Inr closed [of clients w1] by (auto simp: serve_def eq)
    next
      case l: (Inr l)
      obtain classify ch where lc: "launch pg cfg = Inr (classify, ch)" using l by (cases l) auto
      obtain kind p where classify: "classify = provider_call pg kind p" using launch_provider_call [OF lc] .
      define wd where "wd = \<lparr>w_store = s, w_ticks = 0, w_ext = \<lparr>ap_world = w1, ap_clients = clients\<rparr>\<rparr>"
      obtain res wd' where run: "run_pipeline (pipeline_of pg ops cfg clients classify ch) (options_of f cfg) wd = (res, wd')"
        by fastforce
      have "settled (bal w) (w_ext wd)" using w1 Inr by (simp add: wd_def settled_def)
      then have "settled (bal w) (w_ext wd')" using pipe.run_keeps run by (metis classify snd_conv)
      then show ?thesis
        using assms Inr closed [of "ap_clients (w_ext wd')" "ap_world (w_ext wd')"]
        by (auto simp: serve_def eq lc run [unfolded wd_def] settled_def)
    qed
  qed
qed

lemma program_bal: "run_program pg args db w = (o1, db', w') \<Longrightarrow> bal w' = bal w"
  by (auto simp: run_program_def Let_def dest: serve_bal split: option.splits sum.splits if_splits prod.splits)

end

interpretation metered: metered_program "count_program pg" snd for pg :: "('w, 'c, 'e) program"
  by unfold_locales
    (auto simp: count_program_def count_server_def count_telegram_def count_dial_def count_logout_def keep_count_def
      split: prod.splits)

section \<open>Connections\<close>

text \<open>C6: However a run of the program ends, by an error at any step or by a finished run, it has logged
  out exactly as many IMAP connections as it has opened, reconnections included.\<close>

theorem program_closes_connections:
  "snd (snd (snd (run_program (count_program pg) args db (w, 0)))) = 0"
proof -
  obtain o1 db' w' where eq: "run_program (count_program pg) args db (w, 0) = (o1, db', w')" by (metis surj_pair)
  show ?thesis using metered.program_bal [OF eq] by (simp add: eq)
qed

section \<open>The flags of the program\<close>

text \<open>A flag with a value takes the next argument unless it starts with a dash.\<close>

lemma parse_value_args:
  assumes "\<not> has_prefix ''-'' v"
  shows "parse_main_flags (''--config'' # v # args) f = parse_main_flags args (f\<lparr>mf_config := v\<rparr>)"
    and "parse_main_flags (''-config'' # v # args) f = parse_main_flags args (f\<lparr>mf_config := v\<rparr>)"
    and "parse_main_flags (''--log-level'' # v # args) f = parse_main_flags args (f\<lparr>mf_log_level := v\<rparr>)"
    and "parse_main_flags (''-log-level'' # v # args) f = parse_main_flags args (f\<lparr>mf_log_level := v\<rparr>)"
    and "parse_main_flags (''--window'' # v # args) f = parse_main_flags args (set_window v f)"
    and "parse_main_flags (''-window'' # v # args) f = parse_main_flags args (set_window v f)"
  by (subst parse_main_flags.simps(2); simp add: assms; simp add: has_prefix_def)+

lemma parse_value_arg:
  assumes "\<not> has_prefix ''-'' v"
    and "arg \<in> set [''--config'', ''-config'', ''--log-level'', ''-log-level'', ''--window'', ''-window'']"
  shows "\<exists>g. parse_main_flags (arg # v # args) f = parse_main_flags args g"
proof -
  have "arg = ''--config'' \<or> arg = ''-config'' \<or> arg = ''--log-level'' \<or> arg = ''-log-level''
      \<or> arg = ''--window'' \<or> arg = ''-window''"
    using assms(2) by (simp only: list.set insert_iff empty_iff simp_thms)
  then show ?thesis
    by (elim disjE) (hypsubst, subst parse_value_args [OF assms(1)], rule exI, rule refl)+
qed

lemma parse_valueless_args:
  assumes "args = [] \<or> has_prefix ''-'' (hd args)"
  shows "parse_main_flags (''--config'' # args) f = parse_main_flags args f"
    and "parse_main_flags (''-config'' # args) f = parse_main_flags args f"
    and "parse_main_flags (''--log-level'' # args) f = parse_main_flags args f"
    and "parse_main_flags (''-log-level'' # args) f = parse_main_flags args f"
    and "parse_main_flags (''--window'' # args) f = parse_main_flags args f"
    and "parse_main_flags (''-window'' # args) f = parse_main_flags args f"
  using assms by (cases args; subst parse_main_flags.simps(2); simp; simp add: has_prefix_def)+
lemma parse_valueless_arg:
  assumes "args = [] \<or> has_prefix ''-'' (hd args)"
    and "arg \<in> set [''--config'', ''-config'', ''--log-level'', ''-log-level'', ''--window'', ''-window'']"
  shows "parse_main_flags (arg # args) f = parse_main_flags args f"
proof -
  have "arg = ''--config'' \<or> arg = ''-config'' \<or> arg = ''--log-level'' \<or> arg = ''-log-level''
      \<or> arg = ''--window'' \<or> arg = ''-window''"
    using assms(2) by (simp only: list.set insert_iff empty_iff simp_thms)
  then show ?thesis
    by (elim disjE) (hypsubst, rule parse_valueless_args [OF assms(1)])+
qed
lemma parse_other_arg:
  assumes "arg \<notin> set [''--config'', ''-config'', ''--log-level'', ''-log-level'', ''--window'', ''-window'']"
    "arg \<noteq> ''--help''" and "arg \<noteq> ''-h''"
  shows "\<exists>g. parse_main_flags (arg # args) f = parse_main_flags args g"
proof -
  let ?g = "if has_prefix ''--config='' arg then f\<lparr>mf_config := drop 9 arg\<rparr>
    else if has_prefix ''--log-level='' arg then f\<lparr>mf_log_level := drop 12 arg\<rparr>
    else if arg = ''--dry-run'' \<or> arg = ''-dry-run'' then f\<lparr>mf_dry_run := True\<rparr>
    else if arg = ''--force-reprocess'' \<or> arg = ''-force-reprocess'' then f\<lparr>mf_force := True\<rparr>
    else if has_prefix ''--window='' arg then set_window (drop 9 arg) f else f\<lparr>mf_rest := mf_rest f @ [arg]\<rparr>"
  have "parse_main_flags (arg # args) f = parse_main_flags args ?g"
    unfolding parse_main_flags.simps(2) if_distrib [of "parse_main_flags args"]
    using assms by (simp only: list.set insert_iff empty_iff simp_thms de_Morgan_disj if_False)
  then show ?thesis by (rule exI)
qed
text \<open>An argument other than the request for help is passed over, with its value if it takes the next.\<close>

lemma parse_main_step:
  assumes "arg \<noteq> ''--help''" and "arg \<noteq> ''-h''"
  shows "(\<exists>g. parse_main_flags (arg # args) f = parse_main_flags args g)
    \<or> (\<exists>v args' g. args = v # args' \<and> \<not> has_prefix ''-'' v \<and> parse_main_flags (arg # args) f = parse_main_flags args' g)"
proof (cases "arg \<in> set [''--config'', ''-config'', ''--log-level'', ''-log-level'', ''--window'', ''-window'']")
  case True
  show ?thesis
  proof (cases "args = [] \<or> has_prefix ''-'' (hd args)")
    case dash: True
    show ?thesis using parse_valueless_arg [OF dash True, of f] by blast
  next
    case False
    then obtain v args' where v: "args = v # args'" "\<not> has_prefix ''-'' v" by (cases args) auto
    show ?thesis using parse_value_arg [OF v(2) True, of args' f] v by blast
  qed
next
  case False
  show ?thesis using parse_other_arg [OF False assms] by blast
qed

text \<open>The program prints its usage exactly when one of the arguments is \<open>--help\<close> or \<open>-h\<close>, wherever it
  stands; it is never taken for the value of another flag.\<close>

theorem help_iff:
  "parse_main_flags args f = None \<longleftrightarrow> ''--help'' \<in> set args \<or> ''-h'' \<in> set args"
proof (induction args arbitrary: f rule: length_induct)
  case (1 args)
  have IH: "parse_main_flags ys g = None \<longleftrightarrow> ''--help'' \<in> set ys \<or> ''-h'' \<in> set ys" if "length ys < length args" for ys g
    using 1 that by blast
  have dash: "v \<noteq> ''--help'' \<and> v \<noteq> ''-h''" if "\<not> has_prefix ''-'' v" for v
    using that by (auto simp: has_prefix_def)
  show ?case
  proof (cases args)
    case (Cons arg rest)
    show ?thesis
    proof (cases "arg = ''--help'' \<or> arg = ''-h''")
      case True
      then show ?thesis by (auto simp: Cons parse_main_flags.simps(2))
    next
      case False
      then consider g where "parse_main_flags args f = parse_main_flags rest g"
        | v args' g where "rest = v # args'" "\<not> has_prefix ''-'' v" "parse_main_flags args f = parse_main_flags args' g"
        using parse_main_step [of arg rest f] by (auto simp: Cons)
      then show ?thesis
      proof cases
        case 1
        then show ?thesis using IH [of rest g] False by (auto simp: Cons)
      next
        case 2
        then show ?thesis using IH [of args' g] False dash [OF 2(2)] by (auto simp: Cons)
      qed
    qed
  qed simp
qed

text \<open>An argument that is not a flag of the program, and the arguments that set its flags.\<close>

definition plain_arg :: "string \<Rightarrow> bool" where
  "plain_arg a \<longleftrightarrow>
     a \<notin> set [''--help'', ''-h'', ''--config'', ''-config'', ''--log-level'', ''-log-level'', ''--dry-run'', ''-dry-run'',
        ''--force-reprocess'', ''-force-reprocess'', ''--window'', ''-window'']
     \<and> \<not> has_prefix ''--config='' a \<and> \<not> has_prefix ''--log-level='' a \<and> \<not> has_prefix ''--window='' a"

definition equals_arg :: "string \<Rightarrow> string \<Rightarrow> string" where
  "equals_arg name v = ''--'' @ name @ ''='' @ v"

definition show_main_flags :: "main_flags \<Rightarrow> string list" where
  "show_main_flags f =
     equals_arg ''config'' (mf_config f) # equals_arg ''log-level'' (mf_log_level f)
     # (if mf_dry_run f then [''--dry-run''] else []) @ (if mf_force f then [''--force-reprocess''] else [])
     @ (case mf_window f of None \<Rightarrow> [] | Some d \<Rightarrow> [equals_arg ''window'' (show_flag (FDuration d))])
     @ mf_rest f"

lemma parse_main_args:
  "parse_main_flags (equals_arg ''config'' v # args) f = parse_main_flags args (f\<lparr>mf_config := v\<rparr>)"
  "parse_main_flags (equals_arg ''log-level'' v # args) f = parse_main_flags args (f\<lparr>mf_log_level := v\<rparr>)"
  "parse_main_flags (equals_arg ''window'' v # args) f = parse_main_flags args (set_window v f)"
  "parse_main_flags (''--dry-run'' # args) f = parse_main_flags args (f\<lparr>mf_dry_run := True\<rparr>)"
  "parse_main_flags (''--force-reprocess'' # args) f = parse_main_flags args (f\<lparr>mf_force := True\<rparr>)"
  by (simp_all add: parse_main_flags.simps(2) equals_arg_def has_prefix_def)

lemma parse_plain_args:
  "list_all plain_arg args \<Longrightarrow> parse_main_flags args f = Some (f\<lparr>mf_rest := mf_rest f @ args\<rparr>)"
  by (induction args arbitrary: f) (auto simp: plain_arg_def parse_main_flags.simps(2))



text \<open>A window that is not a duration, and one that starts with a minus sign and stands alone, is
  ignored without a word: the run uses the window it would have used without the flag.\<close>

theorem bad_window_ignored:
  assumes "parse_duration v = Inl e" and "plain_arg v"
  shows "parse_main_flags [''--window='' @ v] no_flags = Some no_flags
    \<and> (\<not> has_prefix ''-'' v \<longrightarrow> parse_main_flags [''--window'', v] no_flags = Some no_flags)
    \<and> (has_prefix ''-'' v \<longrightarrow> parse_main_flags [''--window'', v] no_flags = Some (no_flags\<lparr>mf_rest := [v]\<rparr>))"
  using assms parse_plain_args [of "[v]" no_flags]
  by (auto simp: parse_main_flags.simps(2) set_window_def has_prefix_def no_flags_def)

theorem bad_window_ignored_witness:
  "parse_main_flags [''--window='' @ ''1 day''] no_flags = Some no_flags
    \<and> (\<not> has_prefix ''-'' ''1 day'' \<longrightarrow> parse_main_flags [''--window'', ''1 day''] no_flags = Some no_flags)
    \<and> (has_prefix ''-'' ''1 day'' \<longrightarrow> parse_main_flags [''--window'', ''1 day''] no_flags = Some (no_flags\<lparr>mf_rest := [''1 day'']\<rparr>))"
  by (rule bad_window_ignored [where e = "Err (''time: unknown unit '' @ time_quote '' day'' @ '' in duration '' @ time_quote ''1 day'')"])
    (code_simp, code_simp)

section \<open>Exit codes and effects\<close>

lemma provider_registry_eq:
  "provider_registry = Some [(''gemini'', Gemini), (''mistral'', Mistral), (''ollama'', Ollama), (''openrouter'', OpenRouter)]"
  by (simp add: provider_registry_def register_factory_def)

lemma channel_registry_eq: "channel_registry = Some [(''telegram'', telegram_factory)]"
  by (simp add: channel_registry_def register_channel_def)

text \<open>For a valid configuration the provider and the channel can always be made, unless the name of the
  provider is not one of the four registered ones, which the validation does not check.\<close>

theorem launch_valid:
  assumes "valid_config cfg"
  shows "isl (launch pg cfg) \<longleftrightarrow> llm_provider (cfg_llm cfg) \<notin> {''gemini'', ''mistral'', ''ollama'', ''openrouter''}"
proof -
  have "tg_bot_token (cfg_telegram cfg) \<noteq> []"
    using assms by (auto simp: valid_config_def bot_token_ok_def split: option.splits)
  then have "telegram_factory (CfgMap [(''bot_token'', CfgString (tg_bot_token (cfg_telegram cfg))),
      (''chat_id'', CfgInt64 (tg_chat_id (cfg_telegram cfg)))]) =
      Inr \<lparr>ch_token = tg_bot_token (cfg_telegram cfg), ch_chat = tg_chat_id (cfg_telegram cfg), ch_endpoint = default_endpoint\<rparr>"
    by (simp add: telegram_factory_def)
  moreover have "llm_model (cfg_llm cfg) \<noteq> []" "llm_provider (cfg_llm cfg) = ''ollama'' \<or> llm_api_key (cfg_llm cfg) \<noteq> []"
    using assms by (auto simp: valid_config_def)
  ultimately show ?thesis
    by (auto simp: launch_def Let_def provider_registry_eq channel_registry_eq lookup_factory_def lookup_channel_def gemini_factory_def
        mistral_factory_def openrouter_factory_def ollama_factory_def keyed_factory_def split: option.splits if_splits)
qed

text \<open>A status for which the program reports success.\<close>

definition successful :: "run_status \<Rightarrow> bool" where
  "successful st \<longleftrightarrow> st \<in> {RunCompleted, RunDegraded, RunPartial, RunPartiallyClassified}"

lemma exit_code_run:
  "exit_code (res_status (fst (run_pipeline env opts w))) =
     (if successful (res_status (fst (run_pipeline env opts w))) then 0 else 1)"
proof -
  have "result_ok (fst (run_pipeline env opts w))" by (rule run_result)
  then show ?thesis by (auto simp: result_ok_def final_statuses_def successful_def)
qed

text \<open>What an outcome may be: code 1 without a result, or the code of a finished run.\<close>

definition outcome_ok :: "outcome \<Rightarrow> bool" where
  "outcome_ok o1 \<longleftrightarrow>
     (case oc_result o1 of
        None \<Rightarrow> oc_code o1 = 1 \<and> oc_report o1 \<noteq> None
      | Some r \<Rightarrow> oc_code o1 = (if successful (res_status r) then 0 else 1) \<and> result_ok r)"

lemma serve_outcome:
  assumes "serve pg ops cfg f s w = (o1, s', w')"
  shows "outcome_ok o1"
proof -
  obtain r w1 where eq: "connect_accounts (pg_server pg) (imap_timeout (cfg_imap cfg)) (imap_accounts (cfg_imap cfg)) [] w
      = (r, w1)" by fastforce
  show ?thesis
  proof (cases r)
    case (Inr clients)
    show ?thesis
    proof (cases "launch pg cfg")
      case (Inr l)
      obtain classify ch where l: "l = (classify, ch)" by fastforce
      obtain res wd where run: "run_pipeline (pipeline_of pg ops cfg clients classify ch) (options_of f cfg)
          \<lparr>w_store = s, w_ticks = 0, w_ext = \<lparr>ap_world = w1, ap_clients = clients\<rparr>\<rparr> = (res, wd)" by fastforce
      have "o1 = \<lparr>oc_code = exit_code (res_status res), oc_report = None, oc_result = Some res\<rparr>"
        using assms by (simp add: serve_def eq \<open>r = Inr clients\<close> Inr l run)
      moreover have "exit_code (res_status res) = (if successful (res_status res) then 0 else 1)" "result_ok res"
        using exit_code_run run_result run by (metis fst_conv)+
      ultimately show ?thesis by (simp add: outcome_ok_def)
    qed (use assms in \<open>auto simp: serve_def eq Inr fatal_def outcome_ok_def\<close>)
  qed (use assms in \<open>auto simp: serve_def eq fatal_def outcome_ok_def\<close>)
qed

text \<open>C8: The exit code is 0 exactly for a run that ended completed, degraded, partial or partially
  classified, and 1 for one whose ingestion failed or that could not be started; 130 is never used.  A
  program that exits with 2, because of its flags or its configuration, has not touched anything; what
  runs was loaded and validated, and a stateless program leaves the database as it is.\<close>

theorem program_exit:
  assumes "run_program pg args db w = (o1, db', w')"
  shows "oc_code o1 = 2 \<and> oc_result o1 = None \<and> oc_report o1 \<noteq> None \<and> db' = db \<and> w' = w
    \<or> outcome_ok o1 \<and> (\<exists>f cfg. parse_main_flags args no_flags = Some f \<and> valid_config cfg
        \<and> load (pg_config pg) (pg_environment pg) args \<lparr>lo_config_path = mf_config f, lo_args = Some (mf_rest f)\<rparr> = Inr cfg
        \<and> (st_stateless (cfg_storage cfg) \<longrightarrow> db' = db))"
proof (cases "parse_main_flags args no_flags")
  case None
  then show ?thesis using assms by (auto simp: run_program_def fatal_def)
next
  case f: (Some f)
  show ?thesis
  proof (cases "load (pg_config pg) (pg_environment pg) args \<lparr>lo_config_path = mf_config f, lo_args = Some (mf_rest f)\<rparr>")
    case (Inl e)
    then show ?thesis using assms f by (auto simp: run_program_def fatal_def)
  next
    case (Inr cfg)
    let ?cfg = "validate_effect cfg"
    have same: "cfg_storage ?cfg = cfg_storage cfg" by (simp add: validate_effect_def)
    show ?thesis
    proof (cases "validate cfg = [] \<and> \<not> isl (new_logger (if mf_log_level f = [] then ''info'' else mf_log_level f) [])")
      case False
      then show ?thesis using assms f Inr by (auto simp: run_program_def fatal_def Let_def split: sum.splits if_splits)
    next
      case True
      then have valid: "valid_config cfg" by (simp add: validate_valid)
      obtain h where h: "new_logger (if mf_log_level f = [] then ''info'' else mf_log_level f) [] = Inr h"
        using True by (auto simp: isl_def) (metis sum.exhaust)
      note run = assms [unfolded run_program_def f option.case Inr sum.case Let_def h]
      have "outcome_ok o1 \<and> (st_stateless (cfg_storage cfg) \<longrightarrow> db' = db)"
      proof (cases "st_stateless (cfg_storage cfg)")
        case True': True
        obtain o2 s2 w2 where eq: "serve pg noop_ops ?cfg f new_noop_store w = (o2, s2, w2)" by (metis surj_pair)
        show ?thesis using run True True' same eq serve_outcome [OF eq] by simp
      next
        case False
        show ?thesis
        proof (cases "new_sqlite_store (pg_open pg) (st_state_path (cfg_storage ?cfg))")
          case None
          then show ?thesis using run True False same serve_outcome by simp
        next
          case (Some e)
          then show ?thesis using run True False same by (auto simp: outcome_ok_def fatal_def)
        qed
      qed
      then show ?thesis using f Inr valid by blast
    qed
  qed
qed

text \<open>A program whose mail server does not answer.\<close>

definition demo_environment :: environment where
  "demo_environment =
     [''EMAILER_LLM_PROVIDER'' \<mapsto> ''ollama'', ''EMAILER_LLM_MODEL'' \<mapsto> ''m'', ''EMAILER_IMAP_HOST'' \<mapsto> ''h'',
      ''EMAILER_IMAP_LABEL'' \<mapsto> ''l'', ''EMAILER_IMAP_USERNAME'' \<mapsto> ''u'', ''EMAILER_IMAP_PASSWORD'' \<mapsto> ''p'',
      ''EMAILER_TELEGRAM_BOT_TOKEN'' \<mapsto> ''1:t'', ''EMAILER_TELEGRAM_CHAT_ID'' \<mapsto> ''7'']"

definition silent_server :: "(nat, unit, 'e) imap_server" where
  "silent_server =
     \<lparr>sv_dial_tls = \<lambda>_ n. (Inl (Err ''timeout''), Suc n), sv_dial = \<lambda>_ n. (Inl (Err ''timeout''), Suc n),
      sv_starttls = \<lambda>_ _ n. (None, n), sv_set_timeout = \<lambda>c _. c, sv_login = \<lambda>_ _ _ n. (None, n),
      sv_logout = \<lambda>_ n. (None, n), sv_select = \<lambda>_ _ _ n. (Inr [], n), sv_search = \<lambda>_ _ _ n. (Inr [], n),
      sv_headers = \<lambda>_ _ n. (([], None), n), sv_bodies = \<lambda>_ _ n. (([], None), n), sv_store = \<lambda>_ _ _ n. (None, n),
      sv_ctx_err = \<lambda>_. None, sv_net_error = \<lambda>_. False, sv_mime = undefined\<rparr>"

definition unreachable_http :: http_service where
  "unreachable_http =
     \<lparr>hs_new_request = \<lambda>_. None, hs_do = \<lambda>_. Inl (Err ''timeout''), hs_date = \<lambda>_. [],
      hs_template = pe_template (silent_service :: (chat_request, chat_response) provider_env), hs_float = \<lambda>_. ''0''\<rparr>"

definition demo_program :: "(nat, unit, unit) program" where
  "demo_program =
     \<lparr>pg_config = \<lparr>cl_read_file = \<lambda>_. Inr [], cl_keys = \<lambda>_. Inr 0, cl_into = \<lambda>_. Inr\<rparr>, pg_environment = demo_environment,
      pg_open = \<lparr>oi_open = \<lambda>_. None, oi_ping = None, oi_source = None, oi_instance = None, oi_init = None,
                 oi_up = Some (Sentinel ''no change'')\<rparr>,
      pg_legacy = \<lambda>_. None, pg_io = \<lambda>i. quiet_io (int i), pg_server = silent_server, pg_schedule = \<lambda>n. [0..<n],
      pg_keyword_order = id, pg_registry_order = id, pg_http = \<lambda>_. unreachable_http, pg_called = \<lambda>_ n. n,
      pg_telegram = counting_env refused, pg_show_time = \<lambda>_. [], pg_error_order = id,
      pg_group_order = id, pg_sender_order = id\<rparr>"

theorem program_exit_witness:
  "let (o1, db', w') = run_program demo_program [''--dry-run''] empty_db 0 in
    oc_code o1 = 2 \<and> oc_result o1 = None \<and> oc_report o1 \<noteq> None \<and> db' = empty_db \<and> w' = 0
    \<or> outcome_ok o1 \<and> (\<exists>f cfg. parse_main_flags [''--dry-run''] no_flags = Some f \<and> valid_config cfg
        \<and> load (pg_config demo_program) (pg_environment demo_program) [''--dry-run'']
            \<lparr>lo_config_path = mf_config f, lo_args = Some (mf_rest f)\<rparr> = Inr cfg
        \<and> (st_stateless (cfg_storage cfg) \<longrightarrow> db' = empty_db))"
  unfolding Let_def by (cases "run_program demo_program [''--dry-run''] empty_db 0") (simp only: prod.case, rule program_exit)

end
