(* ===== verification/Reports.thy ===== *)
theory Reports
  imports Connections
begin

text \<open>
  What the program writes to the standard error: the usage text, the message of every failure that ends
  it before the run, in them the messages of \<open>internal/config/validate.go\<close>, and what package \<open>flag\<close>
  prints when the flags of \<open>internal/config/flags.go\<close> do not parse.  \<open>duration_text\<close> is
  \<open>Duration.String\<close> of package \<open>time\<close>, which \<open>%v\<close> uses; it reads back.  The theorems say which of
  these texts show a secret: the validation never does, the usage of the flags does.
\<close>

section \<open>Durations\<close>

text \<open>\<open>fmtFrac\<close>: the last digits of a number as a fraction without the zeros at its end.\<close>

fun frac_digits :: "nat \<Rightarrow> nat \<Rightarrow> string \<Rightarrow> string" where
  "frac_digits 0 v acc = acc"
| "frac_digits (Suc prec) v acc =
     (if acc = [] \<and> v mod 10 = 0 then frac_digits prec (v div 10) acc
      else frac_digits prec (v div 10) (chr (48 + v mod 10) # acc))"

definition fmt_frac :: "nat \<Rightarrow> nat \<Rightarrow> string" where
  "fmt_frac prec v = (let ds = frac_digits prec v [] in if ds = [] then [] else ''.'' @ ds)"

text \<open>A number of units with the part below the unit as its fraction.\<close>

definition fmt_unit :: "nat \<Rightarrow> nat \<Rightarrow> string \<Rightarrow> string" where
  "fmt_unit prec v unit = digits_of (v div 10 ^ prec) @ fmt_frac prec v @ unit"

definition magnitude_text :: "nat \<Rightarrow> string" where
  "magnitude_text u =
     (if u = 0 then ''0s''
      else if u < 1000 then fmt_unit 0 u ''ns''
      else if u < 1000000 then fmt_unit 3 u (encode_rune 0xB5 @ ''s'')
      else if u < 1000000000 then fmt_unit 6 u ''ms''
      else let minutes = u div (60 * 10 ^ 9) in
           (if 60 \<le> minutes then fmt_unit 0 (minutes div 60) ''h'' else [])
           @ (if 0 < minutes then fmt_unit 0 (minutes mod 60) ''m'' else [])
           @ fmt_unit 9 (u mod (60 * 10 ^ 9)) ''s'')"

definition duration_text :: "duration \<Rightarrow> string" where
  "duration_text d = (if d < 0 then ''-'' else []) @ magnitude_text (nat \<bar>d\<bar>)"

section \<open>The messages of the validation\<close>

definition account_prefix :: "nat \<Rightarrow> string" where
  "account_prefix i = ''imap.accounts['' @ digits_of i @ '']''"

definition got :: "string \<Rightarrow> int \<Rightarrow> string" where
  "got what n = what @ '', got '' @ fmt_d n"

fun config_error_text :: "config_error \<Rightarrow> string" where
  "config_error_text (MaxWindowNotPositive d) = ''max_window must be positive, got '' @ duration_text d"
| "config_error_text StatePathRequired =
     ''storage.state_path is required when fetch_unread_only=false and stateless=false''"
| "config_error_text ProviderRequired = ''llm.provider is required''"
| "config_error_text ApiKeyRequired = ''llm.api_key is required''"
| "config_error_text ModelRequired = ''llm.model is required''"
| "config_error_text (LlmTimeoutNotPositive d) = ''llm.timeout must be positive, got '' @ duration_text d"
| "config_error_text (MaxRetriesNegative n) = got ''llm.max_retries must be >= 0'' n"
| "config_error_text (MaxConcurrentNotPositive n) = got ''llm.max_concurrent must be positive'' n"
| "config_error_text (RepairAttemptsNegative n) = got ''llm.analysis_repair_max_attempts must be >= 0'' n"
| "config_error_text NoAccounts = ''imap.accounts: at least one account is required''"
| "config_error_text (ImapTimeoutNegative d) = ''imap.timeout must be non-negative, got '' @ duration_text d"
| "config_error_text (LabelRequired i) = account_prefix i @ ''.label is required''"
| "config_error_text (HostRequired i) = account_prefix i @ ''.host is required''"
| "config_error_text (PortOutOfRange i n) = account_prefix i @ got ''.port must be between 1 and 65535'' n"
| "config_error_text (UsernameRequired i) = account_prefix i @ ''.username is required''"
| "config_error_text (PasswordRequired i) = account_prefix i @ ''.password is required''"
| "config_error_text (FolderEmpty i j) = account_prefix i @ ''.folders['' @ digits_of j @ ''] must not be empty''"
| "config_error_text (HostHasScheme i h) = account_prefix i
     @ ''.host must not contain a scheme (use hostname or IP only), got '' @ go_quote h"
| "config_error_text (DuplicateLabel i j l) = account_prefix i @ '' and '' @ account_prefix j
     @ '' have the same label '' @ go_quote l @ ''; labels must be unique''"
| "config_error_text BotTokenRequired = ''notify.telegram.bot_token is required''"
| "config_error_text ChatIdZero = ''notify.telegram.chat_id must be non-zero''"
| "config_error_text BotTokenMalformed = ''notify.telegram.bot_token does not look like a valid bot token ''
     @ ''(expected format: <digits>:<token>)''"
| "config_error_text StatelessNeedsUnread = ''storage.stateless requires fetch_unread_only=true: ''
     @ ''without persistence, a stateless run cannot deduplicate across all messages''"
| "config_error_text (MaxExcerptNotPositive n) = got ''digest.max_message_excerpt must be positive'' n"
| "config_error_text (MaxMessagesNegative n) = got ''digest.max_messages must be >= 0'' n"
| "config_error_text (MaxKeyPointsNegative n) = got ''digest.max_key_points_per_message must be >= 0'' n"
| "config_error_text (MaxActionItemsNegative n) = got ''digest.max_action_items_per_message must be >= 0'' n"
| "config_error_text NoContentSource =
     ''digest: at least one of include_summaries or include_raw_excerpt_fallback must be true''"
| "config_error_text (MaxAccountsNotPositive n) = got ''concurrency.max_accounts must be positive'' n"
| "config_error_text (MaxLlmCallsNotPositive n) = got ''concurrency.max_llm_calls must be positive'' n"
| "config_error_text (FetchBatchNegative n) = got ''concurrency.fetch_batch_size must be non-negative'' n"
| "config_error_text (CustomLabelEmpty i) = ''labels.custom['' @ digits_of i @ ''] must not be empty''"

text \<open>\<open>Validate\<close> as the \<open>error\<close> it returns.\<close>

definition validate_error :: "config \<Rightarrow> err option" where
  "validate_error c = join_errors (map (\<lambda>e. Err (config_error_text e)) (validate c))"

section \<open>What the package \<open>flag\<close> prints\<close>

text \<open>\<open>PrintDefaults\<close> on a flag set whose usage strings are empty: the name, the kind of the value, and
  the default unless it is the zero of its type.\<close>

fun type_text :: "flag_value \<Rightarrow> string" where
  "type_text (FBool _) = []"
| "type_text (FInt _) = '' int''"
| "type_text (FInt64 _) = '' int''"
| "type_text (FString _) = '' string''"
| "type_text (FDuration _) = '' duration''"

fun value_string :: "flag_value \<Rightarrow> string" where
  "value_string (FBool b) = (if b then ''true'' else ''false'')"
| "value_string (FInt n) = fmt_d n"
| "value_string (FInt64 n) = fmt_d n"
| "value_string (FString s) = s"
| "value_string (FDuration d) = duration_text d"

fun is_zero_value :: "flag_value \<Rightarrow> bool" where
  "is_zero_value (FBool b) = (\<not> b)"
| "is_zero_value (FInt n) = (n = 0)"
| "is_zero_value (FInt64 n) = (n = 0)"
| "is_zero_value (FString s) = (s = [])"
| "is_zero_value (FDuration d) = (d = 0)"

fun is_string_flag :: "flag_value \<Rightarrow> bool" where
  "is_string_flag (FString _) = True"
| "is_string_flag _ = False"

definition default_text :: "flag_value \<Rightarrow> string" where
  "default_text v =
     (if is_zero_value v then []
      else '' (default '' @ (if is_string_flag v then go_quote (value_string v) else value_string v) @ '')'')"

definition flag_usage :: "string \<times> flag_value \<Rightarrow> string" where
  "flag_usage f =
     (let head = ''  -'' @ fst f @ type_text (snd f) in
      head @ (if length head \<le> 4 then [chr 9] else [chr 10] @ ''    '' @ [chr 9]) @ default_text (snd f) @ [chr 10])"

definition flags_usage :: "flag_set \<Rightarrow> string" where
  "flags_usage fs = ''Usage of emailer:'' @ [chr 10] @ concat (map flag_usage (sort_key fst fs))"

text \<open>\<open>Parse\<close> with \<open>ContinueOnError\<close> prints its error, unless help was asked for, and the usage.  The
  defaults are the values the flags had when they were declared.\<close>

definition flag_output :: "flag_set \<Rightarrow> string list \<Rightarrow> string" where
  "flag_output fs args =
     (case parse_flags fs args of
        Inr _ \<Rightarrow> []
      | Inl e \<Rightarrow> (if e = help_requested then [] else err_text e @ [chr 10]) @ flags_usage fs)"

text \<open>What \<open>config.Load\<close> prints, in \<open>loadFlags\<close>.\<close>

definition load_stderr :: "config_lib \<Rightarrow> environment \<Rightarrow> string list \<Rightarrow> load_options \<Rightarrow> string" where
  "load_stderr lib env os_args opts =
     (case file_config lib opts of
        Inl e \<Rightarrow> []
      | Inr c \<Rightarrow>
     (case load_env env c of
        (Some e, c) \<Rightarrow> []
      | (None, c) \<Rightarrow> flag_output (config_flags c) (args_of os_args opts)))"

section \<open>What goes to the standard error\<close>

text \<open>\<open>printUsage\<close>.\<close>

definition usage_lines :: "string list" where
  "usage_lines =
     [''Usage: emailer [options]'',
      [],
      ''A one-shot email AI agent that ingests IMAP mail, classifies it via an LLM,'',
      ''applies keyword flags, and delivers a digest to Telegram.'',
      [],
      ''Main flags (parsed before config loading):'',
      ''  --config <path>         Path to YAML or JSON config file'',
      ''  --log-level <level>     Log level: debug, info, warn, error (default: info)'',
      ''  --dry-run               Skip side effects (flag writes, notifications)'',
      ''  --force-reprocess       Reprocess all messages, ignoring prior runs'',
      ''  --window <duration>     Explicit fetch window (e.g. 24h, 72h)'',
      [],
      ''Config flags (passed to config.Load, see --help on those):'',
      ''  --llm-provider, --llm-api-key, --llm-model, --llm-endpoint, ...'',
      ''  --imap-host, --imap-label, --imap-port, --imap-username, ...'',
      ''  --telegram-bot-token, --telegram-chat-id, ...'',
      ''  --state-path, --stateless, --fetch-unread-only, --max-window, ...'',
      [],
      ''Exit codes:'',
      ''  0   Success (completed, degraded, partial)'',
      ''  1   Fatal error (ingest failed, config error, store error)'',
      ''  2   CLI flag / config validation error'',
      ''  130 Cancelled (SIGINT/SIGTERM)'']"

definition usage_text :: string where
  "usage_text = concat (map (\<lambda>l. l @ [chr 10]) usage_lines)"

text \<open>The account in the message of a connection that failed.\<close>

definition account_text :: "imap_account \<Rightarrow> string" where
  "account_text a = acct_label a @ '' ('' @ acct_host a @ '')''"

definition text_line :: "string \<Rightarrow> string" where
  "text_line s = s @ [chr 10]"

fun report_text :: "report \<Rightarrow> string" where
  "report_text Usage = usage_text"
| "report_text (LoadError e) = text_line (''error: '' @ err_text e)"
| "report_text (Invalid es) = text_line (''configuration error: '' @ join_with [chr 10] (map config_error_text es))"
| "report_text (LoggerError e) = text_line (''logger setup error: '' @ err_text e)"
| "report_text (StoreError e) = text_line (''store error: '' @ err_text e)"
| "report_text (ClientError e) = text_line (''imap client error: '' @ err_text e)"
| "report_text (DialError a e) = text_line (''imap dial error for '' @ account_text a @ '': '' @ err_text e)"
| "report_text (LoginError a e) = text_line (''imap login error for '' @ account_text a @ '': '' @ err_text e)"
| "report_text (ProviderMissing name names) =
     text_line (''llm provider '' @ go_quote name @ '' not found (registered: '' @ join_with '', '' names @ '')'')"
| "report_text (ProviderError e) = text_line (''llm provider error: '' @ err_text e)"
| "report_text ChannelMissing = text_line (''notify: telegram channel factory not found'')"
| "report_text (ChannelError e) = text_line (''notify channel error: '' @ err_text e)"

text \<open>Everything on the standard error: the logger writes to the standard output, so it is the output of the
  package \<open>flag\<close> and the report of the failure.\<close>

definition program_stderr :: "('w, 'c, 'e) program \<Rightarrow> string list \<Rightarrow> outcome \<Rightarrow> string" where
  "program_stderr pg args oc =
     (case parse_main_flags args no_flags of
        None \<Rightarrow> []
      | Some f \<Rightarrow> load_stderr (pg_config pg) (pg_environment pg) args
                    \<lparr>lo_config_path = mf_config f, lo_args = Some (mf_rest f)\<rparr>)
     @ (case oc_report oc of None \<Rightarrow> [] | Some r \<Rightarrow> report_text r)"

section \<open>Durations read back\<close>

lemma leading_fraction_digits:
  assumes "list_all is_digit ds" and "foldl (\<lambda>n c. 10 * n + digit_val c) x ds < 2 ^ 63" and "r = [] \<or> \<not> is_digit (hd r)"
  shows "leading_fraction False x sc (ds @ r) = (foldl (\<lambda>n c. 10 * n + digit_val c) x ds, sc * 10 ^ length ds, r)"
  using assms(1,2)
proof (induction ds arbitrary: x sc)
  case Nil
  then show ?case using assms(3) by (cases r) auto
next
  case (Cons c cs)
  let ?y = "x * 10 + digit_val c"
  have y: "10 * x + digit_val c = ?y" by simp
  have "?y < 2 ^ 63" using Cons.prems(2) foldl_digits_mono [of ?y cs] by (simp only: foldl_Cons y le_less_trans)
  then have "\<not> (False \<or> (2 ^ 63 - 1) div 10 < x \<or> 2 ^ 63 < ?y)" by simp
  then have "leading_fraction False x sc ((c # cs) @ r) = leading_fraction False ?y (sc * 10) (cs @ r)"
    using Cons.prems(1) by (simp only: append_Cons leading_fraction.simps list.pred_inject if_False not_True_eq_False)
  then show ?case using Cons.prems Cons.IH [of ?y "sc * 10"] by (simp only: foldl_Cons y list.pred_inject list.size power_Suc mult.assoc) simp
qed

lemma digit_chr: "d < 10 \<Longrightarrow> is_digit (chr (48 + d)) \<and> digit_val (chr (48 + d)) = d"
  by (simp add: is_digit_def digit_val_def byte_def chr_def)

lemma foldl_digits_shift:
  "foldl (\<lambda>n c. 10 * n + digit_val c) x ds = x * 10 ^ length ds + foldl (\<lambda>n c. 10 * n + digit_val c) 0 ds"
proof (induction ds arbitrary: x)
  case (Cons c cs)
  show ?case using Cons.IH [of "10 * x + digit_val c"] Cons.IH [of "digit_val c"] by (simp add: algebra_simps)
qed simp

text \<open>The digits of a fraction are those of the number below its unit.\<close>

lemma frac_digits_full:
  "acc \<noteq> [] \<Longrightarrow> list_all is_digit acc \<Longrightarrow>
     list_all is_digit (frac_digits p v acc) \<and> length (frac_digits p v acc) = p + length acc
     \<and> nat_of_digits (frac_digits p v acc) = v mod 10 ^ p * 10 ^ length acc + nat_of_digits acc"
proof (induction p arbitrary: v acc)
  case (Suc p)
  let ?c = "chr (48 + v mod 10)"
  have c: "is_digit ?c" "digit_val ?c = v mod 10" using digit_chr [of "v mod 10"] by auto
  have "v mod 10 ^ Suc p = v div 10 mod 10 ^ p * 10 + v mod 10"
    by (simp add: mod_mult2_eq)
  moreover have "nat_of_digits (?c # acc) = v mod 10 * 10 ^ length acc + nat_of_digits acc"
    using foldl_digits_shift [of "v mod 10" acc] by (simp add: nat_of_digits_def c(2))
  ultimately show ?case using Suc.IH [of "?c # acc" "v div 10"] Suc.prems c(1) by (simp add: algebra_simps)
qed simp

lemma frac_digits_value:
  "list_all is_digit (frac_digits p v []) \<and> length (frac_digits p v []) \<le> p
   \<and> nat_of_digits (frac_digits p v []) * 10 ^ (p - length (frac_digits p v [])) = v mod 10 ^ p"
proof (induction p arbitrary: v)
  case 0
  then show ?case by (simp add: nat_of_digits_def)
next
  case (Suc p)
  let ?c = "chr (48 + v mod 10)"
  have c: "is_digit ?c" "digit_val ?c = v mod 10" using digit_chr [of "v mod 10"] by auto
  have split: "v mod 10 ^ Suc p = v div 10 mod 10 ^ p * 10 + v mod 10" by (simp add: mod_mult2_eq)
  show ?case
  proof (cases "v mod 10 = 0")
    case True
    then show ?thesis using Suc.IH [of "v div 10"] split by (auto simp: Suc_diff_le)
  next
    case False
    have "nat_of_digits [?c] = v mod 10" by (simp add: nat_of_digits_def c(2))
    then show ?thesis using False frac_digits_full [of "[?c]" p "v div 10"] c(1) split by simp
  qed
qed

lemma part_reads_back:
  assumes unit: "unit_of unit = Some U" and scale: "p = 0 \<or> U = 10 ^ p"
    and rest: "r = [] \<or> is_digit (hd r)" and fits: "v div 10 ^ p * U + v mod 10 ^ p \<le> 2 ^ 63"
    and small: "v div 10 ^ p < 2 ^ 63" "p \<le> 9"
  shows "duration_part orig (fmt_unit p v unit @ r) = Inr (v div 10 ^ p * U + v mod 10 ^ p, r)"
proof -
  let ?n = "v div 10 ^ p" and ?ds = "frac_digits p v []"
  have u: "unit \<noteq> []" "list_all unit_char unit" "0 < U" using unit_of_chars [OF unit] by auto
  have stop: "\<not> is_digit (hd (unit @ r))" "hd (unit @ r) \<noteq> CHR ''.''"
    using u(1,2) by (cases unit; simp add: unit_char_def)+
  note ds = frac_digits_value [of p v]
  have first: "digits_of ?n \<noteq> []" "is_digit (hd (digits_of ?n @ s))" for s
    using digits_of_list_all [of ?n] by (cases "digits_of ?n"; simp add: digits_of_not_Nil)+
  have int: "leading_int 0 (digits_of ?n @ s) = Some (?n, s)" if "s \<noteq> []" "\<not> is_digit (hd s)" for s
    using leading_int_digits [OF digits_of_list_all [of ?n], of 0 s] nat_of_digits_digits_of [of ?n] small(1) that
    by (simp add: nat_of_digits_def)
  obtain f sc where number: "leading_number (fmt_unit p v unit @ r) = Some (?n, f, sc, unit @ r)"
    and val: "f * U div sc = v mod 10 ^ p"
  proof (cases "?ds = []")
    case True
    have "leading_number (fmt_unit p v unit @ r) = Some (?n, 0, 1, unit @ r)"
      using True int [of "unit @ r"] first stop u(1)
      by (simp add: leading_number_def Let_def fmt_unit_def fmt_frac_def)
    moreover have "v mod 10 ^ p = 0" using True ds by (simp add: nat_of_digits_def)
    ultimately show thesis using that [of 0 1] by simp
  next
    case False
    have "nat_of_digits ?ds \<le> v mod 10 ^ p" using ds by (metis le_add1 mult_le_mono2 mult.right_neutral one_le_power one_le_numeral)
    also have "\<dots> < 10 ^ p" by simp
    also have "(10 :: nat) ^ p \<le> 10 ^ 9" using small(2) by (rule power_increasing) simp
    finally have "nat_of_digits ?ds < 2 ^ 63" by simp
    then have "leading_fraction False 0 1 (?ds @ unit @ r) = (nat_of_digits ?ds, 10 ^ length ?ds, unit @ r)"
      using leading_fraction_digits [of ?ds 0 "unit @ r" 1] ds stop(1) by (simp add: nat_of_digits_def)
    then have "leading_number (fmt_unit p v unit @ r) = Some (?n, nat_of_digits ?ds, 10 ^ length ?ds, unit @ r)"
      using False int [of "CHR ''.'' # ?ds @ unit @ r"] first
      by (simp add: leading_number_def Let_def fmt_unit_def fmt_frac_def is_digit_def byte_def)
    moreover have "nat_of_digits ?ds * U div 10 ^ length ?ds = v mod 10 ^ p"
    proof -
      have "U = 10 ^ (p - length ?ds) * 10 ^ length ?ds"
        using scale ds False by (auto simp flip: power_add)
      then show ?thesis using ds by (metis mult.assoc nonzero_mult_div_cancel_right power_not_zero zero_neq_numeral)
    qed
    ultimately show thesis using that by blast
  qed
  have "takeWhile unit_char (unit @ r) = unit" "dropWhile unit_char (unit @ r) = r"
    using u(2) rest by (cases r; auto simp: list_all_iff unit_char_def takeWhile_append dropWhile_append)+
  moreover have "?n \<le> 2 ^ 63 div U" using fits u(3) by (simp add: less_eq_div_iff_mult_less_eq)
  ultimately show ?thesis using fits u(1) by (simp add: duration_part_def number unit Let_def val not_less)
qed


lemma fmt_unit_first [simp]: "fmt_unit p v unit \<noteq> []" "is_digit (hd (fmt_unit p v unit))"
proof -
  have "digits_of (v div 10 ^ p) \<noteq> []" "list_all is_digit (digits_of (v div 10 ^ p))"
    by (simp_all add: digits_of_list_all)
  then show "fmt_unit p v unit \<noteq> []" "is_digit (hd (fmt_unit p v unit))"
    by (cases "digits_of (v div 10 ^ p)"; simp add: fmt_unit_def)+
qed

lemma parts_step:
  assumes "unit_of unit = Some U" and "p = 0 \<or> U = 10 ^ p" and "p \<le> 9" and "r = [] \<or> is_digit (hd r)"
    and "d + (v div 10 ^ p * U + v mod 10 ^ p) \<le> 2 ^ 63" and "v div 10 ^ p < 2 ^ 63"
  shows "duration_parts orig d (fmt_unit p v unit @ r) = duration_parts orig (d + (v div 10 ^ p * U + v mod 10 ^ p)) r"
  using part_reads_back [OF assms(1,2,4), of v orig] assms
  by (simp add: duration_parts.simps [of orig d "fmt_unit p v unit @ r"])

lemma parts_last:
  assumes "unit_of unit = Some U" and "p = 0 \<or> U = 10 ^ p" and "p \<le> 9"
    and "d + (v div 10 ^ p * U + v mod 10 ^ p) \<le> 2 ^ 63" and "v div 10 ^ p < 2 ^ 63"
  shows "duration_parts orig d (fmt_unit p v unit) = Inr (d + (v div 10 ^ p * U + v mod 10 ^ p))"
  using parts_step [OF assms(1-3), of "[]" d v orig] assms(4,5) by (simp add: duration_parts.simps [of orig _ "[]"])

lemma unit_values:
  "unit_of ''ns'' = Some 1" "unit_of (encode_rune 0xB5 @ ''s'') = Some (10 ^ 3)" "unit_of ''ms'' = Some (10 ^ 6)"
  "unit_of ''s'' = Some (10 ^ 9)" "unit_of ''m'' = Some 60000000000" "unit_of ''h'' = Some 3600000000000"
  by (simp_all add: unit_of_def units_def encode_rune_def)

lemma magnitude_reads_back:
  assumes "u \<le> 2 ^ 63"
  shows "duration_parts orig 0 (magnitude_text u) = Inr u"
proof -
  have "fmt_unit 0 0 ''s'' = ''0s''" by code_simp
  then have zero: "duration_parts orig 0 ''0s'' = Inr 0" using parts_last [OF unit_values(4), of 0 0 0 orig] by simp
  consider "u = 0" | "0 < u" "u < 1000" | "1000 \<le> u" "u < 1000000" | "1000000 \<le> u" "u < 1000000000" | "1000000000 \<le> u" by linarith
  then show ?thesis
  proof cases
    case 1
    then show ?thesis using zero by (simp add: magnitude_text_def)
  next
    case 2
    then show ?thesis using assms parts_last [OF unit_values(1), of 0 0 u orig] by (simp add: magnitude_text_def)
  next
    case 3
    then show ?thesis using assms parts_last [OF unit_values(2), of 3 0 u orig] by (simp add: magnitude_text_def)
  next
    case 4
    then show ?thesis using assms parts_last [OF unit_values(3), of 6 0 u orig] by (simp add: magnitude_text_def)
  next
    case 5
    define s and k where "s = u mod (60 * 10 ^ 9)" and "k = u div (60 * 10 ^ 9)"
    define q and h where "q = k mod 60" and "h = k div 60"
    have "u = k * 60000000000 + s" "k = h * 60 + q" by (simp_all add: s_def k_def q_def h_def)
    then have u: "u = h * 3600000000000 + (q * 60000000000 + s)" by simp
    have seconds: "duration_parts orig d (fmt_unit 9 s ''s'') = Inr (d + s)" if "d + s \<le> 2 ^ 63" for d
      using parts_last [OF unit_values(4), of 9 d s orig] that by simp
    have minutes: "duration_parts orig d (fmt_unit 0 q ''m'' @ fmt_unit 9 s ''s'') = Inr (d + (q * 60000000000 + s))"
      if "d + (q * 60000000000 + s) \<le> 2 ^ 63" for d
      using parts_step [OF unit_values(5), of 0 "fmt_unit 9 s ''s''" d q orig]
        seconds [of "d + q * 60000000000"] that by (simp add: add.assoc)
    have hours: "duration_parts orig 0 (fmt_unit 0 h ''h'' @ fmt_unit 0 q ''m'' @ fmt_unit 9 s ''s'') = Inr u"
      using parts_step [OF unit_values(6), of 0 "fmt_unit 0 q ''m'' @ fmt_unit 9 s ''s''" 0 h orig]
        minutes [of "h * 3600000000000"] assms u
      by simp
    have shown: "magnitude_text u = (if 60 \<le> k then fmt_unit 0 h ''h'' else []) @ (if 0 < k then fmt_unit 0 q ''m'' else [])
        @ fmt_unit 9 s ''s''"
      using 5 by (simp add: magnitude_text_def Let_def s_def k_def q_def h_def)
    consider "60 \<le> k" | "0 < k" "k < 60" "h = 0" | "k = 0" "h = 0" "q = 0" by (cases "k < 60") (auto simp: h_def q_def)
    then show ?thesis unfolding shown using hours minutes [of 0] seconds [of 0] u assms by cases simp_all
  qed
qed

lemma magnitude_first: "\<exists>c cs. magnitude_text u = c # cs \<and> is_digit c \<and> cs \<noteq> []"
proof -
  have "\<exists>c cs. fmt_unit p v unit @ r = c # cs \<and> is_digit c \<and> cs \<noteq> []" if "unit \<noteq> []" for p v unit r
    using digits_of_list_all [of "v div 10 ^ p"] that
    by (cases "digits_of (v div 10 ^ p)") (simp_all add: fmt_unit_def digits_of_not_Nil)
  from this [where r = "[]"] this show ?thesis
    by (auto simp: magnitude_text_def Let_def is_digit_def byte_def)
qed

text \<open>Every duration that is shown can be given back as a flag or a variable.\<close>

theorem duration_reads_back:
  assumes "int64 d"
  shows "parse_duration (duration_text d) = Inr d"
proof -
  let ?u = "nat \<bar>d\<bar>"
  obtain c cs where c: "magnitude_text ?u = c # cs" "is_digit c" "cs \<noteq> []"
    using magnitude_first [of ?u] by blast
  have sign: "c \<noteq> CHR ''-''" "c \<noteq> CHR ''+''" using c(2) by (auto simp: is_digit_def byte_def)
  have "duration_parts orig 0 (magnitude_text ?u) = Inr ?u" for orig
    using assms by (intro magnitude_reads_back) (simp add: int64_def nat_le_iff abs_le_iff)
  then show ?thesis using assms c sign by (auto simp: parse_duration_def Let_def duration_text_def int64_def)
qed

section \<open>Defaults\<close>

lemma usage_shows_default:
  assumes "(n, v) \<in> set fs"
  shows "sublist (default_text v) (flags_usage fs)"
proof -
  have "(n, v) \<in> set (sort_key fst fs)" using assms by simp
  then obtain xs ys where split: "sort_key fst fs = xs @ (n, v) # ys" by (meson split_list)
  define head where "head = ''  -'' @ n @ type_text v"
  have "flags_usage fs = (''Usage of emailer:'' @ [chr 10] @ concat (map flag_usage xs) @ head
      @ (if length head \<le> 4 then [chr 9] else [chr 10] @ ''    '' @ [chr 9]))
      @ default_text v @ ([chr 10] @ concat (map flag_usage ys))"
    by (simp add: flags_usage_def split flag_usage_def Let_def head_def)
  then show ?thesis unfolding sublist_def by blast
qed

lemma sublist_middle: "sublist x y \<Longrightarrow> sublist x (p @ y @ q)"
  unfolding sublist_def by (metis append_assoc)

lemma secret_flags:
  "(''llm-api-key'', FString (llm_api_key (cfg_llm c))) \<in> set (config_flags c)"
  "(''telegram-bot-token'', FString (tg_bot_token (cfg_telegram c))) \<in> set (config_flags c)"
  by (simp_all add: config_flags_def flags_llm_def flags_telegram_def)

text \<open>C28: When the flags do not parse, because one is mistyped or malformed or help is asked for with
  \<open>-help\<close>, the program exits with 2 and the usage that package \<open>flag\<close> writes to the standard error, which
  no redaction sees, shows the API key and the bot token of the file or the environment as defaults.\<close>

theorem bad_flag_prints_secrets:
  assumes "parse_main_flags args no_flags = Some f"
    and "file_config (pg_config pg) \<lparr>lo_config_path = mf_config f, lo_args = Some (mf_rest f)\<rparr> = Inr c0"
    and "load_env (pg_environment pg) c0 = (None, c)"
    and "parse_flags (config_flags c) (mf_rest f) = Inl e"
    and "secret \<in> {llm_api_key (cfg_llm c), tg_bot_token (cfg_telegram c)}" and "secret \<noteq> []"
  shows "oc_code (fst (run_program pg args db w)) = 2
    \<and> contains_str (program_stderr pg args (fst (run_program pg args db w))) (''(default '' @ go_quote secret @ '')'')"
proof
  let ?opts = "\<lparr>lo_config_path = mf_config f, lo_args = Some (mf_rest f)\<rparr>"
  have "load (pg_config pg) (pg_environment pg) args ?opts = Inl (Wrap ''config.loadFlags: '' e)"
    using assms(2-4) by (simp only: load_eq args_of_def load_flags_def sum.case option.case prod.case load_options.simps)
  then show "oc_code (fst (run_program pg args db w)) = 2"
    using assms(1) by (simp add: run_program_def fatal_def)
  obtain n where "(n, FString secret) \<in> set (config_flags c)"
    using assms(5) secret_flags [of c] by blast
  from usage_shows_default [OF this] have "sublist (default_text (FString secret)) (flags_usage (config_flags c))" .
  moreover have "sublist (''(default '' @ go_quote secret @ '')'') (default_text (FString secret))"
    using assms(6) by (simp add: default_text_def sublist_Cons_right)
  ultimately have usage: "sublist (''(default '' @ go_quote secret @ '')'') (flags_usage (config_flags c))"
    by (metis sublist_order.order.trans)
  have printed: "program_stderr pg args oc = (if e = help_requested then [] else err_text e @ [chr 10]) @ flags_usage (config_flags c)
      @ (case oc_report oc of None \<Rightarrow> [] | Some r \<Rightarrow> report_text r)" for oc
    using assms(1-4) by (simp add: program_stderr_def load_stderr_def flag_output_def args_of_def)
  show "contains_str (program_stderr pg args (fst (run_program pg args db w))) (''(default '' @ go_quote secret @ '')'')"
    unfolding contains_iff_sublist printed using usage by (rule sublist_middle)
qed

theorem bad_flag_prints_secrets_witness:
  "let pg = demo_program\<lparr>pg_environment := [''EMAILER_LLM_API_KEY'' \<mapsto> ''sk-1'']\<rparr>;
       oc = fst (run_program pg [''--verbose''] empty_db 0) in
   oc_code oc = 2 \<and> contains_str (program_stderr pg [''--verbose''] oc) (''(default '' @ go_quote ''sk-1'' @ '')'')"
proof -
  let ?pg = "demo_program\<lparr>pg_environment := [''EMAILER_LLM_API_KEY'' \<mapsto> ''sk-1'']\<rparr>"
  let ?c = "snd (load_env [''EMAILER_LLM_API_KEY'' \<mapsto> ''sk-1''] default_config)"
  show ?thesis unfolding Let_def
  proof (rule bad_flag_prints_secrets)
    show "parse_main_flags [''--verbose''] no_flags = Some (no_flags\<lparr>mf_rest := [''--verbose'']\<rparr>)" by code_simp
    show "file_config (pg_config ?pg) \<lparr>lo_config_path = mf_config (no_flags\<lparr>mf_rest := [''--verbose'']\<rparr>),
        lo_args = Some (mf_rest (no_flags\<lparr>mf_rest := [''--verbose'']\<rparr>))\<rparr> = Inr default_config" 
      by (simp add: file_config_def no_flags_def)
    show "load_env (pg_environment ?pg) default_config = (None, ?c)"
      by code_simp
    show "parse_flags (config_flags ?c) (mf_rest (no_flags\<lparr>mf_rest := [''--verbose'']\<rparr>))
        = Inl (Err ''flag provided but not defined: -verbose'')" by code_simp
    show "''sk-1'' \<in> {llm_api_key (cfg_llm ?c), tg_bot_token (cfg_telegram ?c)}" by code_simp
  qed simp
qed


section \<open>What validation says about secrets\<close>

text \<open>A configuration with every secret replaced by one as good as any other.\<close>

definition hide_password :: "imap_account \<Rightarrow> imap_account" where
  "hide_password a = a\<lparr>acct_password := (if acct_password a = [] then [] else ''x'')\<rparr>"

definition hide_secrets :: "config \<Rightarrow> config" where
  "hide_secrets c = c
     \<lparr>cfg_llm := (cfg_llm c)\<lparr>llm_api_key := (if llm_api_key (cfg_llm c) = [] then [] else ''x'')\<rparr>,
      cfg_imap := (cfg_imap c)\<lparr>imap_accounts := map hide_password (imap_accounts (cfg_imap c))\<rparr>,
      cfg_telegram := (cfg_telegram c)\<lparr>tg_bot_token :=
        (let t = tg_bot_token (cfg_telegram c) in if t = [] then [] else if bot_token_ok t then ''1:x'' else ''x'')\<rparr>\<rparr>"

lemma hide_password_normalize: "normalize_account (hide_password a) = hide_password (normalize_account a)"
  by (simp add: normalize_account_def hide_password_def Let_def)

lemma hide_password_validate: "validate_account i (hide_password a) = validate_account i a"
  by (simp add: validate_account_def hide_password_def folders_of_def)

lemma enumerate_map_eq:
  "(\<And>i x. f i (g x) = f i x) \<Longrightarrow> map (\<lambda>(i, x). f i x) (enumerate n (map g xs)) = map (\<lambda>(i, x). f i x) (enumerate n xs)"
  by (induction xs arbitrary: n) simp_all

text \<open>The errors of the validation tell whether a secret is there and well-formed, and nothing else about it.\<close>

theorem validation_hides_secrets: "validate (hide_secrets c) = validate c"
proof -
  have "map normalize_account (imap_accounts (cfg_imap (hide_secrets c)))
      = map hide_password (map normalize_account (imap_accounts (cfg_imap c)))"
    by (simp add: hide_secrets_def hide_password_normalize)
  moreover have "map acct_label (map hide_password as) = map acct_label as" for as
    by (simp add: hide_password_def)
  moreover have "map (\<lambda>(i, a). validate_account i a) (enumerate 0 (map hide_password as))
      = map (\<lambda>(i, a). validate_account i a) (enumerate 0 as)" for as
    by (rule enumerate_map_eq) (rule hide_password_validate)
  ultimately have "validate_imap (cfg_imap (hide_secrets c)) = validate_imap (cfg_imap c)"
    by (simp add: validate_imap_def Let_def del: map_map) (simp add: hide_secrets_def)
  moreover have "bot_token_ok ''1:x''" "\<not> bot_token_ok ''x''" by code_simp+
  ultimately show ?thesis
    by (simp add: validate_def hide_secrets_def Let_def validate_top_level_def validate_llm_def validate_telegram_def)
qed

text \<open>Nor does the usage of the flags tell anything about the accounts.\<close>

lemma flags_hide_accounts: "config_flags (c\<lparr>cfg_imap := i\<rparr>) = config_flags c"
  by (simp add: config_flags_def flags_top_def)

section \<open>Examples\<close>

lemma duration_examples:
  "duration_text 90000000000 = ''1m30s''" "duration_text (- 259200000000000) = ''-72h0m0s''"
  "duration_text 1500000 = ''1.5ms''" "duration_text 0 = ''0s''"
  by code_simp+

lemma flag_usage_examples:
  "flag_usage (''llm-timeout'', FDuration 60000000000) =
     ''  -llm-timeout duration'' @ [chr 10] @ ''    '' @ [chr 9] @ '' (default 1m0s)'' @ [chr 10]"
  "flag_usage (''v'', FBool False) = ''  -v'' @ [chr 9, chr 10]"
  by code_simp+

lemma account_report:
  "report_text (Invalid [PortOutOfRange 1 70000]) =
     ''configuration error: imap.accounts[1].port must be between 1 and 65535, got 70000'' @ [chr 10]"
  by code_simp

end
