(* ===== verification/Spec2Isabelle.thy ===== *)
theory Spec2Isabelle
  imports RunLedger Shutdown WireProps Reports
begin

text \<open>
  A verification library for \<open>emailer\<close>, a one-shot e-mail agent written in Go: it fetches mail over
  IMAP, has a language model classify it, writes IMAP keywords, and sends a digest to Telegram.

  \<^bold>\<open>The program and its theories.\<close>  The command \<open>cmd/emailer/main.go\<close> parses the command line, loads
  and validates the configuration, opens the store, logs in to every IMAP account, builds the provider
  and the channel, runs the pipeline once, and turns the result into an exit code.  One run is \<open>Pipeline.Run\<close> of
  \<open>internal/orchestrator/orchestrator.go\<close>.  It records the run in the store, computes the fetch
  window, fetches all accounts at once, drops the messages that the store knows, asks the provider
  for classifications, builds and renders the digest, writes the flags, sends the digest, records
  what was done, and finishes the run.  The theories follow the packages:

  \<^item> \<open>Prelude\<close>, \<open>GoStrings\<close>: times, errors as values, counters and groups; the operations of Go's
    \<open>strings\<close>, \<open>unicode/utf8\<close>, \<open>strconv\<close> and \<open>fmt\<close> that the program uses, on strings as lists of bytes.
  \<^item> \<open>Config\<close>, \<open>GoNumbers\<close>, \<open>Environment\<close>, \<open>Flags\<close>, \<open>Load\<close> (\<open>internal/config\<close>): the configuration records,
    defaults and every validation rule; the number and duration syntax of \<open>strconv\<close> and \<open>time\<close>; the three
    layers file, environment and flags, with Go's package \<open>flag\<close>; and \<open>config.Load\<close>, which stacks them.
    That a configuration was typed (every field within the range of its Go type) is the predicate
    \<open>typed_config\<close>.
  \<^item> \<open>Logging\<close> (\<open>internal/log\<close>): levels, the options of the logger, and the handler that redacts secrets.
  \<^item> \<open>MailTypes\<close>, \<open>Sanitize\<close>, \<open>Body\<close>, \<open>Imap\<close>, \<open>ImapProps\<close>, \<open>Pool\<close> (\<open>internal/mail\<close>): messages and
    keys, cleaning of text, the body of a MIME message, the IMAP client with its reconnecting calls,
    and the concurrent fetch as a step relation over all interleavings.
  \<^item> \<open>Store\<close>, \<open>NoopStore\<close>, \<open>TimeText\<close>, \<open>SqliteStore\<close>, \<open>StoreProps\<close>, \<open>RunStore\<close> (\<open>internal/store\<close>): the
    store as a record of operations with its contract as the locale \<open>store\<close>, interpreted on the
    in-memory store and on SQLite, whose tables are lists of rows; \<open>RunStore\<close> extends the contract to
    whole runs.
  \<^item> \<open>LlmParse\<close>, \<open>Prompt\<close>, \<open>Providers\<close> (\<open>internal/llm\<close>): the prompt, the four providers and the parsing of
    responses; the locale \<open>validating_provider\<close> states what all four promise.
  \<^item> \<open>Json\<close>, \<open>JsonText\<close>, \<open>JsonDecode\<close>, \<open>Wire\<close>, \<open>WireProps\<close>: Go's \<open>encoding/json\<close> as a byte-at-a-time scanner with
    its error messages, proved to read back what is written; the decoders into Go variables, with floats
    rounded to 64 bits; the JSON tags of every request and response struct; and what follows for requests
    and for the model's answer.
  \<^item> \<open>Digest\<close>, \<open>Render\<close> (\<open>internal/digest\<close>): selection, grouping and statistics, and the text of both
    templates.
  \<^item> \<open>Telegram\<close> (\<open>internal/notify\<close>): the request, the retry loop and the pauses.
  \<^item> \<open>Stats\<close>, \<open>Classify\<close>, \<open>Pipeline\<close>, \<open>PipelineProps\<close> (\<open>internal/orchestrator\<close>): the statistics, the
    classification step and the run.
  \<^item> \<open>Program\<close> (\<open>cmd/emailer/main.go\<close>): the command line, opening and migrating the database, dialling the
    accounts, the wiring of the pipeline, and the exit codes.  \<open>Sha256\<close>: the hash stored with a delivery.
    \<open>Reports\<close>: what goes to the standard error, and which of it shows a secret.  \<open>Shutdown\<close>
    (\<open>internal/shutdown\<close>): the signal context and the bounded wait.
  \<^item> \<open>RunInvariant\<close>, \<open>RunLedger\<close>, \<open>Connections\<close>: facts about a whole run, each a locale over what the run
    calls.  \<open>run_invariant\<close> carries a predicate on the outside world through a run; \<open>run_ledger\<close> follows
    the row of the run in the store until it is finished, and is interpreted on both stores;
    \<open>connection_meter\<close> counts logins and logouts around any server, and its interpretation on the program
    shows that every connection is closed whatever happens.

  \<^bold>\<open>What is a parameter.\<close>  Third-party packages (\<open>go-imap\<close>, \<open>go-message\<close>, the SQLite driver),
  HTTP, the decoding of configuration files (\<open>config_lib\<close>), the environment, \<open>text/template\<close> on a
  configured prompt, the text of a non-zero float in a request, the clock and the order in which Go
  iterates a map are arguments of the definitions that use them.  A call of the outside world takes
  and returns a world, so any behaviour, failing or not, is covered.  Faults of the database are the
  function \<open>io_fault\<close> of \<open>store_io\<close>.

  In \<open>Program\<close> the tasks of a fetch run one after the other in an order that is a parameter of the
  program; all their interleavings are the subject of \<open>Pool\<close>.

  \<^bold>\<open>Conventions.\<close>  A time is its nanoseconds since Go's zero time, a UID a 32-bit word, a Go \<open>int\<close> an
  unbounded integer where the code cannot overflow it, an error a value of type \<open>err\<close> that keeps
  the wrapping structure and whose \<open>err_text\<close> is \<open>Error()\<close>.  Loops are structural recursion, or
  recursion with a measure; no definition uses fuel.

  \<^bold>\<open>Not modelled.\<close>  The log lines that the operations write (the handler they go through is modelled in
  \<open>Logging\<close>), cancellation of contexts except where a function looks at
  \<open>ctx.Err()\<close>, and the decoders of \<open>golang.org/x/net/html/charset\<close>, which are a parameter.  A fraction in a
  duration is computed exactly, where Go rounds beyond eighteen digits; a float is a rational, so minus
  zero is zero; an array of JSON that stands three times under one key of an object is decoded into the
  elements of the second, where Go may still show those of the first.
\<close>

end
